theory Spec2Isabelle
  imports Complex_Main "HOL-Library.Multiset"
begin

section \<open>The game server: configuration and entity tables\<close>

text \<open>
  The server is the JavaScript program that starts at \<^verbatim>\<open>const express = require('express')\<close>.
  JavaScript numbers are values of type \<^typ>\<open>real\<close>; hit points, damage and distances are
  computed in binary64 arithmetic (section Numbers). Millisecond time stamps
  (\<^verbatim>\<open>Date.now()\<close>) and scores are integers, counters are naturals. Identifiers (uuid strings,
  device identifiers, network addresses) are strings.
\<close>

type_synonym ident = string

named_theorems config \<open>the constants of CONFIG and of the type tables\<close>

definition MAP_WIDTH :: real where [config]: "MAP_WIDTH = 2000"
definition MAP_HEIGHT :: real where [config]: "MAP_HEIGHT = 1200"
definition TANK_SIZE :: real where [config]: "TANK_SIZE = 70"
definition BULLET_SPEED :: real where [config]: "BULLET_SPEED = 8"
definition BULLET_SIZE :: real where [config]: "BULLET_SIZE = 8"
definition BASE_TANK_SPEED :: real where [config]: "BASE_TANK_SPEED = 3"
definition BASE_FIRE_RATE :: int where [config]: "BASE_FIRE_RATE = 500"
definition BASE_DAMAGE :: real where [config]: "BASE_DAMAGE = 25"
definition BASE_HEALTH :: real where [config]: "BASE_HEALTH = 100"
definition BASE_FIRE_RANGE :: real where [config]: "BASE_FIRE_RANGE = 500"
definition SPAWN_PROTECTION_TIME :: int where [config]: "SPAWN_PROTECTION_TIME = 5000"
definition MAX_OBSTACLES :: nat where [config]: "MAX_OBSTACLES = 30"
definition MAX_POWERUPS :: nat where [config]: "MAX_POWERUPS = 5"
definition ADMIN_PASSWORD :: string where [config]: "ADMIN_PASSWORD = ''TankDestroyer''"
definition BOT_REACTION_TIME :: int where [config]: "BOT_REACTION_TIME = 2000"
definition HEARTBEAT_TIMEOUT :: int where [config]: "HEARTBEAT_TIMEOUT = 15000"

subsection \<open>OBSTACLE_TYPES\<close>

datatype obstacle_type = TREE | WALL | BARREL | CRATE

record obstacle_config =
  config_hp :: real
  destructible :: bool
  explosive :: bool
  explosionRadius :: real
  explosionDamage :: real
  containsPowerup :: bool
  points :: int

text \<open>
  A key that an entry of the table does not have (\<^verbatim>\<open>explosive\<close> of a tree) reads as
  \<^verbatim>\<open>undefined\<close>, which is falsy: it is \<^term>\<open>False\<close> here. The blast figures of the three
  non-explosive types are never read by the program; they are 0 in the table below.
\<close>

fun OBSTACLE_TYPES :: "obstacle_type \<Rightarrow> obstacle_config" where
  "OBSTACLE_TYPES TREE = \<lparr>config_hp = 30, destructible = True, explosive = False,
     explosionRadius = 0, explosionDamage = 0, containsPowerup = False, points = 5\<rparr>"
| "OBSTACLE_TYPES WALL = \<lparr>config_hp = 150, destructible = True, explosive = False,
     explosionRadius = 0, explosionDamage = 0, containsPowerup = False, points = 10\<rparr>"
| "OBSTACLE_TYPES BARREL = \<lparr>config_hp = 20, destructible = True, explosive = True,
     explosionRadius = 150, explosionDamage = 100, containsPowerup = False, points = 5\<rparr>"
| "OBSTACLE_TYPES CRATE = \<lparr>config_hp = 40, destructible = True, explosive = False,
     explosionRadius = 0, explosionDamage = 0, containsPowerup = True, points = 5\<rparr>"

subsection \<open>POWERUP_TYPES\<close>

datatype powerup_type = SPEED | POWER | HEALTH | RANGE | INVINCIBILITY | MYSTERY

record powerup_config =
  multiplier :: real
  amount :: real
  duration :: int
  maxStacks :: nat

text \<open>
  \<^verbatim>\<open>duration\<close> is in seconds, 0 meaning that the powerup never expires. Only SPEED, POWER
  and RANGE have a multiplier and only HEALTH an amount; the program reads neither
  anywhere else, and the absent ones are 1 and 0 here.
\<close>

fun POWERUP_TYPES :: "powerup_type \<Rightarrow> powerup_config" where
  "POWERUP_TYPES SPEED = \<lparr>multiplier = 13 / 10, amount = 0, duration = 0, maxStacks = 3\<rparr>"
| "POWERUP_TYPES POWER = \<lparr>multiplier = 15 / 10, amount = 0, duration = 0, maxStacks = 3\<rparr>"
| "POWERUP_TYPES HEALTH = \<lparr>multiplier = 1, amount = 50, duration = 0, maxStacks = 1\<rparr>"
| "POWERUP_TYPES RANGE = \<lparr>multiplier = 13 / 10, amount = 0, duration = 0, maxStacks = 3\<rparr>"
| "POWERUP_TYPES INVINCIBILITY = \<lparr>multiplier = 1, amount = 0, duration = 10, maxStacks = 1\<rparr>"
| "POWERUP_TYPES MYSTERY = \<lparr>multiplier = 1, amount = 0, duration = 0, maxStacks = 1\<rparr>"

definition MYSTERY_explodeChance :: real where [config]: "MYSTERY_explodeChance = 1 / 2"
definition MYSTERY_explosionRadius :: real where [config]: "MYSTERY_explosionRadius = 120"
definition MYSTERY_explosionDamage :: real where [config]: "MYSTERY_explosionDamage = 80"

section \<open>Numbers\<close>

text \<open>
  A JavaScript number is an IEEE 754 binary64 value, and every arithmetic operation
  returns the exact result rounded to the nearest such value, a tie going to the one
  with the even significand. The finite doubles are reals, and \<open>fl\<close> is that rounding:
  \<open>binade a\<close> is the power of two at or below \<open>\<bar>a\<bar>\<close>, kept between \<open>2\<^sup>-\<^sup>1\<^sup>0\<^sup>2\<^sup>2\<close> (below it the
  doubles are subnormal and equally spaced) and \<open>2\<^sup>1\<^sup>0\<^sup>2\<^sup>3\<close> (the last binade); \<open>ulp a\<close> is the
  spacing of the doubles in that binade, and \<open>fl a\<close> is the multiple of \<open>ulp a\<close> nearest to
  \<open>a\<close>. A result of magnitude \<open>2\<^sup>1\<^sup>0\<^sup>2\<^sup>4\<close> or more, which the machine returns as
  \<^verbatim>\<open>Infinity\<close>, is outside this model; hit points, damage, radii and the coordinates of
  the map stay far below it.

  Hit points, damage and distances are computed with the rounded operations. The other
  quantities (positions after a move, angles, effective stats) are computed on the
  reals.
\<close>

definition round_half_even :: "real \<Rightarrow> int" where
  "round_half_even r =
     (let f = \<lfloor>r\<rfloor> in
      if r - of_int f < 1 / 2 then f
      else if r - of_int f > 1 / 2 then f + 1
      else if even f then f else f + 1)"

fun binade_up :: "nat \<Rightarrow> real \<Rightarrow> real" where
  "binade_up 0 a = 1"
| "binade_up (Suc n) a = (if a < 2 then 1 else 2 * binade_up n (a / 2))"

fun binade_down :: "nat \<Rightarrow> real \<Rightarrow> real" where
  "binade_down 0 a = 1"
| "binade_down (Suc n) a = (if 1 \<le> a then 1 else binade_down n (2 * a) / 2)"

definition binade :: "real \<Rightarrow> real" where
  "binade a = (if 1 \<le> \<bar>a\<bar> then binade_up 1023 \<bar>a\<bar> else binade_down 1022 \<bar>a\<bar>)"

definition ulp :: "real \<Rightarrow> real" where
  "ulp a = binade a / 2 ^ 52"

definition fl :: "real \<Rightarrow> real" where
  "fl a = of_int (round_half_even (a / ulp a)) * ulp a"

text \<open>The operations \<^verbatim>\<open>+\<close>, \<^verbatim>\<open>-\<close>, \<^verbatim>\<open>*\<close>, \<^verbatim>\<open>/\<close> and \<^verbatim>\<open>Math.sqrt\<close> on doubles.\<close>

definition fadd :: "real \<Rightarrow> real \<Rightarrow> real" where "fadd a b = fl (a + b)"

definition fsub :: "real \<Rightarrow> real \<Rightarrow> real" where "fsub a b = fl (a - b)"

definition fmul :: "real \<Rightarrow> real \<Rightarrow> real" where "fmul a b = fl (a * b)"

definition fdiv :: "real \<Rightarrow> real \<Rightarrow> real" where "fdiv a b = fl (a / b)"

definition fsqrt :: "real \<Rightarrow> real" where "fsqrt a = fl (sqrt a)"

section \<open>Entities\<close>

record point =
  x :: real
  y :: real

record moving_intent =
  up :: bool
  down :: bool
  left :: bool
  right :: bool

record stack_entry =
  stacks :: nat
  expiresAt :: int

text \<open>
  A tank. \<^verbatim>\<open>powerups\<close> is the object keyed by powerup type; \<^verbatim>\<open>invincibilityEnd\<close>,
  \<^verbatim>\<open>deviceId\<close> and \<^verbatim>\<open>ws\<close> are not set by the constructor and are \<^verbatim>\<open>undefined\<close>
  (\<^term>\<open>None\<close>) until assigned; \<^verbatim>\<open>ws\<close> holds the number of the attached connection.
\<close>

record tank = point +
  tankId :: ident
  name :: string
  primaryColor :: string
  secondaryColor :: string
  avatarUrl :: string
  angle :: real
  hp :: real
  maxHp :: real
  speed :: real
  damage :: real
  fireRange :: real
  fireRate :: int
  lastFire :: int
  score :: int
  kills :: nat
  deaths :: nat
  isBot :: bool
  spawnProtection :: bool
  invincible :: bool
  invincibilityEnd :: "int option"
  powerups :: "powerup_type \<Rightarrow> stack_entry option"
  moving :: moving_intent
  deviceId :: "ident option"
  ws :: "nat option"

text \<open>The callbacks that the tank's methods hand to \<^verbatim>\<open>setTimeout\<close>, with their delay.\<close>

datatype timer_callback = SpawnProtectionOff | InvincibilityOff int

record timer =
  delay :: int
  callback :: timer_callback

section \<open>Tank methods\<close>

subsection \<open>applyPowerup\<close>

text \<open>
  \<^verbatim>\<open>applyPowerup(type)\<close> with the value \<open>now\<close> that \<^verbatim>\<open>Date.now()\<close> returns in it. Every
  caller passes a key of POWERUP_TYPES, so the early return on an unknown type has no
  input here. The result is the tank and the timers the call registers.
\<close>

definition applyPowerup :: "int \<Rightarrow> powerup_type \<Rightarrow> tank \<Rightarrow> tank \<times> timer list" where
  "applyPowerup now type t =
     (let powerup = POWERUP_TYPES type in
      if type = HEALTH then (t\<lparr>hp := min (maxHp t) (fadd (hp t) (amount powerup))\<rparr>, [])
      else
        let durationMs = duration powerup * 1000;
            expires = (if durationMs > 0 then now + durationMs else 0);
            t1 = (case powerups t type of
                    None \<Rightarrow> t\<lparr>powerups := (powerups t)(type \<mapsto> \<lparr>stacks = 1, expiresAt = expires\<rparr>)\<rparr>
                  | Some e \<Rightarrow>
                      if expiresAt e > 0 \<and> now \<ge> expiresAt e
                      then t\<lparr>powerups := (powerups t)(type \<mapsto> \<lparr>stacks = 1, expiresAt = expires\<rparr>)\<rparr>
                      else if stacks e < maxStacks powerup
                      then t\<lparr>powerups := (powerups t)(type \<mapsto>
                             \<lparr>stacks = stacks e + 1,
                              expiresAt = (if durationMs > 0 then expires else expiresAt e)\<rparr>)\<rparr>
                      else t\<lparr>powerups := (powerups t)(type \<mapsto>
                             e\<lparr>expiresAt := (if durationMs > 0 then expires else expiresAt e)\<rparr>)\<rparr>)
        in if type = INVINCIBILITY
           then (t1\<lparr>invincible := True, invincibilityEnd := Some expires\<rparr>,
                 if durationMs > 0
                 then [\<lparr>delay = durationMs, callback = InvincibilityOff expires\<rparr>]
                 else [])
           else (t1, []))"

text \<open>The two timer callbacks, run on the tank that registered them.\<close>

fun run_callback :: "timer_callback \<Rightarrow> tank \<Rightarrow> tank" where
  "run_callback SpawnProtectionOff t = t\<lparr>spawnProtection := False\<rparr>"
| "run_callback (InvincibilityOff captured) t =
     (if invincibilityEnd t = Some captured
      then t\<lparr>invincible := False, powerups := (powerups t)(INVINCIBILITY := None)\<rparr>
      else t)"

subsection \<open>getEffectiveStats\<close>

record stats =
  stat_speed :: real
  stat_damage :: real
  stat_range :: real

text \<open>The loop \<^verbatim>\<open>for (let i = 0; i < stacks; i++) v *= m\<close>.\<close>

fun times_multiplier :: "nat \<Rightarrow> real \<Rightarrow> real \<Rightarrow> real" where
  "times_multiplier 0 m v = v"
| "times_multiplier (Suc n) m v = times_multiplier n m (v * m)"

text \<open>One of the three blocks of \<^verbatim>\<open>getEffectiveStats\<close>: the value, and the entry deleted
  when it has expired.\<close>

definition stacked :: "int \<Rightarrow> powerup_type \<Rightarrow> real \<Rightarrow> tank \<Rightarrow> real \<times> tank" where
  "stacked now type base t =
     (case powerups t type of
        None \<Rightarrow> (base, t)
      | Some e \<Rightarrow>
          if expiresAt e = 0 \<or> now < expiresAt e
          then (times_multiplier (stacks e) (multiplier (POWERUP_TYPES type)) base, t)
          else (base, t\<lparr>powerups := (powerups t)(type := None)\<rparr>))"

definition getEffectiveStats :: "int \<Rightarrow> tank \<Rightarrow> stats \<times> tank" where
  "getEffectiveStats now t =
     (let (speed, t1) = stacked now SPEED BASE_TANK_SPEED t;
          (damage, t2) = stacked now POWER BASE_DAMAGE t1;
          (range, t3) = stacked now RANGE BASE_FIRE_RANGE t2
      in (\<lparr>stat_speed = speed, stat_damage = damage, stat_range = range\<rparr>, t3))"

definition resetPowerups :: "tank \<Rightarrow> tank" where
  "resetPowerups t =
     t\<lparr>powerups := (\<lambda>_. None), speed := BASE_TANK_SPEED, damage := BASE_DAMAGE,
       fireRange := BASE_FIRE_RANGE, invincible := False\<rparr>"

definition spawnProtection_timer :: timer where
  "spawnProtection_timer = \<lparr>delay = SPAWN_PROTECTION_TIME, callback = SpawnProtectionOff\<rparr>"

section \<open>Helper functions\<close>

subsection \<open>Names and colours\<close>

text \<open>
  Strings are lists of 8-bit characters. \<^verbatim>\<open>trim\<close> removes the white space and line
  terminators of the language at both ends; these are the ones below 256. An argument
  that is missing or not a string is \<^term>\<open>None\<close>.
\<close>

definition is_space :: "char \<Rightarrow> bool" where
  "is_space c = (of_char c \<in> {9, 10, 11, 12, 13, 32, 160 :: nat})"

definition trim :: "string \<Rightarrow> string" where
  "trim s = rev (dropWhile is_space (rev (dropWhile is_space s)))"

definition sanitizeTankName :: "string option \<Rightarrow> string" where
  "sanitizeTankName nm =
     (case nm of
        None \<Rightarrow> ''Unknown''
      | Some s \<Rightarrow>
          if s = [] then ''Unknown''
          else let r = take 20 (trim s) in if r = [] then ''Unknown'' else r)"

definition hex_digit :: "char \<Rightarrow> nat option" where
  "hex_digit c =
     (let n = of_char c :: nat in
      if 48 \<le> n \<and> n \<le> 57 then Some (n - 48)
      else if 97 \<le> n \<and> n \<le> 102 then Some (n - 87)
      else if 65 \<le> n \<and> n \<le> 70 then Some (n - 55)
      else None)"

definition hex_pair :: "char \<Rightarrow> char \<Rightarrow> nat option" where
  "hex_pair a b =
     (case (hex_digit a, hex_digit b) of
        (Some h, Some l) \<Rightarrow> Some (16 * h + l)
      | _ \<Rightarrow> None)"

text \<open>The regular expression \<^verbatim>\<open>/^#?([a-f\d]{2})([a-f\d]{2})([a-f\d]{2})$/i\<close>.\<close>

definition hexToRgb :: "string \<Rightarrow> (nat \<times> nat \<times> nat) option" where
  "hexToRgb hex =
     (case (case hex of c # rest \<Rightarrow> if c = CHR ''#'' then rest else hex | [] \<Rightarrow> hex) of
        [r1, r2, g1, g2, b1, b2] \<Rightarrow>
          (case (hex_pair r1 r2, hex_pair g1 g2, hex_pair b1 b2) of
             (Some r, Some g, Some b) \<Rightarrow> Some (r, g, b)
           | _ \<Rightarrow> None)
      | _ \<Rightarrow> None)"

definition getColorBrightness :: "string \<Rightarrow> real" where
  "getColorBrightness hex =
     (case hexToRgb hex of
        None \<Rightarrow> 0
      | Some (r, g, b) \<Rightarrow> (real r * 299 + real g * 587 + real b * 114) / 1000)"

definition brightColors :: "string list" where
  "brightColors =
     [''#FF5722'', ''#E91E63'', ''#9C27B0'', ''#673AB7'',
      ''#3F51B5'', ''#2196F3'', ''#00BCD4'', ''#009688'',
      ''#4CAF50'', ''#8BC34A'', ''#CDDC39'', ''#FFEB3B'',
      ''#FFC107'', ''#FF9800'', ''#FF5722'', ''#F44336'']"

text \<open>
  \<^verbatim>\<open>list[Math.floor(r * list.length)]\<close> for a value \<open>r\<close> of \<^verbatim>\<open>Math.random()\<close>, which is at
  least 0 and less than 1, so that the index is in range. The model is total: a value
  outside that interval, which the generator never returns, selects the nearest end.
\<close>

definition pick :: "'a list \<Rightarrow> real \<Rightarrow> 'a" where
  "pick xs r = xs ! min (length xs - 1) (nat \<lfloor>r * real (length xs)\<rfloor>)"

subsection \<open>Geometry\<close>

text \<open>\<^verbatim>\<open>Math.sqrt(Math.pow(a.x - b.x, 2) + Math.pow(a.y - b.y, 2))\<close>, each operation rounded;
  \<^verbatim>\<open>Math.pow(d, 2)\<close> is the rounded product \<^verbatim>\<open>d * d\<close>.\<close>

definition distance :: "'a point_scheme \<Rightarrow> 'b point_scheme \<Rightarrow> real" where
  "distance a b =
     (let dx = fsub (x a) (x b); dy = fsub (y a) (y b)
      in fsqrt (fadd (fmul dx dx) (fmul dy dy)))"

definition checkCollision ::
    "'a point_scheme \<Rightarrow> 'b point_scheme \<Rightarrow> real \<Rightarrow> real \<Rightarrow> bool" where
  "checkCollision obj1 obj2 size1 size2 = (distance obj1 obj2 < (size1 + size2) / 2)"

text \<open>\<^verbatim>\<open>Math.atan2(dy, dx)\<close> on reals (there is no negative zero).\<close>

definition atan2 :: "real \<Rightarrow> real \<Rightarrow> real" where
  "atan2 dy dx =
     (if dx > 0 then arctan (dy / dx)
      else if dx < 0 then (if dy \<ge> 0 then arctan (dy / dx) + pi else arctan (dy / dx) - pi)
      else if dy > 0 then pi / 2
      else if dy < 0 then - pi / 2
      else 0)"

section \<open>The other entities\<close>

record bullet = point +
  bulletId :: ident
  ownerId :: ident
  startX :: real
  startY :: real
  bulletAngle :: real
  bulletDamage :: real
  bulletRange :: real
  bulletSpeed :: real

text \<open>An obstacle's \<^verbatim>\<open>config\<close> is \<^term>\<open>OBSTACLE_TYPES\<close> of its type, a powerup's
  \<^term>\<open>POWERUP_TYPES\<close> of its type.\<close>

record obstacle = point +
  obstacleId :: ident
  obstacleType :: obstacle_type
  obstacleHp :: real
  obstacleMaxHp :: real
  obstacleSize :: real

record powerup = point +
  powerupId :: ident
  powerupType :: powerup_type
  powerupSize :: real

datatype bot_state = Roaming | Attacking

text \<open>A bot controller; \<^verbatim>\<open>this.tank\<close> is the tank with the identifier \<open>botTank\<close>, which is
  also the controller's key in \<^verbatim>\<open>gameState.bots\<close>.\<close>

record botAI =
  botTank :: ident
  targetId :: "ident option"
  lastDecision :: int
  botState :: bot_state

record scoreboard_row =
  row_id :: ident
  row_name :: string
  row_score :: int
  row_kills :: nat
  row_deaths :: nat
  row_isBot :: bool

subsection \<open>Messages\<close>

datatype json =
  JNull | JBool bool | JNum real | JStr string | JArr "json list" | JObj "(string \<times> json) list"

datatype recipient = Everyone | Connection nat

subsection \<open>Connections\<close>

text \<open>
  One record per WebSocket: the variables \<^verbatim>\<open>playerId\<close> and \<^verbatim>\<open>isAdmin\<close> of the connection
  handler's closure, the address read at connection time, and the properties the
  handlers set on the socket object.
\<close>

record connection =
  conn :: nat
  remoteAddress :: string
  playerId :: "ident option"
  isAdmin :: bool
  isAlive :: bool
  lastPong :: int
  isSpectator :: bool
  isESP32 :: bool
  ws_playerId :: "ident option"
  ws_clientIP :: "string option"
  closing :: bool

section \<open>The world\<close>

text \<open>
  \<^verbatim>\<open>gameState\<close> and the environment of the process. The map \<^verbatim>\<open>gameState.tanks\<close> is the
  list of its values in insertion order: every tank is stored under its own \<^verbatim>\<open>id\<close>, so
  the key of an entry is \<^term>\<open>tankId\<close> of the value; \<^verbatim>\<open>gameState.bots\<close> likewise.
  \<^verbatim>\<open>Math.random()\<close>, \<^verbatim>\<open>uuidv4()\<close> and \<^verbatim>\<open>Date.now()\<close> read the next value of a sequence that
  the environment fixes and of which nothing is assumed. \<open>timers\<close> are the callbacks
  registered with \<^verbatim>\<open>setTimeout\<close>, each with the identifier of its tank; \<open>sent\<close> are the
  messages sent, oldest first; \<open>clients\<close> is \<^verbatim>\<open>wss.clients\<close>, and \<open>conn_next\<close> numbers the
  sockets in the order in which they connect.
\<close>

record world =
  tanks :: "tank list"
  bullets :: "bullet list"
  obstacles :: "obstacle list"
  world_powerups :: "powerup list"
  scoreboard :: "scoreboard_row list"
  bannedIPs :: "string option set"
  bots :: "botAI list"
  clients :: "connection list"
  rng :: "nat \<Rightarrow> real"
  rng_next :: nat
  uuid_gen :: "nat \<Rightarrow> ident"
  uuid_next :: nat
  clock :: "nat \<Rightarrow> int"
  clock_next :: nat
  timers :: "(ident \<times> timer) list"
  sent :: "(recipient \<times> json) list"
  conn_next :: nat

definition Math_random :: "world \<Rightarrow> real \<times> world" where
  "Math_random w = (rng w (rng_next w), w\<lparr>rng_next := Suc (rng_next w)\<rparr>)"

definition uuidv4 :: "world \<Rightarrow> ident \<times> world" where
  "uuidv4 w = (uuid_gen w (uuid_next w), w\<lparr>uuid_next := Suc (uuid_next w)\<rparr>)"

definition Date_now :: "world \<Rightarrow> int \<times> world" where
  "Date_now w = (clock w (clock_next w), w\<lparr>clock_next := Suc (clock_next w)\<rparr>)"

definition setTimeout :: "ident \<Rightarrow> timer \<Rightarrow> world \<Rightarrow> world" where
  "setTimeout k tm w = w\<lparr>timers := timers w @ [(k, tm)]\<rparr>"

definition broadcast :: "json \<Rightarrow> world \<Rightarrow> world" where
  "broadcast data w = w\<lparr>sent := sent w @ [(Everyone, data)]\<rparr>"

definition sendTo :: "nat \<Rightarrow> json \<Rightarrow> world \<Rightarrow> world" where
  "sendTo c data w = w\<lparr>sent := sent w @ [(Connection c, data)]\<rparr>"

subsection \<open>Access to the tanks\<close>

fun first_index :: "('a \<Rightarrow> bool) \<Rightarrow> 'a list \<Rightarrow> nat option" where
  "first_index P [] = None"
| "first_index P (v # vs) = (if P v then Some 0 else map_option Suc (first_index P vs))"

definition tank_index :: "ident \<Rightarrow> world \<Rightarrow> nat option" where
  "tank_index k w = first_index (\<lambda>t. tankId t = k) (tanks w)"

definition tanks_get :: "ident \<Rightarrow> world \<Rightarrow> tank option" where
  "tanks_get k w = find (\<lambda>t. tankId t = k) (tanks w)"

text \<open>A mutation of the tank object that is the \<open>i\<close>-th value of the map.\<close>

definition modify_tank :: "nat \<Rightarrow> (tank \<Rightarrow> tank) \<Rightarrow> world \<Rightarrow> world" where
  "modify_tank i f w = w\<lparr>tanks := (tanks w)[i := f (tanks w ! i)]\<rparr>"

text \<open>\<^verbatim>\<open>gameState.tanks.set(id, tank)\<close>: a new key is appended, an existing one keeps its place.\<close>

definition tanks_set :: "tank \<Rightarrow> world \<Rightarrow> world" where
  "tanks_set t w =
     (case tank_index (tankId t) w of
        None \<Rightarrow> w\<lparr>tanks := tanks w @ [t]\<rparr>
      | Some i \<Rightarrow> w\<lparr>tanks := (tanks w)[i := t]\<rparr>)"

definition tanks_delete :: "ident \<Rightarrow> world \<Rightarrow> world" where
  "tanks_delete k w = w\<lparr>tanks := filter (\<lambda>t. tankId t \<noteq> k) (tanks w)\<rparr>"

section \<open>Serialisation\<close>

text \<open>
  The objects handed to \<^verbatim>\<open>JSON.stringify\<close>. The keys \<^verbatim>\<open>color\<close>, \<^verbatim>\<open>effect\<close> and \<^verbatim>\<open>icon\<close> of
  the two type tables are presentation only and are left out of the nested \<^verbatim>\<open>config\<close>
  objects; the keys of \<^verbatim>\<open>powerups\<close> are listed in the order of the table.
\<close>

definition msg :: "string \<Rightarrow> (string \<times> json) list \<Rightarrow> json" where
  "msg ty kvs = JObj ((''type'', JStr ty) # kvs)"

fun powerup_type_name :: "powerup_type \<Rightarrow> string" where
  "powerup_type_name SPEED = ''SPEED''"
| "powerup_type_name POWER = ''POWER''"
| "powerup_type_name HEALTH = ''HEALTH''"
| "powerup_type_name RANGE = ''RANGE''"
| "powerup_type_name INVINCIBILITY = ''INVINCIBILITY''"
| "powerup_type_name MYSTERY = ''MYSTERY''"

fun obstacle_type_name :: "obstacle_type \<Rightarrow> string" where
  "obstacle_type_name TREE = ''TREE''"
| "obstacle_type_name WALL = ''WALL''"
| "obstacle_type_name BARREL = ''BARREL''"
| "obstacle_type_name CRATE = ''CRATE''"

definition activePowerups :: "int \<Rightarrow> tank \<Rightarrow> (string \<times> json) list" where
  "activePowerups now t =
     concat (map (\<lambda>T.
        case powerups t T of
          None \<Rightarrow> []
        | Some e \<Rightarrow>
            if expiresAt e = 0 \<or> now < expiresAt e
            then [(powerup_type_name T,
                   JObj [(''stacks'', JNum (real (stacks e))),
                         (''expiresAt'', JNum (real_of_int (expiresAt e))),
                         (''maxStacks'', JNum (real (if maxStacks (POWERUP_TYPES T) = 0 then 1
                                                     else maxStacks (POWERUP_TYPES T))))])]
            else [])
       [SPEED, POWER, HEALTH, RANGE, INVINCIBILITY, MYSTERY])"

definition toJSON :: "int \<Rightarrow> tank \<Rightarrow> json" where
  "toJSON now t =
     JObj [(''id'', JStr (tankId t)), (''name'', JStr (name t)),
           (''primaryColor'', JStr (primaryColor t)),
           (''secondaryColor'', JStr (secondaryColor t)),
           (''avatarUrl'', JStr (avatarUrl t)),
           (''x'', JNum (x t)), (''y'', JNum (y t)), (''angle'', JNum (angle t)),
           (''hp'', JNum (hp t)), (''maxHp'', JNum (maxHp t)),
           (''score'', JNum (real_of_int (score t))), (''kills'', JNum (real (kills t))),
           (''deaths'', JNum (real (deaths t))), (''isBot'', JBool (isBot t)),
           (''spawnProtection'', JBool (spawnProtection t)),
           (''invincible'', JBool (invincible t)),
           (''invincibilityEnd'',
              JNum (case invincibilityEnd t of None \<Rightarrow> 0 | Some e \<Rightarrow> real_of_int e)),
           (''powerups'', JObj (activePowerups now t))]"

definition bullet_json :: "bullet \<Rightarrow> json" where
  "bullet_json b =
     JObj [(''id'', JStr (bulletId b)), (''ownerId'', JStr (ownerId b)),
           (''x'', JNum (x b)), (''y'', JNum (y b)),
           (''startX'', JNum (startX b)), (''startY'', JNum (startY b)),
           (''angle'', JNum (bulletAngle b)), (''damage'', JNum (bulletDamage b)),
           (''range'', JNum (bulletRange b)), (''speed'', JNum (bulletSpeed b))]"

definition obstacle_config_json :: "obstacle_type \<Rightarrow> json" where
  "obstacle_config_json T =
     (let c = OBSTACLE_TYPES T in
      JObj ([(''hp'', JNum (config_hp c)), (''destructible'', JBool (destructible c))]
            @ (if T = BARREL
               then [(''explosive'', JBool True), (''explosionRadius'', JNum (explosionRadius c)),
                     (''explosionDamage'', JNum (explosionDamage c))]
               else [])
            @ (if T = CRATE then [(''containsPowerup'', JBool True)] else [])
            @ [(''points'', JNum (real_of_int (points c)))]))"

definition obstacle_json :: "obstacle \<Rightarrow> json" where
  "obstacle_json ob =
     JObj [(''id'', JStr (obstacleId ob)),
           (''type'', JStr (obstacle_type_name (obstacleType ob))),
           (''x'', JNum (x ob)), (''y'', JNum (y ob)),
           (''hp'', JNum (obstacleHp ob)), (''maxHp'', JNum (obstacleMaxHp ob)),
           (''size'', JNum (obstacleSize ob)),
           (''config'', obstacle_config_json (obstacleType ob))]"

definition powerup_config_json :: "powerup_type \<Rightarrow> json" where
  "powerup_config_json T =
     (let c = POWERUP_TYPES T in
      JObj ((if T \<in> {SPEED, POWER, RANGE} then [(''multiplier'', JNum (multiplier c))] else [])
            @ (if T = HEALTH then [(''amount'', JNum (amount c))] else [])
            @ [(''duration'', JNum (real_of_int (duration c))),
               (''maxStacks'', JNum (real (maxStacks c)))]
            @ (if T = MYSTERY
               then [(''explodeChance'', JNum MYSTERY_explodeChance),
                     (''explosionRadius'', JNum MYSTERY_explosionRadius),
                     (''explosionDamage'', JNum MYSTERY_explosionDamage)]
               else [])))"

definition powerup_json :: "powerup \<Rightarrow> json" where
  "powerup_json p =
     JObj [(''id'', JStr (powerupId p)),
           (''type'', JStr (powerup_type_name (powerupType p))),
           (''x'', JNum (x p)), (''y'', JNum (y p)),
           (''config'', powerup_config_json (powerupType p)),
           (''size'', JNum (powerupSize p))]"

definition row_json :: "scoreboard_row \<Rightarrow> json" where
  "row_json r =
     JObj [(''id'', JStr (row_id r)), (''name'', JStr (row_name r)),
           (''score'', JNum (real_of_int (row_score r))),
           (''kills'', JNum (real (row_kills r))),
           (''deaths'', JNum (real (row_deaths r))), (''isBot'', JBool (row_isBot r))]"

section \<open>Scoreboard\<close>

definition scoreboard_row_of :: "tank \<Rightarrow> scoreboard_row" where
  "scoreboard_row_of t =
     \<lparr>row_id = tankId t, row_name = name t, row_score = score t, row_kills = kills t,
      row_deaths = deaths t, row_isBot = isBot t\<rparr>"

text \<open>
  \<^verbatim>\<open>.sort((a, b) => b.score - a.score)\<close>: the sort of the language is stable, so the result
  is the stable sort by descending score, which \<^const>\<open>sort_key\<close> on the negated score is.
\<close>

definition updateScoreboard :: "world \<Rightarrow> world" where
  "updateScoreboard w =
     (let rows = sort_key (\<lambda>r. - row_score r) (map scoreboard_row_of (tanks w));
          w1 = w\<lparr>scoreboard := rows\<rparr>
      in broadcast (msg ''scoreboardUpdate'' [(''scoreboard'', JArr (map row_json rows))]) w1)"

section \<open>Spawning\<close>

definition randomPosition :: "world \<Rightarrow> point \<times> world" where
  "randomPosition w =
     (let (r1, w1) = Math_random w;
          (r2, w2) = Math_random w1
      in (\<lparr>x = r1 * (MAP_WIDTH - 100) + 50, y = r2 * (MAP_HEIGHT - 100) + 50\<rparr>, w2))"

definition isSafe :: "point \<Rightarrow> world \<Rightarrow> bool" where
  "isSafe pos w =
     (\<not> list_ex (\<lambda>t. distance pos t < TANK_SIZE * 3) (tanks w)
      \<and> \<not> list_ex (\<lambda>ob. distance pos ob < TANK_SIZE * 2) (obstacles w))"

text \<open>The \<^verbatim>\<open>do ... while (attempts < 50)\<close> loop, entered with \<open>attempts\<close> tries made.\<close>

function findSafeSpawnPosition_loop :: "nat \<Rightarrow> world \<Rightarrow> point \<times> world" where
  "findSafeSpawnPosition_loop attempts w =
     (let (pos, w1) = randomPosition w;
          attempts1 = Suc attempts
      in if isSafe pos w1 then (pos, w1)
         else if attempts1 < 50 then findSafeSpawnPosition_loop attempts1 w1
         else (pos, w1))"
  by pat_completeness auto
termination
  by (relation "measure (\<lambda>(attempts, w). 50 - attempts)") auto

declare findSafeSpawnPosition_loop.simps [simp del]

definition findSafeSpawnPosition :: "world \<Rightarrow> point \<times> world" where
  "findSafeSpawnPosition w = findSafeSpawnPosition_loop 0 w"

definition randomBrightColor :: "world \<Rightarrow> string \<times> world" where
  "randomBrightColor w = (let (r, w1) = Math_random w in (pick brightColors r, w1))"

definition validateTankColor :: "string option \<Rightarrow> world \<Rightarrow> string \<times> world" where
  "validateTankColor color w =
     (case color of
        None \<Rightarrow> randomBrightColor w
      | Some c \<Rightarrow>
          if c = [] then randomBrightColor w
          else if getColorBrightness c < 60 then randomBrightColor w
          else (c, w))"

text \<open>
  The constructor of \<^verbatim>\<open>Tank\<close>. The new object is returned, not yet stored in the map; its
  spawn-protection timer is registered under its identifier.
\<close>

definition new_Tank ::
    "ident \<Rightarrow> string option \<Rightarrow> string option \<Rightarrow> string option \<Rightarrow> string option \<Rightarrow> bool
      \<Rightarrow> world \<Rightarrow> tank \<times> world" where
  "new_Tank k nm primary secondary avatar is_bot w =
     (let (spawnPos, w1) = findSafeSpawnPosition w;
          (pc, w2) = validateTankColor primary w1;
          (sc, w3) = validateTankColor secondary w2;
          (r, w4) = Math_random w3;
          t = \<lparr>x = x spawnPos, y = y spawnPos,
               tankId = k,
               name = sanitizeTankName nm,
               primaryColor = (if pc = [] then ''#4CAF50'' else pc),
               secondaryColor = (if sc = [] then ''#2E7D32'' else sc),
               avatarUrl = (case avatar of None \<Rightarrow> [] | Some a \<Rightarrow> a),
               angle = r * pi * 2,
               hp = BASE_HEALTH, maxHp = BASE_HEALTH,
               speed = BASE_TANK_SPEED, damage = BASE_DAMAGE,
               fireRange = BASE_FIRE_RANGE, fireRate = BASE_FIRE_RATE,
               lastFire = 0, score = 0, kills = 0, deaths = 0,
               isBot = is_bot, spawnProtection = True, invincible = False,
               invincibilityEnd = None,
               powerups = (\<lambda>_. None),
               moving = \<lparr>up = False, down = False, left = False, right = False\<rparr>,
               deviceId = None, ws = None\<rparr>
      in (t, setTimeout k spawnProtection_timer w4))"

text \<open>\<^verbatim>\<open>tank.respawn()\<close>: the assignments to the tank, given the position found and the
  random number drawn for the angle; then the method on the \<open>i\<close>-th tank of the map.\<close>

definition respawn_at :: "point \<Rightarrow> real \<Rightarrow> tank \<Rightarrow> tank" where
  "respawn_at spawnPos r t =
     (resetPowerups (t\<lparr>x := x spawnPos, y := y spawnPos, hp := BASE_HEALTH,
                       angle := r * pi * 2\<rparr>))
       \<lparr>spawnProtection := True, deaths := deaths t + 1\<rparr>"

definition respawn :: "nat \<Rightarrow> world \<Rightarrow> world" where
  "respawn i w =
     (let (spawnPos, w1) = findSafeSpawnPosition w;
          (r, w2) = Math_random w1;
          w3 = modify_tank i (respawn_at spawnPos r) w2
      in setTimeout (tankId (tanks w3 ! i)) spawnProtection_timer w3)"

text \<open>\<^verbatim>\<open>tank.applyPowerup(type)\<close> on the \<open>i\<close>-th tank: the HEALTH branch returns before the
  clock is read.\<close>

definition tank_applyPowerup :: "nat \<Rightarrow> powerup_type \<Rightarrow> world \<Rightarrow> world" where
  "tank_applyPowerup i type w =
     (if type = HEALTH then modify_tank i (\<lambda>t. fst (applyPowerup 0 HEALTH t)) w
      else
        let (now, w1) = Date_now w;
            (t1, registered) = applyPowerup now type (tanks w1 ! i);
            w2 = modify_tank i (\<lambda>_. t1) w1
        in fold (setTimeout (tankId t1)) registered w2)"

definition new_Obstacle :: "obstacle_type \<Rightarrow> world \<Rightarrow> obstacle \<times> world" where
  "new_Obstacle type w =
     (let (pos, w1) = randomPosition w;
          (k, w2) = uuidv4 w1
      in (\<lparr>x = x pos, y = y pos, obstacleId = k, obstacleType = type,
           obstacleHp = config_hp (OBSTACLE_TYPES type),
           obstacleMaxHp = config_hp (OBSTACLE_TYPES type),
           obstacleSize = (if type = WALL then 60 else 40)\<rparr>, w2))"

definition spawnObstacle :: "world \<Rightarrow> world" where
  "spawnObstacle w =
     (if length (obstacles w) \<ge> MAX_OBSTACLES then w
      else
        let (r, w1) = Math_random w;
            type = pick [TREE, WALL, BARREL, CRATE] r;
            (obstacle, w2) = new_Obstacle type w1;
            collides = list_ex (\<lambda>t. distance obstacle t < TANK_SIZE * 2) (tanks w2)
        in if \<not> collides
           then broadcast (msg ''obstacleSpawn'' [(''obstacle'', obstacle_json obstacle)])
                  (w2\<lparr>obstacles := obstacles w2 @ [obstacle]\<rparr>)
           else w2)"

text \<open>\<^verbatim>\<open>v || randomPosition().x\<close>: an argument that is missing or 0 is falsy.\<close>

definition coordinate_or ::
    "real option \<Rightarrow> (point \<Rightarrow> real) \<Rightarrow> world \<Rightarrow> real \<times> world" where
  "coordinate_or v sel w =
     (case v of
        Some c \<Rightarrow> if c \<noteq> 0 then (c, w) else (let (pos, w1) = randomPosition w in (sel pos, w1))
      | None \<Rightarrow> (let (pos, w1) = randomPosition w in (sel pos, w1)))"

definition new_Powerup ::
    "powerup_type \<Rightarrow> real option \<Rightarrow> real option \<Rightarrow> world \<Rightarrow> powerup \<times> world" where
  "new_Powerup type px py w =
     (let (k, w1) = uuidv4 w;
          (cx, w2) = coordinate_or px x w1;
          (cy, w3) = coordinate_or py y w2
      in (\<lparr>x = cx, y = cy, powerupId = k, powerupType = type, powerupSize = 25\<rparr>, w3))"

definition spawnPowerup :: "real option \<Rightarrow> real option \<Rightarrow> world \<Rightarrow> world" where
  "spawnPowerup px py w =
     (if length (world_powerups w) \<ge> MAX_POWERUPS then w
      else
        let (r, w1) = Math_random w;
            type = pick [SPEED, POWER, HEALTH, RANGE, INVINCIBILITY, MYSTERY] r;
            (powerup, w2) = new_Powerup type px py w1
        in broadcast (msg ''powerupSpawn'' [(''powerup'', powerup_json powerup)])
             (w2\<lparr>world_powerups := world_powerups w2 @ [powerup]\<rparr>))"

section \<open>Explosions\<close>

text \<open>The body of the \<^verbatim>\<open>forEach\<close> of \<^verbatim>\<open>createExplosion\<close>, on the \<open>i\<close>-th tank.\<close>

definition explode_tank :: "real \<Rightarrow> real \<Rightarrow> real \<Rightarrow> real \<Rightarrow> nat \<Rightarrow> world \<Rightarrow> world" where
  "explode_tank ex ey radius dmg i w =
     (let tank = tanks w ! i in
      if spawnProtection tank \<or> invincible tank then w
      else
        let dist = distance \<lparr>x = ex, y = ey\<rparr> tank in
        if dist < radius
        then
          let actualDamage = fmul dmg (fsub 1 (fdiv dist radius));
              w1 = modify_tank i (\<lambda>t. t\<lparr>hp := fsub (hp t) actualDamage\<rparr>) w
          in if hp (tanks w1 ! i) \<le> 0
             then
               let w2 = respawn i w1
               in broadcast (msg ''tankDeath''
                              [(''tankId'', JStr (tankId (tanks w2 ! i))), (''killer'', JNull)]) w2
             else w1
        else w)"

definition createExplosion :: "real \<Rightarrow> real \<Rightarrow> real \<Rightarrow> real \<Rightarrow> world \<Rightarrow> world" where
  "createExplosion ex ey radius dmg w =
     broadcast (msg ''explosion'' [(''x'', JNum ex), (''y'', JNum ey), (''radius'', JNum radius)])
       (fold (explode_tank ex ey radius dmg) [0..<length (tanks w)] w)"

section \<open>Bullets\<close>

definition new_Bullet ::
    "ident \<Rightarrow> real \<Rightarrow> real \<Rightarrow> real \<Rightarrow> real \<Rightarrow> real \<Rightarrow> world \<Rightarrow> bullet \<times> world" where
  "new_Bullet owner bx by ang dmg reach w =
     (let (k, w1) = uuidv4 w
      in (\<lparr>x = bx, y = by, bulletId = k, ownerId = owner, startX = bx, startY = by,
           bulletAngle = ang, bulletDamage = dmg, bulletRange = reach,
           bulletSpeed = BULLET_SPEED\<rparr>, w1))"

definition bullet_update :: "bullet \<Rightarrow> bullet" where
  "bullet_update b =
     b\<lparr>x := x b + cos (bulletAngle b) * bulletSpeed b,
       y := y b + sin (bulletAngle b) * bulletSpeed b\<rparr>"

definition isOutOfRange :: "bullet \<Rightarrow> bool" where
  "isOutOfRange b = (distance b \<lparr>x = startX b, y = startY b\<rparr> > bulletRange b)"

definition isOutOfBounds :: "bullet \<Rightarrow> bool" where
  "isOutOfBounds b = (x b < 0 \<or> x b > MAP_WIDTH \<or> y b < 0 \<or> y b > MAP_HEIGHT)"

text \<open>\<^verbatim>\<open>fireBullet(tank)\<close> for the \<open>i\<close>-th tank; \<^term>\<open>None\<close> is the \<^verbatim>\<open>null\<close> of a shot refused by
  the fire rate.\<close>

definition fireBullet :: "nat \<Rightarrow> world \<Rightarrow> bullet option \<times> world" where
  "fireBullet i w =
     (let (now, w1) = Date_now w in
      if now - lastFire (tanks w1 ! i) < fireRate (tanks w1 ! i) then (None, w1)
      else
        let w2 = modify_tank i (\<lambda>t. t\<lparr>lastFire := now\<rparr>) w1;
            (now2, w3) = Date_now w2;
            (stats, t1) = getEffectiveStats now2 (tanks w3 ! i);
            w4 = modify_tank i (\<lambda>_. t1) w3;
            (b, w5) = new_Bullet (tankId t1)
                        (x t1 + cos (angle t1) * (TANK_SIZE / 2 + 5))
                        (y t1 + sin (angle t1) * (TANK_SIZE / 2 + 5))
                        (angle t1) (stat_damage stats) (stat_range stats) w4
        in (Some b, w5\<lparr>bullets := bullets w5 @ [b]\<rparr>))"

section \<open>The tick: updateGame\<close>

subsection \<open>Tanks\<close>

text \<open>The scan of the obstacles at the candidate position: whether the tank can move,
  and the index of the last barrel touched.\<close>

definition scan_obstacle ::
    "point \<Rightarrow> obstacle list \<Rightarrow> nat \<Rightarrow> bool \<times> nat option \<Rightarrow> bool \<times> nat option" where
  "scan_obstacle pos obs j st =
     (if distance pos (obs ! j) < (TANK_SIZE + obstacleSize (obs ! j)) / 2
      then (if obstacleType (obs ! j) = BARREL then (fst st, Some j) else (False, snd st))
      else st)"

text \<open>\<^verbatim>\<open>array.splice(j, 1)\<close>.\<close>

definition splice1 :: "nat \<Rightarrow> 'a list \<Rightarrow> 'a list" where
  "splice1 j xs = take j xs @ drop (Suc j) xs"

definition realPowerups :: "powerup_type list" where
  "realPowerups = [SPEED, POWER, HEALTH, RANGE, INVINCIBILITY]"

text \<open>The callback of the \<^verbatim>\<open>filter\<close> over the pickups, for the \<open>i\<close>-th tank: the state is the
  pickups kept so far and the world.\<close>

definition collect_powerup :: "nat \<Rightarrow> powerup \<Rightarrow> powerup list \<times> world \<Rightarrow> powerup list \<times> world" where
  "collect_powerup i p st =
     (let kept = fst st; w = snd st; tank = tanks w ! i in
      if distance tank p < (TANK_SIZE + powerupSize p) / 2
      then
        (if powerupType p = MYSTERY
         then
           let (r, w1) = Math_random w in
           if r < MYSTERY_explodeChance
           then
             let w2 = broadcast (msg ''mysteryExplode''
                        [(''tankId'', JStr (tankId tank)), (''x'', JNum (x p)), (''y'', JNum (y p)),
                         (''radius'', JNum MYSTERY_explosionRadius)]) w1
             in (kept, createExplosion (x p) (y p) MYSTERY_explosionRadius
                         MYSTERY_explosionDamage w2)
           else
             let (r2, w2) = Math_random w1;
                 randomType = pick realPowerups r2;
                 w3 = tank_applyPowerup i randomType w2
             in (kept, broadcast (msg ''powerupCollect''
                        [(''tankId'', JStr (tankId tank)),
                         (''powerupType'', JStr (powerup_type_name randomType)),
                         (''x'', JNum (x p)), (''y'', JNum (y p)),
                         (''wasMystery'', JBool True)]) w3)
         else
           let w1 = tank_applyPowerup i (powerupType p) w
           in (kept, broadcast (msg ''powerupCollect''
                      [(''tankId'', JStr (tankId tank)),
                       (''powerupType'', JStr (powerup_type_name (powerupType p))),
                       (''x'', JNum (x p)), (''y'', JNum (y p))]) w1))
      else (kept @ [p], w))"

definition collect_powerups :: "nat \<Rightarrow> world \<Rightarrow> world" where
  "collect_powerups i w =
     (let (kept, w1) = fold (collect_powerup i) (world_powerups w) ([], w)
      in w1\<lparr>world_powerups := kept\<rparr>)"

text \<open>
  The callback of \<^verbatim>\<open>gameState.tanks.forEach\<close> in \<^verbatim>\<open>updateGame\<close>, on the \<open>i\<close>-th tank. The barrel
  found by the scan is an element of the array, so \<^verbatim>\<open>indexOf\<close> returns its index \<open>j\<close>.
\<close>

definition update_tank :: "nat \<Rightarrow> world \<Rightarrow> world" where
  "update_tank i w =
     (let (now, w1) = Date_now w;
          (stats, t1) = getEffectiveStats now (tanks w1 ! i);
          w2 = modify_tank i (\<lambda>_. t1) w1;
          dx0 = (if up (moving t1) then 0 + cos (angle t1) * stat_speed stats else 0);
          dy0 = (if up (moving t1) then 0 + sin (angle t1) * stat_speed stats else 0);
          dx = (if down (moving t1) then dx0 - cos (angle t1) * stat_speed stats else dx0);
          dy = (if down (moving t1) then dy0 - sin (angle t1) * stat_speed stats else dy0);
          w3 = (if left (moving t1) then modify_tank i (\<lambda>t. t\<lparr>angle := angle t - 5 / 100\<rparr>) w2
                else w2);
          w4 = (if right (moving t1) then modify_tank i (\<lambda>t. t\<lparr>angle := angle t + 5 / 100\<rparr>) w3
                else w3);
          newX = max (TANK_SIZE / 2) (min (MAP_WIDTH - TANK_SIZE / 2) (x t1 + dx));
          newY = max (TANK_SIZE / 2) (min (MAP_HEIGHT - TANK_SIZE / 2) (y t1 + dy));
          (canMove, barrelToExplode) =
             fold (scan_obstacle \<lparr>x = newX, y = newY\<rparr> (obstacles w4))
               [0..<length (obstacles w4)] (True, None);
          (respawned, w5) =
             (case barrelToExplode of
                None \<Rightarrow> (False, w4)
              | Some j \<Rightarrow>
                  let barrel = obstacles w4 ! j;
                      w4a = w4\<lparr>obstacles := splice1 j (obstacles w4)\<rparr>;
                      posBeforeExplosion = \<lparr>x = x (tanks w4a ! i), y = y (tanks w4a ! i)\<rparr>;
                      w4b = createExplosion (x barrel) (y barrel)
                              (explosionRadius (OBSTACLE_TYPES (obstacleType barrel)))
                              (explosionDamage (OBSTACLE_TYPES (obstacleType barrel))) w4a;
                      w4c = broadcast (msg ''obstacleDestroyed''
                              [(''obstacleId'', JStr (obstacleId barrel))]) w4b
                  in (x (tanks w4c ! i) \<noteq> x posBeforeExplosion
                        \<or> y (tanks w4c ! i) \<noteq> y posBeforeExplosion, w4c))
      in if respawned then w5
         else
           let w6 = (if canMove then modify_tank i (\<lambda>t. t\<lparr>x := newX, y := newY\<rparr>) w5 else w5)
           in collect_powerups i w6)"

subsection \<open>Bullets\<close>

text \<open>The callback of the \<^verbatim>\<open>forEach\<close> over the tanks for one bullet: the state is the flag
  \<^verbatim>\<open>hitTank\<close> and the world.\<close>

definition bullet_hit_tank :: "bullet \<Rightarrow> nat \<Rightarrow> bool \<times> world \<Rightarrow> bool \<times> world" where
  "bullet_hit_tank b i st =
     (let hitTank = fst st; w = snd st; tank = tanks w ! i in
      if tankId tank = ownerId b then (hitTank, w)
      else if spawnProtection tank \<or> invincible tank then (hitTank, w)
      else if checkCollision b tank BULLET_SIZE TANK_SIZE
      then
        let w1 = modify_tank i (\<lambda>t. t\<lparr>hp := fsub (hp t) (bulletDamage b)\<rparr>) w
        in if hp (tanks w1 ! i) \<le> 0
           then
             let w2 = (case tank_index (ownerId b) w1 of
                         None \<Rightarrow> w1
                       | Some a \<Rightarrow>
                           let pts = (if isBot (tanks w1 ! i) then 50 else 100)
                           in updateScoreboard
                                (modify_tank a
                                   (\<lambda>t. t\<lparr>score := score t + pts, kills := kills t + 1\<rparr>) w1));
                 w3 = respawn i w2
             in (True, broadcast (msg ''tankDeath''
                         [(''tankId'', JStr (tankId (tanks w3 ! i))),
                          (''killerId'', JStr (ownerId b)),
                          (''wasBot'', JBool (isBot (tanks w3 ! i)))]) w3)
           else (True, w1)
      else (hitTank, w))"

text \<open>The obstacle loop runs from the last index down and returns at the first hit.\<close>

definition hit_obstacle_index :: "bullet \<Rightarrow> obstacle list \<Rightarrow> nat option" where
  "hit_obstacle_index b obs =
     (case filter (\<lambda>j. checkCollision b (obs ! j) BULLET_SIZE (obstacleSize (obs ! j)))
             (rev [0..<length obs]) of
        [] \<Rightarrow> None
      | j # _ \<Rightarrow> Some j)"

definition bullet_hit_obstacle :: "bullet \<Rightarrow> nat \<Rightarrow> world \<Rightarrow> world" where
  "bullet_hit_obstacle b j w =
     (let w1 = w\<lparr>obstacles := (obstacles w)
                  [j := (obstacles w ! j)\<lparr>obstacleHp :=
                          fsub (obstacleHp (obstacles w ! j)) (bulletDamage b)\<rparr>]\<rparr>;
          obs = obstacles w1 ! j;
          destroyed = (obstacleHp obs \<le> 0)
      in if destroyed
         then
           let w2 = (case tank_index (ownerId b) w1 of
                       None \<Rightarrow> w1
                     | Some a \<Rightarrow>
                         updateScoreboard
                           (modify_tank a
                              (\<lambda>t. t\<lparr>score := score t + points (OBSTACLE_TYPES (obstacleType obs))\<rparr>) w1));
               w3 = (if explosive (OBSTACLE_TYPES (obstacleType obs))
                     then createExplosion (x obs) (y obs)
                            (explosionRadius (OBSTACLE_TYPES (obstacleType obs)))
                            (explosionDamage (OBSTACLE_TYPES (obstacleType obs))) w2
                     else w2);
               w4 = (if containsPowerup (OBSTACLE_TYPES (obstacleType obs))
                     then
                       let (r, w3a) = Math_random w3
                       in if r < 7 / 10 then spawnPowerup (Some (x obs)) (Some (y obs)) w3a
                          else createExplosion (x obs) (y obs) 60 30 w3a
                     else w3);
               w5 = w4\<lparr>obstacles := splice1 j (obstacles w4)\<rparr>
           in broadcast (msg ''obstacleDestroyed'' [(''obstacleId'', JStr (obstacleId obs))]) w5
         else w1)"

text \<open>The callback of the \<^verbatim>\<open>filter\<close> over the bullets: the state is the bullets kept so far
  and the world.\<close>

definition update_bullet :: "bullet \<Rightarrow> bullet list \<times> world \<Rightarrow> bullet list \<times> world" where
  "update_bullet b0 st =
     (let kept = fst st; w = snd st; b = bullet_update b0 in
      if isOutOfBounds b \<or> isOutOfRange b then (kept, w)
      else
        let (hitTank, w1) = fold (bullet_hit_tank b) [0..<length (tanks w)] (False, w) in
        if hitTank then (kept, w1)
        else
          (case hit_obstacle_index b (obstacles w1) of
             Some j \<Rightarrow> (kept, bullet_hit_obstacle b j w1)
           | None \<Rightarrow> (kept @ [b], w1)))"

definition update_bullets :: "world \<Rightarrow> world" where
  "update_bullets w =
     (let (kept, w1) = fold update_bullet (bullets w) ([], w)
      in w1\<lparr>bullets := kept\<rparr>)"

subsection \<open>Bots\<close>

text \<open>The search for the nearest tank that is not a bot: \<^term>\<open>None\<close> is the initial
  \<^verbatim>\<open>null\<close> with distance \<^verbatim>\<open>Infinity\<close>.\<close>

definition nearer :: "tank \<Rightarrow> tank \<Rightarrow> (tank \<times> real) option \<Rightarrow> (tank \<times> real) option" where
  "nearer me tank best =
     (if isBot tank \<or> tankId tank = tankId me then best
      else
        let dist = distance me tank in
        (case best of
           None \<Rightarrow> Some (tank, dist)
         | Some (_, nearestDist) \<Rightarrow> if dist < nearestDist then Some (tank, dist) else best))"

definition set_bot_state :: "nat \<Rightarrow> bot_state \<Rightarrow> world \<Rightarrow> world" where
  "set_bot_state j s w = w\<lparr>bots := (bots w)[j := (bots w ! j)\<lparr>botState := s\<rparr>]\<rparr>"

definition bot_attack :: "nat \<Rightarrow> nat \<Rightarrow> tank \<Rightarrow> real \<Rightarrow> world \<Rightarrow> world" where
  "bot_attack j i nearestPlayer nearestDist w =
     (let w1 = set_bot_state j Attacking w;
          me = tanks w1 ! i;
          angleToPlayer = atan2 (y nearestPlayer - y me) (x nearestPlayer - x me);
          w2 = modify_tank i (\<lambda>t. t\<lparr>angle := angleToPlayer\<rparr>) w1;
          w3 = modify_tank i
                 (\<lambda>t. t\<lparr>moving := \<lparr>up = (nearestDist > 150), down = False, left = False,
                                     right = False\<rparr>\<rparr>) w2
      in if nearestDist < fireRange (tanks w3 ! i) then snd (fireBullet i w3) else w3)"

definition bot_roam :: "nat \<Rightarrow> nat \<Rightarrow> world \<Rightarrow> world" where
  "bot_roam j i w =
     (let w1 = set_bot_state j Roaming w;
          (r1, w2) = Math_random w1;
          w3 = (if r1 < 1 / 10
                then let (r2, w2a) = Math_random w2
                     in modify_tank i (\<lambda>t. t\<lparr>angle := angle t + (r2 - 5 / 10) * (5 / 10)\<rparr>) w2a
                else w2);
          (r3, w4) = Math_random w3;
          w5 = modify_tank i
                 (\<lambda>t. t\<lparr>moving := \<lparr>up = (r3 > 3 / 10), down = False, left = False,
                                     right = False\<rparr>\<rparr>) w4;
          (r4, w6) = Math_random w5
      in if r4 < 5 / 100 then snd (fireBullet i w6) else w6)"

definition bot_avoid :: "nat \<Rightarrow> world \<Rightarrow> world" where
  "bot_avoid i w =
     (let w1 = fold (\<lambda>obs w'. if distance (tanks w' ! i) obs < 80
                               then modify_tank i (\<lambda>t. t\<lparr>angle := angle t + pi / 4\<rparr>) w'
                               else w') (obstacles w) w;
          w2 = (if x (tanks w1 ! i) < 100 then modify_tank i (\<lambda>t. t\<lparr>angle := 0\<rparr>) w1 else w1);
          w3 = (if x (tanks w2 ! i) > MAP_WIDTH - 100
                then modify_tank i (\<lambda>t. t\<lparr>angle := pi\<rparr>) w2 else w2);
          w4 = (if y (tanks w3 ! i) < 100
                then modify_tank i (\<lambda>t. t\<lparr>angle := pi / 2\<rparr>) w3 else w3)
      in if y (tanks w4 ! i) > MAP_HEIGHT - 100
         then modify_tank i (\<lambda>t. t\<lparr>angle := - pi / 2\<rparr>) w4 else w4)"

text \<open>
  \<^verbatim>\<open>bot.update()\<close> for the \<open>j\<close>-th controller. A controller and its tank are stored and
  removed together, so the tank is in the map; were it not, the call would act on an
  object that nothing else reads, and the model leaves the world as it is.
\<close>

definition bot_update :: "nat \<Rightarrow> world \<Rightarrow> world" where
  "bot_update j w =
     (let (now, w1) = Date_now w in
      if now - lastDecision (bots w1 ! j) < BOT_REACTION_TIME then w1
      else
        let w2 = w1\<lparr>bots := (bots w1)[j := (bots w1 ! j)\<lparr>lastDecision := now\<rparr>]\<rparr> in
        (case tank_index (botTank (bots w2 ! j)) w2 of
           None \<Rightarrow> w2
         | Some i \<Rightarrow>
             let w3 = (case fold (nearer (tanks w2 ! i)) (tanks w2) None of
                         None \<Rightarrow> bot_roam j i w2
                       | Some (nearestPlayer, nearestDist) \<Rightarrow>
                           if nearestDist < 400 then bot_attack j i nearestPlayer nearestDist w2
                           else bot_roam j i w2)
             in bot_avoid i w3))"

subsection \<open>One tick\<close>

definition updateGame :: "world \<Rightarrow> world" where
  "updateGame w =
     (let w1 = fold update_tank [0..<length (tanks w)] w;
          w2 = update_bullets w1
      in fold bot_update [0..<length (bots w2)] w2)"

text \<open>A registered timer fires: the \<open>n\<close>-th pending callback runs on its tank and is
  removed from the pending ones.\<close>

definition fire_timer :: "nat \<Rightarrow> world \<Rightarrow> world" where
  "fire_timer n w =
     (if n < length (timers w)
      then
        let (k, tm) = timers w ! n;
            w1 = w\<lparr>timers := splice1 n (timers w)\<rparr>
        in (case tank_index k w1 of
              None \<Rightarrow> w1
            | Some i \<Rightarrow> modify_tank i (run_callback (callback tm)) w1)
      else w)"

section \<open>Connections and messages\<close>

record join_data =
  join_deviceId :: "string option"
  join_name :: "string option"
  join_primaryColor :: "string option"
  join_secondaryColor :: "string option"
  join_avatarUrl :: "string option"

text \<open>
  The inbound messages after \<^verbatim>\<open>JSON.parse\<close>, by their \<^verbatim>\<open>type\<close>. A field that is absent is
  \<^term>\<open>None\<close>; fields are of the type the clients send (strings, four booleans, a
  number). \<open>Ignored\<close> is a frame that does not parse or whose type no case handles.
\<close>

datatype client_message =
    Spectate
  | Join
  | Move moving_intent
  | Rotate real
  | Fire
  | AdminLogin "string option"
  | AdminKick "ident option"
  | AdminBan "ident option"
  | AdminSpawnBot "string option" "string option"
  | AdminRemoveBot "ident option"
  | AdminResetScoreboard
  | AdminGetPlayers
  | SimulatorJoin join_data "string option"
  | Esp32Join join_data
  | Ignored

definition client_index :: "nat \<Rightarrow> world \<Rightarrow> nat option" where
  "client_index c w = first_index (\<lambda>cl. conn cl = c) (clients w)"

definition modify_client :: "nat \<Rightarrow> (connection \<Rightarrow> connection) \<Rightarrow> world \<Rightarrow> world" where
  "modify_client c f w = w\<lparr>clients := map (\<lambda>cl. if conn cl = c then f cl else cl) (clients w)\<rparr>"

text \<open>\<^verbatim>\<open>sendTo(ws, data)\<close> sends only on a socket whose state is OPEN.\<close>

definition sendTo_open :: "nat \<Rightarrow> json \<Rightarrow> world \<Rightarrow> world" where
  "sendTo_open c data w =
     (case find (\<lambda>cl. conn cl = c) (clients w) of
        None \<Rightarrow> w
      | Some cl \<Rightarrow> if closing cl then w else sendTo c data w)"

definition ws_close :: "nat \<Rightarrow> world \<Rightarrow> world" where
  "ws_close c w = modify_client c (\<lambda>cl. cl\<lparr>closing := True\<rparr>) w"

definition CONFIG_json :: json where
  "CONFIG_json =
     JObj [(''MAP_WIDTH'', JNum MAP_WIDTH), (''MAP_HEIGHT'', JNum MAP_HEIGHT),
           (''TANK_SIZE'', JNum TANK_SIZE), (''BULLET_SPEED'', JNum BULLET_SPEED),
           (''BULLET_SIZE'', JNum BULLET_SIZE), (''BASE_TANK_SPEED'', JNum BASE_TANK_SPEED),
           (''BASE_FIRE_RATE'', JNum (real_of_int BASE_FIRE_RATE)),
           (''BASE_DAMAGE'', JNum BASE_DAMAGE), (''BASE_HEALTH'', JNum BASE_HEALTH),
           (''BASE_FIRE_RANGE'', JNum BASE_FIRE_RANGE),
           (''SPAWN_PROTECTION_TIME'', JNum (real_of_int SPAWN_PROTECTION_TIME)),
           (''OBSTACLE_SPAWN_INTERVAL'', JNum 5000), (''POWERUP_SPAWN_INTERVAL'', JNum 8000),
           (''MAX_OBSTACLES'', JNum (real MAX_OBSTACLES)),
           (''MAX_POWERUPS'', JNum (real MAX_POWERUPS)),
           (''ADMIN_PASSWORD'', JStr ADMIN_PASSWORD),
           (''BOT_REACTION_TIME'', JNum (real_of_int BOT_REACTION_TIME)),
           (''TICK_RATE'', JNum 60), (''HEARTBEAT_INTERVAL'', JNum 5000),
           (''HEARTBEAT_TIMEOUT'', JNum (real_of_int HEARTBEAT_TIMEOUT))]"

text \<open>\<^verbatim>\<open>tank.toJSON()\<close> reads the clock.\<close>

definition tank_toJSON :: "tank \<Rightarrow> world \<Rightarrow> json \<times> world" where
  "tank_toJSON t w = (let (now, w1) = Date_now w in (toJSON now t, w1))"

definition tanks_toJSON :: "world \<Rightarrow> json list \<times> world" where
  "tanks_toJSON w =
     fold (\<lambda>t (js, w'). let (j, w1) = tank_toJSON t w' in (js @ [j], w1)) (tanks w) ([], w)"

definition snapshot :: "world \<Rightarrow> json \<times> world" where
  "snapshot w =
     (let (ts, w1) = tanks_toJSON w
      in (JObj [(''tanks'', JArr ts),
                (''bullets'', JArr (map bullet_json (bullets w1))),
                (''obstacles'', JArr (map obstacle_json (obstacles w1))),
                (''powerups'', JArr (map powerup_json (world_powerups w1))),
                (''scoreboard'', JArr (map row_json (scoreboard w1)))], w1))"

subsection \<open>Joining\<close>

text \<open>The reattachment key: \<^verbatim>\<open>data.deviceId || sanitizeTankName(data.name)\<close>; an empty
  string is falsy.\<close>

definition device_identifier :: "join_data \<Rightarrow> ident" where
  "device_identifier d =
     (case join_deviceId d of
        Some k \<Rightarrow> if k \<noteq> [] then k else sanitizeTankName (join_name d)
      | None \<Rightarrow> sanitizeTankName (join_name d))"

text \<open>The search loop of both join handlers: the first entry of the map that carries the
  identifier and is not a bot.\<close>

definition existing_tank :: "ident \<Rightarrow> world \<Rightarrow> nat option" where
  "existing_tank d w = first_index (\<lambda>t. deviceId t = Some d \<and> \<not> isBot t) (tanks w)"

definition simulatorJoin :: "nat \<Rightarrow> join_data \<Rightarrow> string option \<Rightarrow> world \<Rightarrow> world" where
  "simulatorJoin c d adminPassword w =
     (if adminPassword \<noteq> Some ADMIN_PASSWORD
      then sendTo_open c (msg ''error''
             [(''message'', JStr ''Invalid admin password for simulator'')]) w
      else
        let simDeviceId = device_identifier d;
            address = (case find (\<lambda>cl. conn cl = c) (clients w) of
                         None \<Rightarrow> None | Some cl \<Rightarrow> Some (remoteAddress cl))
        in (case existing_tank simDeviceId w of
              Some i \<Rightarrow>
                let pid = tankId (tanks w ! i);
                    w1 = modify_client c (\<lambda>cl. cl\<lparr>playerId := Some pid\<rparr>) w;
                    w2 = modify_tank i (\<lambda>t. t\<lparr>ws := Some c\<rparr>) w1;
                    w3 = modify_client c
                           (\<lambda>cl. cl\<lparr>ws_playerId := Some pid, ws_clientIP := address\<rparr>) w2;
                    (tj, w4) = tank_toJSON (tanks w3 ! i) w3;
                    (gs, w5) = snapshot w4
                in sendTo_open c (msg ''joined''
                     [(''playerId'', JStr pid), (''tank'', tj), (''config'', CONFIG_json),
                      (''gameState'', gs)]) w5
            | None \<Rightarrow>
                let (pid, w1) = uuidv4 w;
                    w2 = modify_client c (\<lambda>cl. cl\<lparr>playerId := Some pid\<rparr>) w1;
                    (simTank, w3) = new_Tank pid (join_name d) (join_primaryColor d)
                                      (join_secondaryColor d) (join_avatarUrl d) False w2;
                    stored = simTank\<lparr>deviceId := Some simDeviceId, ws := Some c\<rparr>;
                    w4 = tanks_set stored w3;
                    w5 = modify_client c
                           (\<lambda>cl. cl\<lparr>ws_playerId := Some pid, ws_clientIP := address\<rparr>) w4;
                    (tj, w6) = tank_toJSON stored w5;
                    (gs, w7) = snapshot w6;
                    w8 = sendTo_open c (msg ''joined''
                           [(''playerId'', JStr pid), (''tank'', tj), (''config'', CONFIG_json),
                            (''gameState'', gs)]) w7;
                    (tj2, w9) = tank_toJSON stored w8
                in updateScoreboard (broadcast (msg ''playerJoined'' [(''tank'', tj2)]) w9)))"

definition esp32Join :: "nat \<Rightarrow> join_data \<Rightarrow> world \<Rightarrow> world" where
  "esp32Join c d w =
     (let dev = device_identifier d;
          address = (case find (\<lambda>cl. conn cl = c) (clients w) of
                       None \<Rightarrow> None | Some cl \<Rightarrow> Some (remoteAddress cl))
      in (case existing_tank dev w of
            Some i \<Rightarrow>
              let pid = tankId (tanks w ! i);
                  w1 = modify_client c (\<lambda>cl. cl\<lparr>playerId := Some pid\<rparr>) w;
                  w2 = modify_tank i (\<lambda>t. t\<lparr>ws := Some c\<rparr>) w1;
                  w3 = modify_client c
                         (\<lambda>cl. cl\<lparr>ws_playerId := Some pid, ws_clientIP := address,
                                 isESP32 := True\<rparr>) w2
              in sendTo_open c (msg ''joined'' [(''playerId'', JStr pid)]) w3
          | None \<Rightarrow>
              let (pid, w1) = uuidv4 w;
                  w2 = modify_client c (\<lambda>cl. cl\<lparr>playerId := Some pid\<rparr>) w1;
                  (espTank, w3) = new_Tank pid (join_name d) (join_primaryColor d)
                                    (join_secondaryColor d) (join_avatarUrl d) False w2;
                  stored = espTank\<lparr>deviceId := Some dev, ws := Some c\<rparr>;
                  w4 = tanks_set stored w3;
                  w5 = modify_client c
                         (\<lambda>cl. cl\<lparr>ws_playerId := Some pid, ws_clientIP := address,
                                 isESP32 := True\<rparr>) w4;
                  w6 = sendTo_open c (msg ''joined'' [(''playerId'', JStr pid)]) w5;
                  (tj, w7) = tank_toJSON stored w6
              in updateScoreboard (broadcast (msg ''playerJoined'' [(''tank'', tj)]) w7)))"

subsection \<open>The other messages\<close>

function show_nat :: "nat \<Rightarrow> string" where
  "show_nat n =
     (if n < 10 then [char_of (48 + n)] else show_nat (n div 10) @ [char_of (48 + n mod 10)])"
  by pat_completeness auto
termination
  by (relation "measure (\<lambda>n. n)") auto

declare show_nat.simps [simp del]

definition bots_set :: "botAI \<Rightarrow> world \<Rightarrow> world" where
  "bots_set b w =
     (case first_index (\<lambda>b'. botTank b' = botTank b) (bots w) of
        None \<Rightarrow> w\<lparr>bots := bots w @ [b]\<rparr>
      | Some j \<Rightarrow> w\<lparr>bots := (bots w)[j := b]\<rparr>)"

definition adminSpawnBot :: "string option \<Rightarrow> string option \<Rightarrow> world \<Rightarrow> world" where
  "adminSpawnBot primary secondary w =
     (let (botId, w1) = uuidv4 w;
          (r, w2) = Math_random w1;
          botName = ''Bot_'' @ show_nat (nat \<lfloor>r * 1000\<rfloor>);
          pc = (case primary of None \<Rightarrow> ''#FF5722'' | Some c \<Rightarrow> if c = [] then ''#FF5722'' else c);
          sc = (case secondary of None \<Rightarrow> ''#E64A19'' | Some c \<Rightarrow> if c = [] then ''#E64A19'' else c);
          (bt, w3) = new_Tank botId (Some botName) (Some pc) (Some sc) (Some []) True w2;
          w4 = tanks_set bt w3;
          w5 = bots_set \<lparr>botTank = botId, targetId = None, lastDecision = 0,
                         botState = Roaming\<rparr> w4;
          (tj, w6) = tank_toJSON bt w5
      in updateScoreboard (broadcast (msg ''playerJoined'' [(''tank'', tj)]) w6))"

definition adminRemoveBot :: "ident option \<Rightarrow> world \<Rightarrow> world" where
  "adminRemoveBot botId w =
     (case botId of
        None \<Rightarrow> w
      | Some k \<Rightarrow>
          (case tanks_get k w of
             None \<Rightarrow> w
           | Some bt \<Rightarrow>
               if isBot bt
               then
                 let w1 = tanks_delete k w;
                     w2 = w1\<lparr>bots := filter (\<lambda>b. botTank b \<noteq> k) (bots w1)\<rparr>
                 in updateScoreboard (broadcast (msg ''playerLeft'' [(''playerId'', JStr k)]) w2)
               else w))"

definition adminResetScoreboard :: "world \<Rightarrow> world" where
  "adminResetScoreboard w =
     (let w1 = w\<lparr>tanks := map (\<lambda>t. t\<lparr>score := 0, kills := 0, deaths := 0\<rparr>) (tanks w)\<rparr>
      in broadcast (msg ''scoreboardReset'' []) (updateScoreboard w1))"

definition adminKick :: "ident option \<Rightarrow> world \<Rightarrow> world" where
  "adminKick target w =
     (case target of
        None \<Rightarrow> w
      | Some k \<Rightarrow>
          (case tanks_get k w of
             None \<Rightarrow> w
           | Some targetTank \<Rightarrow>
               if \<not> isBot targetTank
               then fold (\<lambda>cl w'. if ws_playerId cl = target
                                   then ws_close (conn cl) (sendTo_open (conn cl) (msg ''kicked'' []) w')
                                   else w') (clients w) w
               else w))"

definition adminBan :: "ident option \<Rightarrow> world \<Rightarrow> world" where
  "adminBan target w =
     fold (\<lambda>cl w'. if ws_playerId cl = target
                    then ws_close (conn cl)
                           (sendTo_open (conn cl) (msg ''banned'' [])
                              (w'\<lparr>bannedIPs := insert (ws_clientIP cl) (bannedIPs w')\<rparr>))
                    else w') (clients w) w"

definition player_json :: "tank \<Rightarrow> json" where
  "player_json t =
     JObj [(''id'', JStr (tankId t)), (''name'', JStr (name t)), (''isBot'', JBool (isBot t)),
           (''score'', JNum (real_of_int (score t)))]"

text \<open>The tank of the connection: \<^verbatim>\<open>gameState.tanks.get(playerId)\<close> with the closure's
  \<^verbatim>\<open>playerId\<close>.\<close>

definition own_tank :: "connection \<Rightarrow> world \<Rightarrow> nat option" where
  "own_tank cl w = (case playerId cl of None \<Rightarrow> None | Some k \<Rightarrow> tank_index k w)"

text \<open>
  The \<^verbatim>\<open>message\<close> handler of connection \<open>c\<close>. A socket that is not among the clients has no
  handler.
\<close>

definition on_message :: "nat \<Rightarrow> client_message \<Rightarrow> world \<Rightarrow> world" where
  "on_message c m w =
     (case find (\<lambda>cl. conn cl = c) (clients w) of
        None \<Rightarrow> w
      | Some cl \<Rightarrow>
          (case m of
             Spectate \<Rightarrow>
               let w1 = modify_client c (\<lambda>cl. cl\<lparr>isSpectator := True\<rparr>) w;
                   (gs, w2) = snapshot w1
               in sendTo_open c (msg ''spectateJoined''
                    [(''config'', CONFIG_json), (''gameState'', gs)]) w2
           | Join \<Rightarrow>
               sendTo_open c (msg ''error''
                 [(''message'', JStr ''Direct join disabled. Use ESP32 controller or simulator.'')]) w
           | Move mv \<Rightarrow>
               (case own_tank cl w of
                  None \<Rightarrow> w
                | Some i \<Rightarrow> modify_tank i (\<lambda>t. t\<lparr>moving := mv\<rparr>) w)
           | Rotate a \<Rightarrow>
               (case own_tank cl w of
                  None \<Rightarrow> w
                | Some i \<Rightarrow> modify_tank i (\<lambda>t. t\<lparr>angle := a\<rparr>) w)
           | Fire \<Rightarrow>
               (case own_tank cl w of
                  None \<Rightarrow> w
                | Some i \<Rightarrow>
                    (case fireBullet i w of
                       (None, w1) \<Rightarrow> w1
                     | (Some b, w1) \<Rightarrow>
                         broadcast (msg ''bulletFired''
                           [(''bullet'', bullet_json b),
                            (''ownerId'', (case playerId cl of None \<Rightarrow> JNull | Some k \<Rightarrow> JStr k))])
                           w1))
           | AdminLogin password \<Rightarrow>
               if password = Some ADMIN_PASSWORD
               then sendTo_open c (msg ''adminLoginSuccess'' [])
                      (modify_client c (\<lambda>cl. cl\<lparr>isAdmin := True\<rparr>) w)
               else sendTo_open c (msg ''adminLoginFailed'' []) w
           | AdminKick target \<Rightarrow> if \<not> isAdmin cl then w else adminKick target w
           | AdminBan target \<Rightarrow> if \<not> isAdmin cl then w else adminBan target w
           | AdminSpawnBot primary secondary \<Rightarrow>
               if \<not> isAdmin cl then w else adminSpawnBot primary secondary w
           | AdminRemoveBot botId \<Rightarrow> if \<not> isAdmin cl then w else adminRemoveBot botId w
           | AdminResetScoreboard \<Rightarrow> if \<not> isAdmin cl then w else adminResetScoreboard w
           | AdminGetPlayers \<Rightarrow>
               if \<not> isAdmin cl then w
               else sendTo_open c (msg ''playerList''
                      [(''players'', JArr (map player_json (tanks w)))]) w
           | SimulatorJoin d adminPassword \<Rightarrow> simulatorJoin c d adminPassword w
           | Esp32Join d \<Rightarrow> esp32Join c d w
           | Ignored \<Rightarrow> w))"

subsection \<open>Connecting, closing, heartbeat\<close>

text \<open>
  A new connection from \<open>address\<close>; it is socket number \<open>conn_next\<close>. A banned address is
  told so and closed at once: no handler is registered for it.
\<close>

definition on_connection :: "string \<Rightarrow> world \<Rightarrow> world" where
  "on_connection address w0 =
     (let c = conn_next w0;
          w = w0\<lparr>conn_next := Suc c\<rparr>
      in if Some address \<in> bannedIPs w then sendTo c (msg ''banned'' []) w
         else
           let (now, w1) = Date_now w
           in w1\<lparr>clients := clients w1 @
                   [\<lparr>conn = c, remoteAddress = address, playerId = None, isAdmin = False,
                     isAlive = True, lastPong = now, isSpectator = False, isESP32 = False,
                     ws_playerId = None, ws_clientIP = None, closing = False\<rparr>]\<rparr>)"

definition on_pong :: "nat \<Rightarrow> world \<Rightarrow> world" where
  "on_pong c w =
     (let (now, w1) = Date_now w
      in modify_client c (\<lambda>cl. cl\<lparr>isAlive := True, lastPong := now\<rparr>) w1)"

text \<open>The \<^verbatim>\<open>close\<close> handler of connection \<open>c\<close>; the socket then leaves \<^verbatim>\<open>wss.clients\<close>.\<close>

definition on_close :: "nat \<Rightarrow> world \<Rightarrow> world" where
  "on_close c w =
     (case find (\<lambda>cl. conn cl = c) (clients w) of
        None \<Rightarrow> w
      | Some cl \<Rightarrow>
          let w1 = (case playerId cl of
                      None \<Rightarrow> w
                    | Some pid \<Rightarrow>
                        (case tanks_get pid w of
                           None \<Rightarrow> w
                         | Some tank \<Rightarrow>
                             if \<not> isBot tank \<and> ws tank = Some c
                             then updateScoreboard
                                    (broadcast (msg ''playerLeft'' [(''playerId'', JStr pid)])
                                       (tanks_delete pid w))
                             else w))
          in w1\<lparr>clients := filter (\<lambda>cl. conn cl \<noteq> c) (clients w1)\<rparr>)"

text \<open>
  The heartbeat timer. \<^verbatim>\<open>ws.terminate()\<close> closes the socket by force, which emits its
  \<^verbatim>\<open>close\<close> event: the handler above runs for it. A ping changes nothing on the server.
\<close>

definition heartbeat :: "world \<Rightarrow> world" where
  "heartbeat w =
     (let (now, w1) = Date_now w
      in fold (\<lambda>cl w'. if now - lastPong cl > HEARTBEAT_TIMEOUT then on_close (conn cl) w' else w')
           (clients w1) w1)"

section \<open>Runs of the server\<close>

text \<open>
  The state at process start: the empty collections of \<^verbatim>\<open>gameState\<close>, no client, no
  timer, nothing sent, and the three sequences of the environment.
\<close>

definition initial_world :: "(nat \<Rightarrow> real) \<Rightarrow> (nat \<Rightarrow> ident) \<Rightarrow> (nat \<Rightarrow> int) \<Rightarrow> world" where
  "initial_world rnd ids clk =
     \<lparr>tanks = [], bullets = [], obstacles = [], world_powerups = [], scoreboard = [],
      bannedIPs = {}, bots = [], clients = [],
      rng = rnd, rng_next = 0, uuid_gen = ids, uuid_next = 0, clock = clk, clock_next = 0,
      timers = [], sent = [], conn_next = 0\<rparr>"

text \<open>
  The callbacks that the event loop runs, one at a time: the game loop, a frame or an
  event of a socket, the three interval timers that change the world, and a
  \<^verbatim>\<open>setTimeout\<close> callback becoming due. (The interval that broadcasts \<^verbatim>\<open>gameState\<close> only sends.)
\<close>

datatype event =
    Tick
  | Connected string
  | Message nat client_message
  | Pong nat
  | Closed nat
  | Heartbeat
  | ObstacleSpawner
  | PowerupSpawner
  | Timeout nat

fun step :: "event \<Rightarrow> world \<Rightarrow> world" where
  "step Tick w = updateGame w"
| "step (Connected address) w = on_connection address w"
| "step (Message c m) w = on_message c m w"
| "step (Pong c) w = on_pong c w"
| "step (Closed c) w = on_close c w"
| "step Heartbeat w = heartbeat w"
| "step ObstacleSpawner w = spawnObstacle w"
| "step PowerupSpawner w = spawnPowerup None None w"
| "step (Timeout n) w = fire_timer n w"

definition run :: "event list \<Rightarrow> world \<Rightarrow> world" where
  "run events w = fold step events w"

section \<open>Properties\<close>

text \<open>Repeated calls of \<^verbatim>\<open>applyPowerup\<close> on one tank, each with its own clock value.\<close>

fun applyPowerup_calls :: "(int \<times> powerup_type) list \<Rightarrow> tank \<Rightarrow> tank" where
  "applyPowerup_calls [] t = t"
| "applyPowerup_calls ((now, type) # calls) t =
     applyPowerup_calls calls (fst (applyPowerup now type t))"

definition stacks_in_range :: "tank \<Rightarrow> bool" where
  "stacks_in_range t =
     (\<forall>T e. powerups t T = Some e \<longrightarrow> 1 \<le> stacks e \<and> stacks e \<le> maxStacks (POWERUP_TYPES T))"

subsection \<open>Predicates and relations of the statements\<close>

text \<open>The tank after an explosion, from the tank before it.\<close>

definition blast_damage :: "real \<Rightarrow> real \<Rightarrow> real \<Rightarrow> real \<Rightarrow> tank \<Rightarrow> real" where
  "blast_damage ex ey radius dmg t =
     fmul dmg (fsub 1 (fdiv (distance \<lparr>x = ex, y = ey\<rparr> t) radius))"

definition blast_reaches :: "real \<Rightarrow> real \<Rightarrow> real \<Rightarrow> tank \<Rightarrow> bool" where
  "blast_reaches ex ey radius t =
     (\<not> spawnProtection t \<and> \<not> invincible t \<and> distance \<lparr>x = ex, y = ey\<rparr> t < radius)"

definition blast_kills :: "real \<Rightarrow> real \<Rightarrow> real \<Rightarrow> real \<Rightarrow> tank \<Rightarrow> bool" where
  "blast_kills ex ey radius dmg t =
     (blast_reaches ex ey radius t \<and> fsub (hp t) (blast_damage ex ey radius dmg t) \<le> 0)"

definition explosion_outcome :: "real \<Rightarrow> real \<Rightarrow> real \<Rightarrow> real \<Rightarrow> tank \<Rightarrow> tank \<Rightarrow> bool" where
  "explosion_outcome ex ey radius dmg t t' =
     (if \<not> blast_reaches ex ey radius t then t' = t
      else if blast_kills ex ey radius dmg t
      then (\<exists>pos r. t' = respawn_at pos r (t\<lparr>hp := fsub (hp t) (blast_damage ex ey radius dmg t)\<rparr>))
      else t' = t\<lparr>hp := fsub (hp t) (blast_damage ex ey radius dmg t)\<rparr>)"

definition death_notice :: "tank \<Rightarrow> recipient \<times> json" where
  "death_notice t =
     (Everyone, msg ''tankDeath'' [(''tankId'', JStr (tankId t)), (''killer'', JNull)])"

definition death_notices :: "real \<Rightarrow> real \<Rightarrow> real \<Rightarrow> real \<Rightarrow> tank list \<Rightarrow> (recipient \<times> json) list" where
  "death_notices ex ey radius dmg ts =
     map death_notice (filter (blast_kills ex ey radius dmg) ts)"

text \<open>A tank whose hit points are within bounds: positive and at most \<^verbatim>\<open>maxHp\<close>, which
  is the base health it was built with.\<close>

definition tank_ok :: "tank \<Rightarrow> bool" where
  "tank_ok t = (maxHp t = BASE_HEALTH \<and> 0 < hp t \<and> hp t \<le> maxHp t)"

text \<open>The test that both damage paths make before they touch a tank.\<close>

definition protected :: "tank \<Rightarrow> bool" where
  "protected t = (spawnProtection t \<or> invincible t)"

text \<open>What a tick keeps of a tank: its identity, and, when the damage applied is not
  negative (\<open>g\<close>), the bounds of its hit points.\<close>

definition tick_kept :: "bool \<Rightarrow> tank \<Rightarrow> tank \<Rightarrow> bool" where
  "tick_kept g t t' =
     (tankId t' = tankId t \<and> isBot t' = isBot t \<and> deviceId t' = deviceId t \<and> ws t' = ws t
      \<and> maxHp t' = maxHp t \<and> (g \<longrightarrow> tank_ok t \<longrightarrow> tank_ok t'))"

text \<open>What the damage paths keep in addition: a protected tank's hit points and flags.\<close>

definition damage_kept :: "bool \<Rightarrow> tank \<Rightarrow> tank \<Rightarrow> bool" where
  "damage_kept g t t' =
     (tick_kept g t t'
      \<and> (protected t \<longrightarrow> hp t' = hp t \<and> spawnProtection t' = spawnProtection t
                          \<and> invincible t' = invincible t))"

text \<open>The value a client reads under a key of a message (\<^verbatim>\<open>data.killerId\<close>); \<^term>\<open>None\<close> is
  \<^verbatim>\<open>undefined\<close>.\<close>

definition json_field :: "string \<Rightarrow> json \<Rightarrow> json option" where
  "json_field k j = (case j of JObj kvs \<Rightarrow> map_of kvs k | _ \<Rightarrow> None)"

text \<open>The other fields that the steps of a tick leave alone.\<close>

definition same_entities :: "world \<Rightarrow> world \<Rightarrow> bool" where
  "same_entities w w' =
     (bullets w' = bullets w \<and> obstacles w' = obstacles w
      \<and> world_powerups w' = world_powerups w \<and> bots w' = bots w \<and> clients w' = clients w)"

text \<open>What the tank phase of a tick keeps of the world.\<close>

definition tick_step :: "world \<Rightarrow> world \<Rightarrow> bool" where
  "tick_step w w' =
     (list_all2 (tick_kept True) (tanks w) (tanks w') \<and> bullets w' = bullets w
      \<and> bots w' = bots w \<and> clients w' = clients w)"

text \<open>What firing keeps of the world: a bullet that is new carries no negative damage.\<close>

definition fire_step :: "world \<Rightarrow> world \<Rightarrow> bool" where
  "fire_step w w' =
     (list_all2 (tick_kept True) (tanks w) (tanks w') \<and> clients w' = clients w
      \<and> (\<forall>b \<in> set (bullets w'). b \<in> set (bullets w) \<or> 0 \<le> bulletDamage b))"

text \<open>Hit points of every tank are positive and at most \<^verbatim>\<open>maxHp\<close>, which is the base
  health; no bullet carries negative damage.\<close>

definition world_ok :: "world \<Rightarrow> bool" where
  "world_ok w = ((\<forall>t \<in> set (tanks w). tank_ok t) \<and> (\<forall>b \<in> set (bullets w). 0 \<le> bulletDamage b))"

text \<open>The keys of the map of tanks are distinct.\<close>

definition distinct_ids :: "world \<Rightarrow> bool" where
  "distinct_ids w = distinct (map tankId (tanks w))"

text \<open>A device identifier is carried by at most one tank that is not a bot.\<close>

definition one_tank_per_device :: "world \<Rightarrow> bool" where
  "one_tank_per_device w =
     (\<forall>d. length (filter (\<lambda>t. deviceId t = Some d \<and> \<not> isBot t) (tanks w)) \<le> 1)"

text \<open>The three together hold in every state the server reaches.\<close>

definition invariant :: "world \<Rightarrow> bool" where
  "invariant w = (world_ok w \<and> distinct_ids w \<and> one_tank_per_device w)"

text \<open>What the message handlers keep of a tank they update.\<close>

definition same_identity :: "tank \<Rightarrow> tank \<Rightarrow> bool" where
  "same_identity t t' =
     (tankId t' = tankId t \<and> isBot t' = isBot t \<and> deviceId t' = deviceId t
      \<and> (tank_ok t \<longrightarrow> tank_ok t'))"

text \<open>
  The scoreboard against the tanks. \<open>board_key\<close> is what a row shows of a tank apart from
  its deaths, \<open>row_key\<close> the same of a row; \<open>board_ok\<close> says that the rows are those of the
  tanks now, in the stable order of descending score; \<open>board_view\<close> is what a step must
  leave alone unless it recomputes the scoreboard.
\<close>

definition board_key :: "tank \<Rightarrow> ident \<times> string \<times> int \<times> nat \<times> bool" where
  "board_key t = (tankId t, name t, score t, kills t, isBot t)"

definition row_key :: "scoreboard_row \<Rightarrow> ident \<times> string \<times> int \<times> nat \<times> bool" where
  "row_key r = (row_id r, row_name r, row_score r, row_kills r, row_isBot r)"

definition board_view :: "world \<Rightarrow> (ident \<times> string \<times> int \<times> nat \<times> bool) list \<times> scoreboard_row list" where
  "board_view w = (map board_key (tanks w), scoreboard w)"

definition board_ok :: "world \<Rightarrow> bool" where
  "board_ok w =
     (map row_key (scoreboard w)
        = sort_key (\<lambda>(k, n, s, kl, b). - s) (map board_key (tanks w)))"

definition board_step :: "world \<Rightarrow> world \<Rightarrow> bool" where
  "board_step w w' = (board_view w' = board_view w \<or> board_ok w')"

section \<open>Proofs\<close>

subsection \<open>Rounding\<close>

lemma round_half_even_of_int [simp]: "round_half_even (of_int k) = k"
  by (simp add: round_half_even_def)

lemma round_half_even_le: "r \<le> of_int M \<Longrightarrow> round_half_even r \<le> M"
  unfolding round_half_even_def Let_def
  by (auto simp: floor_le_iff le_floor_iff split: if_splits; linarith)

lemma round_half_even_ge: "of_int M \<le> r \<Longrightarrow> M \<le> round_half_even r"
  unfolding round_half_even_def Let_def
  by (auto simp: le_floor_iff split: if_splits; linarith)

lemma round_half_even_error: "\<bar>of_int (round_half_even r) - r\<bar> \<le> 1 / 2"
  unfolding round_half_even_def Let_def
  by (auto split: if_splits; linarith)

lemma binade_up_ge1: "1 \<le> binade_up n a"
proof (induction n arbitrary: a)
  case 0 show ?case by simp
next
  case (Suc n)
  from Suc.IH[of "a / 2"] show ?case by simp
qed

lemma binade_down_pos: "0 < binade_down n a"
proof (induction n arbitrary: a)
  case 0 show ?case by simp
next
  case (Suc n)
  from Suc.IH[of "2 * a"] show ?case by simp
qed

lemma binade_pos: "0 < binade a"
  using binade_up_ge1[of 1023 "\<bar>a\<bar>"] binade_down_pos[of 1022 "\<bar>a\<bar>"]
  by (auto simp: binade_def)

lemma ulp_pos: "0 < ulp a"
  by (simp add: ulp_def binade_pos)

lemma fl_0 [simp]: "fl 0 = 0"
  using round_half_even_of_int[of 0] by (simp add: fl_def)

lemma fl_nonneg: "0 \<le> a \<Longrightarrow> 0 \<le> fl a"
  using round_half_even_ge[of 0 "a / ulp a"] ulp_pos[of a]
  by (simp add: fl_def)

lemma fl_nonpos: "a \<le> 0 \<Longrightarrow> fl a \<le> 0"
  using round_half_even_le[of "a / ulp a" 0] ulp_pos[of a]
  by (simp add: fl_def divide_nonpos_pos mult_nonpos_nonneg less_imp_le)

lemma binade_up_power: "1 \<le> a \<Longrightarrow> a < 2 ^ K \<Longrightarrow> \<exists>k<K. binade_up n a = 2 ^ k"
proof (induction n arbitrary: a K)
  case 0
  then have "0 < K" by (cases K) auto
  then show ?case by (auto intro: exI[of _ 0])
next
  case (Suc n)
  show ?case
  proof (cases "a < 2")
    case True
    from Suc.prems have "0 < K" by (cases K) auto
    with True show ?thesis by (auto intro: exI[of _ 0])
  next
    case False
    then obtain K' where K: "K = Suc K'" using Suc.prems by (cases K) auto
    from False Suc.prems K have "1 \<le> a / 2" "a / 2 < 2 ^ K'" by auto
    from Suc.IH[OF this] obtain k where "k < K'" "binade_up n (a / 2) = 2 ^ k" by blast
    with False K show ?thesis by (auto intro: exI[of _ "Suc k"])
  qed
qed

lemma binade_down_power: "\<exists>k\<le>n. binade_down n a = 1 / 2 ^ k"
proof (induction n arbitrary: a)
  case 0
  show ?case by simp
next
  case (Suc n)
  show ?case
  proof (cases "1 \<le> a")
    case True
    then show ?thesis by (auto intro: exI[of _ 0])
  next
    case False
    from Suc.IH[of "2 * a"] obtain k where "k \<le> n" "binade_down n (2 * a) = 1 / 2 ^ k" by blast
    with False show ?thesis by (auto intro: exI[of _ "Suc k"])
  qed
qed

text \<open>Below \<open>2\<^sup>5\<^sup>3\<close> the spacing of the doubles divides 1.\<close>

lemma ulp_divides_1:
  assumes "\<bar>a\<bar> < 2 ^ 53"
  shows "\<exists>m::nat. ulp a * 2 ^ m = 1"
proof (cases "1 \<le> \<bar>a\<bar>")
  case True
  from binade_up_power[OF True assms, of 1023] obtain k where
    k: "k < 53" "binade_up 1023 \<bar>a\<bar> = 2 ^ k" by blast
  have "(2::real) ^ k * 2 ^ (52 - k) = 2 ^ 52"
    using k(1) by (simp add: power_add[symmetric])
  then have "ulp a * 2 ^ (52 - k) = 1"
    using True k(2) by (simp add: ulp_def binade_def)
  then show ?thesis by blast
next
  case False
  from binade_down_power[of 1022 "\<bar>a\<bar>"] obtain k where
    k: "binade_down 1022 \<bar>a\<bar> = 1 / 2 ^ k" by blast
  have "ulp a * 2 ^ (k + 52) = 1"
    using False k by (simp add: ulp_def binade_def power_add)
  then show ?thesis by blast
qed

lemma fl_of_int:
  assumes "\<bar>n\<bar> < 2 ^ 53"
  shows "fl (of_int n) = of_int n"
proof -
  have "\<bar>of_int n :: real\<bar> < 2 ^ 53"
    using assms by (metis of_int_abs of_int_less_numeral_power_cancel_iff)
  from ulp_divides_1[OF this] obtain m :: nat where m: "ulp (of_int n) * 2 ^ m = 1" by blast
  then have u: "ulp (of_int n) = 1 / 2 ^ m" by (simp add: field_simps)
  have "of_int n / ulp (of_int n) = of_int (n * 2 ^ m)" by (simp add: u)
  then have "round_half_even (of_int n / ulp (of_int n)) = n * 2 ^ m"
    by (simp only: round_half_even_of_int)
  then show ?thesis by (simp add: fl_def u)
qed

lemma fl_le_of_nat:
  assumes "a \<le> of_nat N" and "N < 2 ^ 53"
  shows "fl a \<le> of_nat N"
proof (cases "a \<le> 0")
  case True
  then have "fl a \<le> 0" by (rule fl_nonpos)
  then show ?thesis by (rule order_trans) simp
next
  case False
  then have "\<bar>a\<bar> = a" by simp
  moreover have "(of_nat N :: real) < 2 ^ 53"
    using assms(2) by (metis of_nat_less_numeral_power_cancel_iff)
  ultimately have "\<bar>a\<bar> < 2 ^ 53" using assms(1) by linarith
  from ulp_divides_1[OF this] obtain m :: nat where m: "ulp a * 2 ^ m = 1" by blast
  then have u: "ulp a = 1 / 2 ^ m" by (simp add: field_simps)
  have "a / ulp a \<le> of_int (int N * 2 ^ m)"
    using assms(1) by (simp add: u)
  then have "round_half_even (a / ulp a) \<le> int N * 2 ^ m" by (rule round_half_even_le)
  then have "(of_int (round_half_even (a / ulp a)) :: real) \<le> of_int (int N * 2 ^ m)"
    by (simp only: of_int_le_iff)
  then show ?thesis by (simp add: fl_def u field_simps)
qed

lemma binade_up_le: "1 \<le> a \<Longrightarrow> binade_up n a \<le> a"
proof (induction n arbitrary: a)
  case 0 then show ?case by simp
next
  case (Suc n)
  from Suc.IH[of "a / 2"] Suc.prems show ?case by auto
qed

lemma fl_ge_1:
  assumes "1 \<le> a"
  shows "1 \<le> fl a"
proof -
  let ?b = "binade_up 1023 a"
  have b: "1 \<le> ?b" "?b \<le> a" by (rule binade_up_ge1, rule binade_up_le[OF assms])
  have u: "ulp a = ?b / 2 ^ 52" using assms by (simp add: ulp_def binade_def)
  have "of_int (2 ^ 52) \<le> a / ulp a" using b by (simp add: u field_simps)
  then have "2 ^ 52 \<le> round_half_even (a / ulp a)" by (rule round_half_even_ge)
  then have "(of_int (2 ^ 52) :: real) \<le> of_int (round_half_even (a / ulp a))"
    by (simp only: of_int_le_iff)
  then have "of_int (2 ^ 52) * ulp a \<le> of_int (round_half_even (a / ulp a)) * ulp a"
    using ulp_pos[of a] by (simp only: mult_le_cancel_right_pos)
  moreover have "of_int (2 ^ 52) * ulp a = ?b" by (simp add: u)
  moreover have "fl a = of_int (round_half_even (a / ulp a)) * ulp a" by (simp only: fl_def)
  ultimately show ?thesis using b(1) by linarith
qed

lemma fl_error: "\<bar>fl a - a\<bar> \<le> ulp a / 2"
proof -
  have "fl a - a = (of_int (round_half_even (a / ulp a)) - a / ulp a) * ulp a"
    using ulp_pos[of a] by (simp add: fl_def field_simps)
  then have "\<bar>fl a - a\<bar> = \<bar>of_int (round_half_even (a / ulp a)) - a / ulp a\<bar> * ulp a"
    using ulp_pos[of a] by (simp add: abs_mult)
  also have "\<dots> \<le> 1 / 2 * ulp a"
    using round_half_even_error[of "a / ulp a"] ulp_pos[of a] by (simp add: mult_right_mono)
  finally show ?thesis by simp
qed

lemma binade_down_le: "0 \<le> a \<Longrightarrow> a < 1 \<Longrightarrow> binade_down n a \<le> max a (1 / 2 ^ n)"
proof (induction n arbitrary: a)
  case 0 then show ?case by simp
next
  case (Suc n)
  show ?case
  proof (cases "2 * a < 1")
    case True
    from Suc.IH[of "2 * a"] Suc.prems True
    have "binade_down n (2 * a) \<le> 2 * a \<or> binade_down n (2 * a) \<le> 1 / 2 ^ n"
      by (simp add: le_max_iff_disj)
    then have "binade_down n (2 * a) / 2 \<le> a \<or> binade_down n (2 * a) / 2 \<le> 1 / 2 ^ Suc n"
      by (auto simp: field_simps)
    with Suc.prems show ?thesis by (simp add: le_max_iff_disj)
  next
    case False
    then have "binade_down n (2 * a) = 1" by (cases n) auto
    with Suc.prems False show ?thesis by (simp add: le_max_iff_disj)
  qed
qed

lemma ulp_le: "ulp a \<le> \<bar>a\<bar> / 2 ^ 52 + 1 / 2 ^ 1074"
proof (cases "1 \<le> \<bar>a\<bar>")
  case True
  with binade_up_le[of "\<bar>a\<bar>" 1023] have "ulp a \<le> \<bar>a\<bar> / 2 ^ 52"
    by (simp add: ulp_def binade_def divide_right_mono)
  then show ?thesis by (rule order_trans) simp
next
  case False
  with binade_down_le[of "\<bar>a\<bar>" 1022]
  have "binade_down 1022 \<bar>a\<bar> \<le> \<bar>a\<bar> + 1 / 2 ^ 1022" by (auto simp: max_def split: if_splits)
  then have "binade_down 1022 \<bar>a\<bar> / 2 ^ 52 \<le> (\<bar>a\<bar> + 1 / 2 ^ 1022) / 2 ^ 52"
    by (rule divide_right_mono) simp
  also have "\<dots> = \<bar>a\<bar> / 2 ^ 52 + 1 / 2 ^ 1074"
    by (simp add: add_divide_distrib power_add[symmetric])
  finally show ?thesis using False by (simp add: ulp_def binade_def)
qed

lemma fl_error_rel: "\<bar>fl a - a\<bar> \<le> \<bar>a\<bar> / 2 ^ 53 + 1 / 2 ^ 1075"
proof -
  have "ulp a / 2 \<le> (\<bar>a\<bar> / 2 ^ 52 + 1 / 2 ^ 1074) / 2"
    using ulp_le[of a] by simp
  also have "\<dots> = \<bar>a\<bar> / 2 ^ 53 + 1 / 2 ^ 1075" by (simp add: add_divide_distrib)
  finally show ?thesis using fl_error[of a] by linarith
qed

text \<open>Evaluation at a number.\<close>

lemma binade_up_numeral:
  "binade_up (numeral k) a = (if a < 2 then 1 else 2 * binade_up (pred_numeral k) (a / 2))"
  by (simp add: numeral_eq_Suc)

lemma binade_down_numeral:
  "binade_down (numeral k) a = (if 1 \<le> a then 1 else binade_down (pred_numeral k) (2 * a) / 2)"
  by (simp add: numeral_eq_Suc)

lemmas fl_eval = fl_def ulp_def binade_def binade_up_numeral binade_down_numeral
  round_half_even_def Let_def

text \<open>Integers below \<open>2\<^sup>5\<^sup>3\<close> are doubles.\<close>

lemma fl_numeral: "(numeral k :: int) < 2 ^ 53 \<Longrightarrow> fl (numeral k) = numeral k"
  using fl_of_int[of "numeral k"] by simp

lemma fl_1 [simp]: "fl 1 = 1"
  using fl_of_int[of 1] by simp

lemmas fl_ops = fadd_def fsub_def fmul_def fdiv_def fsqrt_def

text \<open>Bounds of the rounded operations on hit points and damage.\<close>

lemma fadd_pos: "0 < a \<Longrightarrow> 1 \<le> b \<Longrightarrow> 0 < fadd a b"
  using fl_ge_1[of "a + b"] by (simp add: fadd_def)

lemma fsub_le_BASE_HEALTH: "a \<le> BASE_HEALTH \<Longrightarrow> 0 \<le> d \<Longrightarrow> fsub a d \<le> BASE_HEALTH"
  using fl_le_of_nat[of "a - d" 100] by (simp add: fsub_def BASE_HEALTH_def)

lemma distance_nonneg: "0 \<le> distance a b"
  by (simp add: distance_def Let_def fsqrt_def fadd_def fmul_def fl_nonneg)

lemma blast_damage_nonneg:
  assumes "0 \<le> dmg" and "distance \<lparr>x = ex, y = ey\<rparr> t < radius"
  shows "0 \<le> blast_damage ex ey radius dmg t"
proof -
  let ?d = "distance \<lparr>x = ex, y = ey\<rparr> t"
  have d: "0 \<le> ?d" by (rule distance_nonneg)
  with assms(2) have "?d / radius \<le> 1" by (simp add: field_simps)
  with fl_le_of_nat[of "?d / radius" 1] have "fdiv ?d radius \<le> 1" by (simp add: fdiv_def)
  then have "0 \<le> fsub 1 (fdiv ?d radius)" by (simp add: fsub_def fl_nonneg)
  with assms(1) show ?thesis by (simp add: blast_damage_def fmul_def fl_nonneg)
qed

subsection \<open>Stacking\<close>

lemma maxStacks_pos: "1 \<le> maxStacks (POWERUP_TYPES T)"
  by (cases T) simp_all

lemma applyPowerup_stacks_in_range:
  assumes "stacks_in_range t"
  shows "stacks_in_range (fst (applyPowerup now T t))"
  unfolding stacks_in_range_def
proof (intro allI impI)
  fix T' e'
  assume h: "powerups (fst (applyPowerup now T t)) T' = Some e'"
  show "1 \<le> stacks e' \<and> stacks e' \<le> maxStacks (POWERUP_TYPES T')"
  proof (cases "T' = T \<and> T \<noteq> HEALTH")
    case False
    then have "powerups (fst (applyPowerup now T t)) T' = powerups t T'"
      by (auto simp: applyPowerup_def Let_def split: option.splits)
    with h assms show ?thesis by (simp add: stacks_in_range_def)
  next
    case True
    show ?thesis
    proof (cases "powerups t T")
      case None
      with True h show ?thesis using maxStacks_pos[of T]
        by (auto simp: applyPowerup_def Let_def split: if_splits)
    next
      case (Some e)
      with assms have "1 \<le> stacks e \<and> stacks e \<le> maxStacks (POWERUP_TYPES T)"
        by (simp add: stacks_in_range_def)
      with True h Some show ?thesis using maxStacks_pos[of T]
        by (auto simp: applyPowerup_def Let_def split: if_splits)
    qed
  qed
qed

lemma applyPowerup_calls_stacks_in_range:
  "stacks_in_range t \<Longrightarrow> stacks_in_range (applyPowerup_calls calls t)"
  by (induction calls arbitrary: t) (auto simp: applyPowerup_stacks_in_range)

lemma applyPowerup_entry:
  "T \<noteq> HEALTH \<Longrightarrow> powerups (fst (applyPowerup now T t)) T \<noteq> None"
  unfolding applyPowerup_def Let_def
  by (auto split: option.splits)

lemma applyPowerup_keeps_entry:
  "powerups t T \<noteq> None \<Longrightarrow> powerups (fst (applyPowerup now T' t)) T \<noteq> None"
  unfolding applyPowerup_def Let_def
  by (auto split: option.splits)

lemma applyPowerup_calls_keeps_entry:
  "powerups t T \<noteq> None \<Longrightarrow> powerups (applyPowerup_calls calls t) T \<noteq> None"
proof (induction calls arbitrary: t)
  case Nil then show ?case by simp
next
  case (Cons c calls)
  obtain now T' where c: "c = (now, T')" by (cases c)
  from Cons.prems have "powerups (fst (applyPowerup now T' t)) T \<noteq> None"
    by (rule applyPowerup_keeps_entry)
  then show ?case using Cons.IH c by simp
qed

lemma applyPowerup_calls_entry:
  "T \<noteq> HEALTH \<Longrightarrow> T \<in> snd ` set calls \<Longrightarrow> powerups (applyPowerup_calls calls t) T \<noteq> None"
proof (induction calls arbitrary: t)
  case Nil then show ?case by simp
next
  case (Cons c calls)
  obtain now T' where c: "c = (now, T')" by (cases c)
  show ?case
  proof (cases "T' = T")
    case True
    with Cons.prems(1) c show ?thesis
      by (simp add: applyPowerup_calls_keeps_entry applyPowerup_entry)
  next
    case False
    with Cons c show ?thesis by auto
  qed
qed

lemma times_multiplier_power: "times_multiplier n m v = v * m ^ n"
  by (induction n arbitrary: v) (simp_all add: mult.assoc)

lemma speed_four_times_stacks:
  assumes "powerups t SPEED = None"
  shows "map_option stacks (powerups (applyPowerup_calls [(n1, SPEED), (n2, SPEED), (n3, SPEED), (n4, SPEED)] t) SPEED) = Some 3"
  using assms by (simp add: applyPowerup_def Let_def)

lemma speed_four_times_stats:
  assumes "powerups t SPEED = None"
  shows "stat_speed (fst (getEffectiveStats now (applyPowerup_calls [(n1, SPEED), (n2, SPEED), (n3, SPEED), (n4, SPEED)] t))) = BASE_TANK_SPEED * (13 / 10) ^ 3"
  using assms by (simp add: applyPowerup_def Let_def getEffectiveStats_def stacked_def times_multiplier_power power3_eq_cube split: prod.splits option.splits)

text \<open>A tank as the constructor makes it, for the closed instances below.\<close>

lemma new_Tank_initial:
  "fst (new_Tank k None None None None False (initial_world (\<lambda>_. 0) ids clk)) =
     \<lparr>x = 50, y = 50, tankId = k, name = ''Unknown'', primaryColor = ''#FF5722'',
      secondaryColor = ''#FF5722'', avatarUrl = [], angle = 0, hp = 100, maxHp = 100,
      speed = 3, damage = 25, fireRange = 500, fireRate = 500, lastFire = 0, score = 0,
      kills = 0, deaths = 0, isBot = False, spawnProtection = True, invincible = False,
      invincibilityEnd = None, powerups = (\<lambda>_. None),
      moving = \<lparr>up = False, down = False, left = False, right = False\<rparr>,
      deviceId = None, ws = None\<rparr>"
  by (simp add: new_Tank_def findSafeSpawnPosition_def findSafeSpawnPosition_loop.simps[of 0]
      randomPosition_def Math_random_def initial_world_def isSafe_def validateTankColor_def
      randomBrightColor_def Let_def setTimeout_def sanitizeTankName_def pick_def brightColors_def
      config split: prod.splits)

text \<open>
  Claim C1. Whatever calls of \<^verbatim>\<open>applyPowerup\<close> are made on a tank whose recorded stack
  counts are within 1 and the type's \<^verbatim>\<open>maxStacks\<close>, they stay so; every type applied other
  than HEALTH (which records nothing) has an entry afterwards, with a count in that
  range. Applying SPEED four times in a row to a tank without a SPEED entry leaves 3
  stacks, and \<^verbatim>\<open>getEffectiveStats\<close> then returns a speed of the base speed times 1.3 cubed,
  not 1.3 to the fourth.
\<close>

theorem stack_count_within_maxStacks:
  assumes "stacks_in_range t"
  shows "stacks_in_range (applyPowerup_calls calls t)
       \<and> (\<forall>T. T \<noteq> HEALTH \<and> T \<in> snd ` set calls \<longrightarrow>
            (\<exists>e. powerups (applyPowerup_calls calls t) T = Some e
                 \<and> 1 \<le> stacks e \<and> stacks e \<le> maxStacks (POWERUP_TYPES T)))
       \<and> (powerups t SPEED = None \<longrightarrow>
            (let t4 = applyPowerup_calls [(n1, SPEED), (n2, SPEED), (n3, SPEED), (n4, SPEED)] t
             in map_option stacks (powerups t4 SPEED) = Some 3
              \<and> stat_speed (fst (getEffectiveStats now t4)) = BASE_TANK_SPEED * (13 / 10) ^ 3
              \<and> stat_speed (fst (getEffectiveStats now t4)) \<noteq> BASE_TANK_SPEED * (13 / 10) ^ 4))"
proof (intro conjI allI impI)
  show inv: "stacks_in_range (applyPowerup_calls calls t)"
    using assms by (rule applyPowerup_calls_stacks_in_range)
  fix T assume T: "T \<noteq> HEALTH \<and> T \<in> snd ` set calls"
  then obtain e where e: "powerups (applyPowerup_calls calls t) T = Some e"
    using applyPowerup_calls_entry[of T calls t] by auto
  with inv show "\<exists>e. powerups (applyPowerup_calls calls t) T = Some e
                 \<and> 1 \<le> stacks e \<and> stacks e \<le> maxStacks (POWERUP_TYPES T)"
    by (auto simp: stacks_in_range_def)
next
  assume n: "powerups t SPEED = None"
  show "let t4 = applyPowerup_calls [(n1, SPEED), (n2, SPEED), (n3, SPEED), (n4, SPEED)] t
        in map_option stacks (powerups t4 SPEED) = Some 3
         \<and> stat_speed (fst (getEffectiveStats now t4)) = BASE_TANK_SPEED * (13 / 10) ^ 3
         \<and> stat_speed (fst (getEffectiveStats now t4)) \<noteq> BASE_TANK_SPEED * (13 / 10) ^ 4"
    unfolding Let_def
    using speed_four_times_stacks[OF n, of n1 n2 n3 n4] speed_four_times_stats[OF n, of now n1 n2 n3 n4]
    by (simp add: BASE_TANK_SPEED_def)
qed

theorem stack_count_within_maxStacks_witness:
  "map_option stacks
     (powerups (applyPowerup_calls [(1, SPEED), (2, SPEED), (3, SPEED), (4, SPEED)]
        (fst (new_Tank ''t1'' None None None None False
               (initial_world (\<lambda>_. 0) (\<lambda>_. ''u'') (\<lambda>_. 0))))) SPEED) = Some 3
   \<and> stat_speed (fst (getEffectiveStats 5
        (applyPowerup_calls [(1, SPEED), (2, SPEED), (3, SPEED), (4, SPEED)]
           (fst (new_Tank ''t1'' None None None None False
                  (initial_world (\<lambda>_. 0) (\<lambda>_. ''u'') (\<lambda>_. 0))))))) = 6591 / 1000
   \<and> stacks_in_range
        (applyPowerup_calls [(1, SPEED), (2, SPEED), (3, SPEED), (4, SPEED)]
           (fst (new_Tank ''t1'' None None None None False
                  (initial_world (\<lambda>_. 0) (\<lambda>_. ''u'') (\<lambda>_. 0)))))"
proof -
  let ?t = "fst (new_Tank ''t1'' None None None None False
                  (initial_world (\<lambda>_. 0) (\<lambda>_. ''u'') (\<lambda>_. 0)))"
  have p: "powerups ?t = (\<lambda>_. None)" by (simp add: new_Tank_initial)
  then have h: "stacks_in_range ?t" by (simp add: stacks_in_range_def)
  from p have n: "powerups ?t SPEED = None" by simp
  show ?thesis
    using stack_count_within_maxStacks[OF h, of "[(1, SPEED), (2, SPEED), (3, SPEED), (4, SPEED)]" 1 2 3 4 5] n
    by (simp add: Let_def BASE_TANK_SPEED_def power3_eq_cube)
qed

subsection \<open>Invincibility timer\<close>

lemma applyPowerup_INVINCIBILITY:
  "snd (applyPowerup now INVINCIBILITY t) =
     [\<lparr>delay = 10000, callback = InvincibilityOff (now + 10000)\<rparr>]
   \<and> invincibilityEnd (fst (applyPowerup now INVINCIBILITY t)) = Some (now + 10000)
   \<and> invincible (fst (applyPowerup now INVINCIBILITY t))
   \<and> powerups (fst (applyPowerup now INVINCIBILITY t)) INVINCIBILITY \<noteq> None"
  by (simp add: applyPowerup_def Let_def split: option.splits)

text \<open>
  Claim C6. The expiry callback of an invincibility leaves the tank as it is unless the
  tank's \<^verbatim>\<open>invincibilityEnd\<close> equals the expiry captured when the callback was registered;
  when it does, the callback clears \<^verbatim>\<open>invincible\<close> and deletes the INVINCIBILITY entry.
  \<^verbatim>\<open>applyPowerup\<close> registers the callback with the expiry it stores, and after a later
  re-application the callback of the earlier one changes nothing: the tank is still
  invincible, with its entry and the later expiry.
\<close>

theorem invincibility_timer_checks_expiry:
  "(invincibilityEnd t \<noteq> Some captured \<longrightarrow> run_callback (InvincibilityOff captured) t = t)
   \<and> (invincibilityEnd t = Some captured \<longrightarrow>
        \<not> invincible (run_callback (InvincibilityOff captured) t)
        \<and> powerups (run_callback (InvincibilityOff captured) t) INVINCIBILITY = None)
   \<and> snd (applyPowerup now1 INVINCIBILITY t) =
        [\<lparr>delay = 10000, callback = InvincibilityOff (now1 + 10000)\<rparr>]
   \<and> invincibilityEnd (fst (applyPowerup now1 INVINCIBILITY t)) = Some (now1 + 10000)
   \<and> (now1 < now2 \<longrightarrow>
        (let t2 = fst (applyPowerup now2 INVINCIBILITY (fst (applyPowerup now1 INVINCIBILITY t)))
         in run_callback (InvincibilityOff (now1 + 10000)) t2 = t2
          \<and> invincible t2 \<and> powerups t2 INVINCIBILITY \<noteq> None
          \<and> invincibilityEnd t2 = Some (now2 + 10000)))"
proof (intro conjI impI)
  assume "now1 < now2"
  then show "let t2 = fst (applyPowerup now2 INVINCIBILITY (fst (applyPowerup now1 INVINCIBILITY t)))
        in run_callback (InvincibilityOff (now1 + 10000)) t2 = t2
         \<and> invincible t2 \<and> powerups t2 INVINCIBILITY \<noteq> None
         \<and> invincibilityEnd t2 = Some (now2 + 10000)"
    using applyPowerup_INVINCIBILITY[of now2 "fst (applyPowerup now1 INVINCIBILITY t)"]
    by (simp add: Let_def)
qed (simp_all add: applyPowerup_INVINCIBILITY)

theorem invincibility_timer_checks_expiry_witness:
  "(1000::int) < 4000
   \<and> snd (applyPowerup 1000 INVINCIBILITY
        (fst (new_Tank ''t1'' None None None None False
               (initial_world (\<lambda>_. 0) (\<lambda>_. ''u'') (\<lambda>_. 0))))) =
       [\<lparr>delay = 10000, callback = InvincibilityOff (1000 + 10000)\<rparr>]
   \<and> (let t2 = fst (applyPowerup 4000 INVINCIBILITY (fst (applyPowerup 1000 INVINCIBILITY
                 (fst (new_Tank ''t1'' None None None None False
                        (initial_world (\<lambda>_. 0) (\<lambda>_. ''u'') (\<lambda>_. 0)))))))
       in run_callback (InvincibilityOff (1000 + 10000)) t2 = t2
        \<and> invincible t2 \<and> powerups t2 INVINCIBILITY \<noteq> None
        \<and> invincibilityEnd t2 = Some (4000 + 10000))"
proof -
  have h: "(1000::int) < 4000" by simp
  note th = invincibility_timer_checks_expiry
              [of "fst (new_Tank ''t1'' None None None None False
                         (initial_world (\<lambda>_. 0) (\<lambda>_. ''u'') (\<lambda>_. 0)))" 0 1000 4000]
  note a = th[THEN conjunct2, THEN conjunct2, THEN conjunct1]
  note b = th[THEN conjunct2, THEN conjunct2, THEN conjunct2, THEN conjunct2, THEN mp, OF h]
  from h a b show ?thesis by (intro conjI)
qed

subsection \<open>Scoreboard\<close>

lemma sorted_wrt_sort_key_desc:
  "sorted_wrt (\<lambda>a b. row_score a \<ge> row_score b) (sort_key (\<lambda>r. - row_score r) rows)"
proof -
  have "sorted (map (\<lambda>r. - row_score r) (sort_key (\<lambda>r. - row_score r) rows))"
    by (rule sorted_sort_key)
  then show ?thesis
    by (simp add: sorted_wrt_map sorted_wrt_iff_nth_less)
qed

subsection \<open>What the primitives change\<close>

lemma findSafeSpawnPosition_loop_frame:
  "\<exists>n. snd (findSafeSpawnPosition_loop a w) = w\<lparr>rng_next := n\<rparr>"
proof (induction a w rule: findSafeSpawnPosition_loop.induct)
  case (1 attempts w)
  obtain pos w1 where rp: "randomPosition w = (pos, w1)" by (cases "randomPosition w")
  then have w1: "w1 = w\<lparr>rng_next := Suc (Suc (rng_next w))\<rparr>"
    by (auto simp: randomPosition_def Math_random_def Let_def split: prod.splits)
  show ?case
  proof (cases "\<not> isSafe pos w1 \<and> Suc attempts < 50")
    case True
    with 1[OF rp[symmetric] refl] obtain n where
      "snd (findSafeSpawnPosition_loop (Suc attempts) w1) = w1\<lparr>rng_next := n\<rparr>" by auto
    with True rp w1 show ?thesis
      by (subst findSafeSpawnPosition_loop.simps) (auto simp: Let_def)
  next
    case False
    with rp w1 show ?thesis
      by (subst findSafeSpawnPosition_loop.simps) (auto simp: Let_def intro: exI[of _ "Suc (Suc (rng_next w))"])
  qed
qed

lemma findSafeSpawnPosition_frame:
  "\<exists>n. snd (findSafeSpawnPosition w) = w\<lparr>rng_next := n\<rparr>"
  unfolding findSafeSpawnPosition_def by (rule findSafeSpawnPosition_loop_frame)

lemma respawn_shape:
  "\<exists>pos r n. respawn i w =
     w\<lparr>tanks := (tanks w)[i := respawn_at pos r (tanks w ! i)], rng_next := n,
       timers := timers w @ [(tankId (tanks w ! i), spawnProtection_timer)]\<rparr>"
proof -
  obtain pos w1 where f: "findSafeSpawnPosition w = (pos, w1)" by (cases "findSafeSpawnPosition w")
  with findSafeSpawnPosition_frame[of w] obtain n where w1: "w1 = w\<lparr>rng_next := n\<rparr>" by auto
  have id: "tankId ((tanks w)[i := respawn_at pos r (tanks w ! i)] ! i) = tankId (tanks w ! i)" for r
    by (cases "i < length (tanks w)") (simp_all add: respawn_at_def resetPowerups_def list_update_beyond)
  have "respawn i w =
     w\<lparr>tanks := (tanks w)[i := respawn_at pos (rng w n) (tanks w ! i)], rng_next := Suc n,
       timers := timers w @ [(tankId (tanks w ! i), spawnProtection_timer)]\<rparr>"
    using f w1 id
    by (simp add: respawn_def Let_def Math_random_def modify_tank_def setTimeout_def)
  then show ?thesis by blast
qed

lemma explode_tank_shape:
  assumes "j < length (tanks w)"
  shows "\<exists>t' n tm. explosion_outcome ex ey radius dmg (tanks w ! j) t'
           \<and> explode_tank ex ey radius dmg j w =
               w\<lparr>tanks := (tanks w)[j := t'], rng_next := n, timers := tm,
                 sent := sent w @ death_notices ex ey radius dmg [tanks w ! j]\<rparr>"
proof -
  let ?t = "tanks w ! j"
  let ?d = "?t\<lparr>hp := fsub (hp ?t) (blast_damage ex ey radius dmg ?t)\<rparr>"
  show ?thesis
  proof (cases "blast_reaches ex ey radius ?t")
    case False
    then have "explode_tank ex ey radius dmg j w = w"
      by (auto simp: explode_tank_def blast_reaches_def Let_def)
    moreover have "w = w\<lparr>tanks := (tanks w)[j := ?t], rng_next := rng_next w, timers := timers w,
                 sent := sent w @ death_notices ex ey radius dmg [?t]\<rparr>"
      using False by (simp add: death_notices_def blast_kills_def)
    moreover have "explosion_outcome ex ey radius dmg ?t ?t"
      using False by (simp add: explosion_outcome_def)
    ultimately show ?thesis by metis
  next
    case True
    show ?thesis
    proof (cases "blast_kills ex ey radius dmg ?t")
      case False
      with True assms have "explode_tank ex ey radius dmg j w = w\<lparr>tanks := (tanks w)[j := ?d]\<rparr>"
        by (auto simp: explode_tank_def blast_reaches_def blast_kills_def blast_damage_def
            Let_def modify_tank_def)
      moreover have "w\<lparr>tanks := (tanks w)[j := ?d]\<rparr> =
            w\<lparr>tanks := (tanks w)[j := ?d], rng_next := rng_next w, timers := timers w,
                 sent := sent w @ death_notices ex ey radius dmg [?t]\<rparr>"
        using False by (simp add: death_notices_def)
      moreover have "explosion_outcome ex ey radius dmg ?t ?d"
        using True False by (simp add: explosion_outcome_def)
      ultimately show ?thesis by metis
    next
      case kills: True
      let ?w1 = "w\<lparr>tanks := (tanks w)[j := ?d]\<rparr>"
      obtain pos r n where rs: "respawn j ?w1 =
          ?w1\<lparr>tanks := (tanks ?w1)[j := respawn_at pos r (tanks ?w1 ! j)], rng_next := n,
               timers := timers ?w1 @ [(tankId (tanks ?w1 ! j), spawnProtection_timer)]\<rparr>"
        using respawn_shape[of j ?w1] by blast
      have "explode_tank ex ey radius dmg j w =
              broadcast (msg ''tankDeath''
                 [(''tankId'', JStr (tankId (tanks (respawn j ?w1) ! j))), (''killer'', JNull)])
                (respawn j ?w1)"
        using True kills assms
        by (auto simp: explode_tank_def blast_reaches_def blast_kills_def blast_damage_def
            Let_def modify_tank_def)
      also have "\<dots> = w\<lparr>tanks := (tanks w)[j := respawn_at pos r ?d], rng_next := n,
                 timers := timers w @ [(tankId ?t, spawnProtection_timer)],
                 sent := sent w @ death_notices ex ey radius dmg [?t]\<rparr>"
        using assms kills
        by (simp add: rs broadcast_def death_notices_def death_notice_def respawn_at_def
            resetPowerups_def)
      finally have "explode_tank ex ey radius dmg j w = \<dots>" .
      moreover have "explosion_outcome ex ey radius dmg ?t (respawn_at pos r ?d)"
        using True kills by (auto simp: explosion_outcome_def)
      ultimately show ?thesis by metis
    qed
  qed
qed

lemma explode_fold_shape:
  "n \<le> length (tanks w) \<Longrightarrow>
     \<exists>vs m tm. length vs = n
        \<and> list_all2 (explosion_outcome ex ey radius dmg) (take n (tanks w)) vs
        \<and> fold (explode_tank ex ey radius dmg) [0..<n] w =
            w\<lparr>tanks := vs @ drop n (tanks w), rng_next := m, timers := tm,
              sent := sent w @ death_notices ex ey radius dmg (take n (tanks w))\<rparr>"
proof (induction n)
  case 0
  have a: "length ([] :: tank list) = 0"
    and b: "list_all2 (explosion_outcome ex ey radius dmg) (take 0 (tanks w)) []"
    and c: "fold (explode_tank ex ey radius dmg) [0..<0] w =
              w\<lparr>tanks := [] @ drop 0 (tanks w), rng_next := rng_next w, timers := timers w,
                sent := sent w @ death_notices ex ey radius dmg (take 0 (tanks w))\<rparr>"
    by (simp_all add: death_notices_def)
  from a b c show ?case by blast
next
  case (Suc n)
  then have n: "n < length (tanks w)" by simp
  from Suc obtain vs m tm where vs: "length vs = n"
      "list_all2 (explosion_outcome ex ey radius dmg) (take n (tanks w)) vs"
      "fold (explode_tank ex ey radius dmg) [0..<n] w =
         w\<lparr>tanks := vs @ drop n (tanks w), rng_next := m, timers := tm,
           sent := sent w @ death_notices ex ey radius dmg (take n (tanks w))\<rparr>"
    by auto
  let ?w' = "w\<lparr>tanks := vs @ drop n (tanks w), rng_next := m, timers := tm,
           sent := sent w @ death_notices ex ey radius dmg (take n (tanks w))\<rparr>"
  have nth: "tanks ?w' ! n = tanks w ! n" using vs(1) n by (simp add: nth_append)
  have len: "n < length (tanks ?w')" using vs(1) n by simp
  from explode_tank_shape[OF len, of ex ey radius dmg] nth obtain t' m' tm' where t':
      "explosion_outcome ex ey radius dmg (tanks w ! n) t'"
      "explode_tank ex ey radius dmg n ?w' =
         ?w'\<lparr>tanks := (tanks ?w')[n := t'], rng_next := m', timers := tm',
             sent := sent ?w' @ death_notices ex ey radius dmg [tanks w ! n]\<rparr>"
    by auto
  have upd: "(vs @ drop n (tanks w))[n := t'] = (vs @ [t']) @ drop (Suc n) (tanks w)"
    using vs(1) n by (simp add: list_update_append Cons_nth_drop_Suc[symmetric])
  have tk: "take (Suc n) (tanks w) = take n (tanks w) @ [tanks w ! n]"
    using n by (simp add: take_Suc_conv_app_nth)
  have "fold (explode_tank ex ey radius dmg) [0..<Suc n] w =
          w\<lparr>tanks := (vs @ [t']) @ drop (Suc n) (tanks w), rng_next := m', timers := tm',
            sent := sent w @ death_notices ex ey radius dmg (take (Suc n) (tanks w))\<rparr>"
    using vs(3) t'(2) upd tk by (simp add: death_notices_def)
  moreover have "list_all2 (explosion_outcome ex ey radius dmg) (take (Suc n) (tanks w)) (vs @ [t'])"
    using vs(2) t'(1) tk by (simp add: list_all2_appendI)
  moreover have "length (vs @ [t']) = Suc n" using vs(1) by simp
  ultimately show ?case by blast
qed

lemma createExplosion_shape:
  "\<exists>vs m tm. list_all2 (explosion_outcome ex ey radius dmg) (tanks w) vs
      \<and> createExplosion ex ey radius dmg w =
          w\<lparr>tanks := vs, rng_next := m, timers := tm,
            sent := sent w @ death_notices ex ey radius dmg (tanks w)
                    @ [(Everyone, msg ''explosion''
                         [(''x'', JNum ex), (''y'', JNum ey), (''radius'', JNum radius)])]\<rparr>"
proof -
  from explode_fold_shape[of "length (tanks w)" w ex ey radius dmg]
  obtain vs m tm where vs: "list_all2 (explosion_outcome ex ey radius dmg) (tanks w) vs"
     "fold (explode_tank ex ey radius dmg) [0..<length (tanks w)] w =
            w\<lparr>tanks := vs, rng_next := m, timers := tm,
              sent := sent w @ death_notices ex ey radius dmg (tanks w)\<rparr>"
    by auto
  have "createExplosion ex ey radius dmg w =
          w\<lparr>tanks := vs, rng_next := m, timers := tm,
            sent := sent w @ death_notices ex ey radius dmg (tanks w)
                    @ [(Everyone, msg ''explosion''
                         [(''x'', JNum ex), (''y'', JNum ey), (''radius'', JNum radius)])]\<rparr>"
    by (simp add: createExplosion_def vs(2) broadcast_def)
  with vs(1) show ?thesis by blast
qed

subsection \<open>Tank-wise relations between two worlds\<close>

lemma tick_kept_refl [simp]: "tick_kept g t t"
  by (simp add: tick_kept_def)

lemma damage_kept_refl [simp]: "damage_kept g t t"
  by (simp add: damage_kept_def)

lemma tick_kept_trans: "tick_kept g a b \<Longrightarrow> tick_kept g b c \<Longrightarrow> tick_kept g a c"
  by (auto simp: tick_kept_def)

lemma damage_kept_trans: "damage_kept g a b \<Longrightarrow> damage_kept g b c \<Longrightarrow> damage_kept g a c"
  by (auto simp: damage_kept_def protected_def intro: tick_kept_trans)

lemma tick_kept_weaken: "tick_kept g a b \<Longrightarrow> (g' \<Longrightarrow> g) \<Longrightarrow> tick_kept g' a b"
  by (auto simp: tick_kept_def)

lemma damage_kept_weaken: "damage_kept g a b \<Longrightarrow> (g' \<Longrightarrow> g) \<Longrightarrow> damage_kept g' a b"
  by (auto simp: damage_kept_def intro: tick_kept_weaken)

lemma damage_kept_tick_kept: "damage_kept g a b \<Longrightarrow> tick_kept g a b"
  by (simp add: damage_kept_def)

lemma list_all2_same: "(\<And>v. R v v) \<Longrightarrow> list_all2 R xs xs"
  by (simp add: list_all2_conv_all_nth)

lemma list_all2_update_right:
  assumes "\<And>v. R v v" and "i < length xs \<Longrightarrow> R (xs ! i) v"
  shows "list_all2 R xs (xs[i := v])"
  unfolding list_all2_conv_all_nth
proof (intro conjI allI impI)
  fix k assume "k < length xs"
  then show "R (xs ! k) (xs[i := v] ! k)"
    using assms by (cases "k = i") simp_all
qed simp

lemma list_all2_tick_trans:
  "list_all2 (tick_kept g) xs ys \<Longrightarrow> list_all2 (tick_kept g) ys zs
     \<Longrightarrow> list_all2 (tick_kept g) xs zs"
  by (erule (1) list_all2_trans[rotated]) (rule tick_kept_trans)

lemma list_all2_damage_trans:
  "list_all2 (damage_kept g) xs ys \<Longrightarrow> list_all2 (damage_kept g) ys zs
     \<Longrightarrow> list_all2 (damage_kept g) xs zs"
  by (erule (1) list_all2_trans[rotated]) (rule damage_kept_trans)

lemma list_all2_damage_weaken:
  "list_all2 (damage_kept g) xs ys \<Longrightarrow> (g' \<Longrightarrow> g) \<Longrightarrow> list_all2 (damage_kept g') xs ys"
  by (erule list_all2_mono) (rule damage_kept_weaken)

lemma list_all2_damage_tick:
  "list_all2 (damage_kept g) xs ys \<Longrightarrow> list_all2 (tick_kept g) xs ys"
  by (erule list_all2_mono) (rule damage_kept_tick_kept)

lemma damage_then_respawn_kept:
  assumes "\<not> protected t" and "0 \<le> d \<or> \<not> g"
  shows "damage_kept g t (if fsub (hp t) d \<le> 0 then respawn_at pos r (t\<lparr>hp := fsub (hp t) d\<rparr>)
                          else t\<lparr>hp := fsub (hp t) d\<rparr>)"
proof -
  have "fsub (hp t) d \<le> BASE_HEALTH" if "g" "hp t \<le> BASE_HEALTH"
    using that assms(2) by (auto intro: fsub_le_BASE_HEALTH)
  with assms(1) show ?thesis
    by (auto simp: damage_kept_def tick_kept_def tank_ok_def respawn_at_def resetPowerups_def)
qed

lemma explosion_outcome_kept:
  assumes "explosion_outcome ex ey radius dmg t t'"
  shows "damage_kept (0 \<le> dmg) t t'"
proof (cases "blast_reaches ex ey radius t")
  case False
  with assms show ?thesis by (simp add: explosion_outcome_def)
next
  case True
  then have np: "\<not> protected t" and d: "distance \<lparr>x = ex, y = ey\<rparr> t < radius"
    by (auto simp: blast_reaches_def protected_def)
  have nn: "0 \<le> blast_damage ex ey radius dmg t \<or> \<not> 0 \<le> dmg"
    using blast_damage_nonneg[OF _ d] by blast
  from assms True obtain pos r where
    "t' = (if fsub (hp t) (blast_damage ex ey radius dmg t) \<le> 0
           then respawn_at pos r (t\<lparr>hp := fsub (hp t) (blast_damage ex ey radius dmg t)\<rparr>)
           else t\<lparr>hp := fsub (hp t) (blast_damage ex ey radius dmg t)\<rparr>)"
    by (auto simp: explosion_outcome_def blast_kills_def split: if_splits)
  with damage_then_respawn_kept[OF np nn] show ?thesis by simp
qed

lemma createExplosion_kept:
  "list_all2 (damage_kept (0 \<le> dmg)) (tanks w) (tanks (createExplosion ex ey radius dmg w))
   \<and> bullets (createExplosion ex ey radius dmg w) = bullets w
   \<and> obstacles (createExplosion ex ey radius dmg w) = obstacles w
   \<and> world_powerups (createExplosion ex ey radius dmg w) = world_powerups w
   \<and> bots (createExplosion ex ey radius dmg w) = bots w"
proof -
  from createExplosion_shape[of ex ey radius dmg w] obtain vs m tm s where
    vs: "list_all2 (explosion_outcome ex ey radius dmg) (tanks w) vs"
    and eq: "createExplosion ex ey radius dmg w = w\<lparr>tanks := vs, rng_next := m, timers := tm, sent := s\<rparr>"
    by blast
  from vs have "list_all2 (damage_kept (0 \<le> dmg)) (tanks w) vs"
    by (rule list_all2_mono) (rule explosion_outcome_kept)
  then show ?thesis by (simp add: eq)
qed

subsection \<open>A small run for the closed instances\<close>

lemmas run_defs =
  run_def on_connection_def on_message_def esp32Join_def device_identifier_def existing_tank_def
  new_Tank_def findSafeSpawnPosition_def findSafeSpawnPosition_loop.simps[of 0]
  randomPosition_def Math_random_def uuidv4_def Date_now_def initial_world_def isSafe_def
  validateTankColor_def randomBrightColor_def setTimeout_def sanitizeTankName_def pick_def
  brightColors_def tanks_set_def tank_index_def modify_client_def sendTo_open_def sendTo_def
  tank_toJSON_def updateScoreboard_def broadcast_def fire_timer_def splice1_def modify_tank_def
  spawnProtection_timer_def trim_def is_space_def

text \<open>One device joins and its spawn protection runs out: one tank, at (50, 50), with
  100 hit points and no protection.\<close>

lemma one_tank_run:
  "tanks (run [Connected ''10.0.0.1'',
         Message 0 (Esp32Join \<lparr>join_deviceId = Some ''dev1'', join_name = Some ''Ann'',
            join_primaryColor = None, join_secondaryColor = None, join_avatarUrl = None\<rparr>),
         Timeout 0]
         (initial_world (\<lambda>_. 0) (\<lambda>_. ''u'') (\<lambda>_. 0))) =
     [\<lparr>x = 50, y = 50, tankId = ''u'', name = ''Ann'', primaryColor = ''#FF5722'',
       secondaryColor = ''#FF5722'', avatarUrl = [], angle = 0, hp = 100, maxHp = 100,
       speed = 3, damage = 25, fireRange = 500, fireRate = 500, lastFire = 0, score = 0,
       kills = 0, deaths = 0, isBot = False, spawnProtection = False, invincible = False,
       invincibilityEnd = None, powerups = (\<lambda>_. None),
       moving = \<lparr>up = False, down = False, left = False, right = False\<rparr>,
       deviceId = Some ''dev1'', ws = Some 0\<rparr>]"
  by (simp add: run_defs Let_def config split: prod.splits)

text \<open>Distances along an axis between points whose coordinates differ by a small integer
  are exact.\<close>

lemma distance_same_x:
  assumes "x a = x b" and "y a - y b = of_int n" and "n * n < 2 ^ 53"
  shows "distance a b = of_int \<bar>n\<bar>"
proof -
  have "\<bar>n\<bar> \<le> n * n"
  proof (cases "n = 0")
    case True
    then show ?thesis by simp
  next
    case False
    then have "1 \<le> \<bar>n\<bar>" by simp
    then have "\<bar>n\<bar> * 1 \<le> \<bar>n\<bar> * \<bar>n\<bar>" by (intro mult_left_mono) simp_all
    then show ?thesis by (simp only: abs_mult_self_eq mult_1_right)
  qed
  with assms(3) have n: "\<bar>n\<bar> < 2 ^ 53" by linarith
  then have n': "\<bar>\<bar>n\<bar>\<bar> < 2 ^ 53" by simp
  have nn: "\<bar>n * n\<bar> < 2 ^ 53" using assms(3) by (simp add: abs_mult_self_eq)
  have dx: "fsub (x a) (x b) = 0" using assms(1) by (simp add: fsub_def)
  have dy: "fsub (y a) (y b) = of_int n" using fl_of_int[OF n] by (simp add: fsub_def assms(2))
  have sq: "fmul (of_int n) (of_int n) = of_int (n * n)"
    using fl_of_int[OF nn] by (simp add: fmul_def)
  have sm: "fadd 0 (of_int (n * n)) = of_int (n * n)"
    using fl_of_int[OF nn] by (simp add: fadd_def)
  have "sqrt (of_int (n * n)) = of_int \<bar>n\<bar>" by simp
  then have rt: "fsqrt (of_int (n * n)) = of_int \<bar>n\<bar>"
    using fl_of_int[OF n'] by (simp only: fsqrt_def)
  have z: "fmul 0 0 = 0" by (simp add: fmul_def)
  show ?thesis
    by (simp only: distance_def Let_def dx dy z sq sm rt)
qed

lemma createExplosion_nth:
  assumes "i < length (tanks w)"
  shows "length (tanks (createExplosion ex ey radius dmg w)) = length (tanks w)
       \<and> explosion_outcome ex ey radius dmg (tanks w ! i)
           (tanks (createExplosion ex ey radius dmg w) ! i)"
proof -
  from createExplosion_shape[of ex ey radius dmg w] obtain vs m tm s where
    vs: "list_all2 (explosion_outcome ex ey radius dmg) (tanks w) vs"
    and eq: "createExplosion ex ey radius dmg w = w\<lparr>tanks := vs, rng_next := m, timers := tm, sent := s\<rparr>"
    by blast
  from vs assms show ?thesis
    by (simp add: eq list_all2_lengthD[symmetric] list_all2_nthD)
qed

lemma distance_same_point [simp]: "x a = x b \<Longrightarrow> y a = y b \<Longrightarrow> distance a b = 0"
  by (simp add: distance_def fl_ops)

lemma fl_half: "fl (1 / 2) = 1 / 2"
  by (simp add: fl_eval)

text \<open>The damage computed differs from the exact \<open>dmg * (1 - d / radius)\<close> by the three
  roundings only.\<close>

lemma blast_damage_error:
  assumes "0 \<le> dmg" and "0 \<le> d" and "d < radius"
  shows "\<bar>fmul dmg (fsub 1 (fdiv d radius)) - dmg * (1 - d / radius)\<bar>
           \<le> dmg / 2 ^ 51 + 1 / 2 ^ 1075"
proof -
  let ?q = "d / radius" and ?q1 = "fdiv d radius"
  let ?s = "1 - ?q1" and ?s1 = "fsub 1 ?q1"
  let ?p = "dmg * ?s1" and ?p1 = "fmul dmg ?s1"
  have c: "(1::real) / 2 ^ 53 + 1 / 2 ^ 1075 \<le> 3 / 2 ^ 54" by simp
  have q: "0 \<le> ?q" "?q \<le> 1" using assms(2,3) by (simp_all add: field_simps)
  have q1: "0 \<le> ?q1" "?q1 \<le> 1"
    using fl_nonneg[OF q(1)] fl_le_of_nat[of ?q 1] q(2) by (simp_all add: fdiv_def)
  have "\<bar>?q1 - ?q\<bar> \<le> \<bar>?q\<bar> / 2 ^ 53 + 1 / 2 ^ 1075"
    unfolding fdiv_def by (rule fl_error_rel)
  also have "\<dots> \<le> 1 / 2 ^ 53 + 1 / 2 ^ 1075" using q by (simp add: divide_right_mono)
  finally have eq: "\<bar>?q1 - ?q\<bar> \<le> 3 / 2 ^ 54" using c by linarith
  have s: "0 \<le> ?s" "?s \<le> 1" using q1 by simp_all
  have s1: "0 \<le> ?s1" "?s1 \<le> 1"
    using fl_nonneg[OF s(1)] fl_le_of_nat[of ?s 1] s(2) by (simp_all add: fsub_def)
  have "\<bar>?s1 - ?s\<bar> \<le> \<bar>?s\<bar> / 2 ^ 53 + 1 / 2 ^ 1075"
    unfolding fsub_def by (rule fl_error_rel)
  also have "\<dots> \<le> 1 / 2 ^ 53 + 1 / 2 ^ 1075" using s by (simp add: divide_right_mono)
  finally have es: "\<bar>?s1 - ?s\<bar> \<le> 3 / 2 ^ 54" using c by linarith
  have p: "0 \<le> ?p" "?p \<le> dmg"
    using assms(1) s1 by (simp_all add: mult_left_le)
  have "\<bar>?p1 - ?p\<bar> \<le> \<bar>?p\<bar> / 2 ^ 53 + 1 / 2 ^ 1075"
    unfolding fmul_def by (rule fl_error_rel)
  also have "\<dots> \<le> dmg / 2 ^ 53 + 1 / 2 ^ 1075" using p by (simp add: divide_right_mono)
  finally have ep: "\<bar>?p1 - ?p\<bar> \<le> dmg / 2 ^ 53 + 1 / 2 ^ 1075" .
  have a: "dmg * \<bar>?s1 - ?s\<bar> \<le> dmg * (3 / 2 ^ 54)"
    using es assms(1) by (rule mult_left_mono)
  have b: "dmg * \<bar>?q1 - ?q\<bar> \<le> dmg * (3 / 2 ^ 54)"
    using eq assms(1) by (rule mult_left_mono)
  define A B C where "A = ?p1 - ?p" and "B = dmg * (?s1 - ?s)" and "C = dmg * (?q1 - ?q)"
  have "?p1 - dmg * (1 - ?q) = A + B - C"
    by (simp add: A_def B_def C_def algebra_simps)
  then have "\<bar>?p1 - dmg * (1 - ?q)\<bar> \<le> \<bar>A\<bar> + \<bar>B\<bar> + \<bar>C\<bar>"
    by linarith
  then have "\<bar>?p1 - dmg * (1 - ?q)\<bar> \<le> \<bar>?p1 - ?p\<bar> + \<bar>dmg * (?s1 - ?s)\<bar> + \<bar>dmg * (?q1 - ?q)\<bar>"
    by (simp only: A_def B_def C_def)
  also have "\<dots> = \<bar>?p1 - ?p\<bar> + dmg * \<bar>?s1 - ?s\<bar> + dmg * \<bar>?q1 - ?q\<bar>"
    using assms(1) by (simp add: abs_mult)
  also have "\<dots> \<le> dmg / 2 ^ 53 + 1 / 2 ^ 1075 + dmg * (3 / 2 ^ 54) + dmg * (3 / 2 ^ 54)"
    using ep a b by linarith
  also have "\<dots> = dmg / 2 ^ 51 + 1 / 2 ^ 1075" by simp
  finally show ?thesis .
qed

text \<open>
  Claim C7, with the arithmetic of the program. In an explosion of peak damage \<open>dmg\<close> and
  radius \<open>radius\<close> at \<open>(ex, ey)\<close>, a tank without spawn protection or invincibility at
  distance \<open>d < radius\<close> (as \<^verbatim>\<open>distance\<close> returns it) has the double
  \<^verbatim>\<open>dmg * (1 - d / radius)\<close> taken from its hit points, each operation rounded: it is left
  with the rounded difference when that is positive, and otherwise respawns; a tank at
  distance \<open>d \<ge> radius\<close> is not changed. For \<open>dmg \<ge> 0\<close> that double is not negative and
  differs from the exact \<open>dmg * (1 - d / radius)\<close> by at most \<open>dmg / 2\<^sup>5\<^sup>1 + 1 / 2\<^sup>1\<^sup>0\<^sup>7\<^sup>5\<close>.
\<close>

theorem explosion_damage_linear_falloff:
  assumes "i < length (tanks w)"
  shows "let t = tanks w ! i;
             t' = tanks (createExplosion ex ey radius dmg w) ! i;
             d = distance \<lparr>x = ex, y = ey\<rparr> t;
             damage = fmul dmg (fsub 1 (fdiv d radius))
         in length (tanks (createExplosion ex ey radius dmg w)) = length (tanks w)
          \<and> (\<not> spawnProtection t \<and> \<not> invincible t \<and> d < radius
               \<and> 0 < fsub (hp t) damage
               \<longrightarrow> t' = t\<lparr>hp := fsub (hp t) damage\<rparr>)
          \<and> (\<not> spawnProtection t \<and> \<not> invincible t \<and> d < radius
               \<and> fsub (hp t) damage \<le> 0
               \<longrightarrow> (\<exists>pos r. t' = respawn_at pos r (t\<lparr>hp := fsub (hp t) damage\<rparr>)))
          \<and> (d \<ge> radius \<longrightarrow> t' = t)
          \<and> (0 \<le> dmg \<and> d < radius
               \<longrightarrow> 0 \<le> damage
                 \<and> \<bar>damage - dmg * (1 - d / radius)\<bar> \<le> dmg / 2 ^ 51 + 1 / 2 ^ 1075)"
proof -
  let ?t = "tanks w ! i"
  let ?d = "distance \<lparr>x = ex, y = ey\<rparr> ?t"
  have e: "0 \<le> dmg \<and> ?d < radius
               \<longrightarrow> 0 \<le> fmul dmg (fsub 1 (fdiv ?d radius))
                 \<and> \<bar>fmul dmg (fsub 1 (fdiv ?d radius)) - dmg * (1 - ?d / radius)\<bar>
                     \<le> dmg / 2 ^ 51 + 1 / 2 ^ 1075"
    using blast_damage_nonneg[of dmg ex ey ?t radius]
      blast_damage_error[of dmg ?d radius] distance_nonneg[of "\<lparr>x = ex, y = ey\<rparr>" ?t]
    by (simp add: blast_damage_def)
  from createExplosion_nth[OF assms, of ex ey radius dmg] e show ?thesis
    unfolding Let_def
    by (auto simp: explosion_outcome_def blast_reaches_def blast_kills_def blast_damage_def)
qed

text \<open>One tank with 100 hit points at (50, 50): an explosion of radius 150 and damage 100
  at distance 75 takes 50, at distance 0 it takes all and the tank respawns, at distance
  350 it takes nothing.\<close>

theorem explosion_damage_linear_falloff_witness:
  "(let w = run [Connected ''10.0.0.1'',
         Message 0 (Esp32Join \<lparr>join_deviceId = Some ''dev1'', join_name = Some ''Ann'',
            join_primaryColor = None, join_secondaryColor = None, join_avatarUrl = None\<rparr>),
         Timeout 0]
         (initial_world (\<lambda>_. 0) (\<lambda>_. ''u'') (\<lambda>_. 0))
    in 0 < length (tanks w)
     \<and> hp (tanks w ! 0) = 100
     \<and> \<not> spawnProtection (tanks w ! 0) \<and> \<not> invincible (tanks w ! 0)
     \<and> distance \<lparr>x = 50, y = 125\<rparr> (tanks w ! 0) = 75
     \<and> fmul 100 (fsub 1 (fdiv 75 150)) = 50
     \<and> hp (tanks (createExplosion 50 125 150 100 w) ! 0) = 50
     \<and> distance \<lparr>x = 50, y = 50\<rparr> (tanks w ! 0) = 0
     \<and> fsub 100 (fmul 100 (fsub 1 (fdiv 0 150))) \<le> 0
     \<and> hp (tanks (createExplosion 50 50 150 100 w) ! 0) = 100
     \<and> deaths (tanks (createExplosion 50 50 150 100 w) ! 0) = 1
     \<and> distance \<lparr>x = 50, y = 400\<rparr> (tanks w ! 0) = 350
     \<and> tanks (createExplosion 50 400 150 100 w) ! 0 = tanks w ! 0)"
proof -
  let ?w = "run [Connected ''10.0.0.1'',
         Message 0 (Esp32Join \<lparr>join_deviceId = Some ''dev1'', join_name = Some ''Ann'',
            join_primaryColor = None, join_secondaryColor = None, join_avatarUrl = None\<rparr>),
         Timeout 0]
         (initial_world (\<lambda>_. 0) (\<lambda>_. ''u'') (\<lambda>_. 0))"
  have len: "0 < length (tanks ?w)" by (simp add: one_tank_run)
  have d1: "distance \<lparr>x = 50, y = 125\<rparr> (tanks ?w ! 0) = 75"
    using distance_same_x[of "\<lparr>x = 50, y = 125\<rparr>" "tanks ?w ! 0" 75] by (simp add: one_tank_run)
  have d0: "distance \<lparr>x = 50, y = 50\<rparr> (tanks ?w ! 0) = 0"
    by (simp add: one_tank_run)
  have d2: "distance \<lparr>x = 50, y = 400\<rparr> (tanks ?w ! 0) = 350"
    using distance_same_x[of "\<lparr>x = 50, y = 400\<rparr>" "tanks ?w ! 0" 350] by (simp add: one_tank_run)
  have t: "hp (tanks ?w ! 0) = 100" "\<not> spawnProtection (tanks ?w ! 0)" "\<not> invincible (tanks ?w ! 0)"
    "deaths (tanks ?w ! 0) = 0"
    by (simp_all add: one_tank_run)
  have v1: "fmul 100 (fsub 1 (fdiv 75 150)) = 50"
    by (simp add: fl_ops fl_half fl_numeral)
  have v0: "fsub 100 (fmul 100 (fsub 1 (fdiv 0 150))) \<le> 0"
    by (simp add: fl_ops fl_numeral)
  have a: "hp (tanks (createExplosion 50 125 150 100 ?w) ! 0) = 50"
    using explosion_damage_linear_falloff[OF len, of 50 125 150 100] d1 t v1
    by (simp add: Let_def fsub_def fl_numeral)
  from explosion_damage_linear_falloff[OF len, of 50 50 150 100] d0 t v0
  obtain pos r where
    "tanks (createExplosion 50 50 150 100 ?w) ! 0
       = respawn_at pos r ((tanks ?w ! 0)\<lparr>hp := fsub 100 (fmul 100 (fsub 1 (fdiv 0 150)))\<rparr>)"
    by (auto simp: Let_def)
  then have k: "hp (tanks (createExplosion 50 50 150 100 ?w) ! 0) = 100"
    "deaths (tanks (createExplosion 50 50 150 100 ?w) ! 0) = 1"
    using t(4) by (simp_all add: respawn_at_def resetPowerups_def config)
  have b: "tanks (createExplosion 50 400 150 100 ?w) ! 0 = tanks ?w ! 0"
    using explosion_damage_linear_falloff[OF len, of 50 400 150 100] d2
    by (simp add: Let_def)
  from len t(1,2,3) d1 v1 a d0 v0 k d2 b show ?thesis unfolding Let_def by (intro conjI)
qed

text \<open>
  Claim C7 as it is worded, with the damage exactly \<open>D * (1 - d / r)\<close>, fails by the
  rounding. A tank with 8 hit points and no protection stands at distance 138 from an
  explosion of radius 150 and damage 100: the exact damage \<open>100 * (1 - 138 / 150)\<close> is 8,
  which would leave no hit points and make the tank respawn; the program takes
  \<open>8 - 1 / 2\<^sup>4\<^sup>8\<close>, the tank keeps \<open>1 / 2\<^sup>4\<^sup>8\<close> hit points and does not respawn.
\<close>

theorem explosion_damage_rounding_counterexample:
  "(let w0 = run [Connected ''10.0.0.1'',
         Message 0 (Esp32Join \<lparr>join_deviceId = Some ''dev1'', join_name = Some ''Ann'',
            join_primaryColor = None, join_secondaryColor = None, join_avatarUrl = None\<rparr>),
         Timeout 0]
         (initial_world (\<lambda>_. 0) (\<lambda>_. ''u'') (\<lambda>_. 0));
        w = w0\<lparr>tanks := [(tanks w0 ! 0)\<lparr>hp := 8\<rparr>]\<rparr>;
        t = tanks w ! 0;
        t' = tanks (createExplosion 50 188 150 100 w) ! 0
    in hp t = 8 \<and> \<not> spawnProtection t \<and> \<not> invincible t
     \<and> distance \<lparr>x = 50, y = 188\<rparr> t = 138
     \<and> (100::real) * (1 - 138 / 150) = 8
     \<and> fmul 100 (fsub 1 (fdiv 138 150)) = 8 - 1 / 2 ^ 48
     \<and> t' = t\<lparr>hp := 1 / 2 ^ 48\<rparr>
     \<and> hp t - hp t' \<noteq> 100 * (1 - 138 / 150)
     \<and> deaths t' = deaths t \<and> \<not> spawnProtection t')"
proof -
  let ?w0 = "run [Connected ''10.0.0.1'',
         Message 0 (Esp32Join \<lparr>join_deviceId = Some ''dev1'', join_name = Some ''Ann'',
            join_primaryColor = None, join_secondaryColor = None, join_avatarUrl = None\<rparr>),
         Timeout 0]
         (initial_world (\<lambda>_. 0) (\<lambda>_. ''u'') (\<lambda>_. 0))"
  let ?w = "?w0\<lparr>tanks := [(tanks ?w0 ! 0)\<lparr>hp := 8\<rparr>]\<rparr>"
  let ?t = "tanks ?w ! 0"
  let ?t' = "tanks (createExplosion 50 188 150 100 ?w) ! 0"
  have t: "hp ?t = 8" "\<not> spawnProtection ?t" "\<not> invincible ?t"
    by (simp_all add: one_tank_run)
  have d: "distance \<lparr>x = 50, y = 188\<rparr> ?t = 138"
    using distance_same_x[of "\<lparr>x = 50, y = 188\<rparr>" ?t 138] by (simp add: one_tank_run)
  have ex: "(100::real) * (1 - 138 / 150) = 8" by simp
  have v: "fmul 100 (fsub 1 (fdiv 138 150)) = 8 - 1 / 2 ^ 48"
    by (simp add: fl_ops fl_eval)
  have len: "0 < length (tanks ?w)" by simp
  have "explosion_outcome 50 188 150 100 ?t ?t'"
    using createExplosion_nth[OF len, of 50 188 150 100] by simp
  then have o: "?t' = ?t\<lparr>hp := 1 / 2 ^ 48\<rparr>"
    using t d
    by (simp add: explosion_outcome_def blast_reaches_def blast_kills_def blast_damage_def
          fl_ops fl_eval)
  have n: "hp ?t - hp ?t' \<noteq> 100 * (1 - 138 / 150)" by (simp add: o t(1))
  have k: "deaths ?t' = deaths ?t" "\<not> spawnProtection ?t'" using t(2) by (simp_all add: o)
  from t d ex v o n k show ?thesis unfolding Let_def by (intro conjI)
qed

subsection \<open>The bullet phase\<close>

lemma first_index_SomeD:
  "first_index P xs = Some a \<Longrightarrow> a < length xs \<and> P (xs ! a)"
proof (induction xs arbitrary: a)
  case Nil then show ?case by simp
next
  case (Cons v vs)
  then show ?case by (cases "P v") (auto split: if_splits)
qed

lemma first_index_None: "first_index P xs = None \<Longrightarrow> \<forall>v \<in> set xs. \<not> P v"
  by (induction xs) (auto split: if_splits)

lemma updateScoreboard_frame:
  "updateScoreboard w = w\<lparr>scoreboard := scoreboard (updateScoreboard w),
                          sent := sent (updateScoreboard w)\<rparr>"
  by (simp add: updateScoreboard_def Let_def broadcast_def)

lemma updateScoreboard_fields [simp]:
  "tanks (updateScoreboard w) = tanks w"
  "bullets (updateScoreboard w) = bullets w"
  "obstacles (updateScoreboard w) = obstacles w"
  "world_powerups (updateScoreboard w) = world_powerups w"
  "bots (updateScoreboard w) = bots w"
  "clients (updateScoreboard w) = clients w"
  by (simp_all add: updateScoreboard_def Let_def broadcast_def)

lemma respawn_fields:
  "bullets (respawn i w) = bullets w"
  "obstacles (respawn i w) = obstacles w"
  "world_powerups (respawn i w) = world_powerups w"
  "bots (respawn i w) = bots w"
  "clients (respawn i w) = clients w"
  "\<exists>pos r. tanks (respawn i w) = (tanks w)[i := respawn_at pos r (tanks w ! i)]"
proof -
  from respawn_shape[of i w] obtain pos r n where
    eq: "respawn i w = w\<lparr>tanks := (tanks w)[i := respawn_at pos r (tanks w ! i)], rng_next := n,
       timers := timers w @ [(tankId (tanks w ! i), spawnProtection_timer)]\<rparr>" by blast
  show "bullets (respawn i w) = bullets w" "obstacles (respawn i w) = obstacles w"
    "world_powerups (respawn i w) = world_powerups w" "bots (respawn i w) = bots w"
    "clients (respawn i w) = clients w"
    by (simp_all add: eq)
  show "\<exists>pos r. tanks (respawn i w) = (tanks w)[i := respawn_at pos r (tanks w ! i)]"
  proof (intro exI)
    show "tanks (respawn i w) = (tanks w)[i := respawn_at pos r (tanks w ! i)]"
      by (simp add: eq)
  qed
qed

lemma createExplosion_sent:
  "sent (createExplosion ex ey radius dmg w) =
     sent w @ death_notices ex ey radius dmg (tanks w)
       @ [(Everyone, msg ''explosion''
             [(''x'', JNum ex), (''y'', JNum ey), (''radius'', JNum radius)])]"
proof -
  from createExplosion_shape[of ex ey radius dmg w] obtain vs m tm where
    "createExplosion ex ey radius dmg w =
          w\<lparr>tanks := vs, rng_next := m, timers := tm,
            sent := sent w @ death_notices ex ey radius dmg (tanks w)
                    @ [(Everyone, msg ''explosion''
                         [(''x'', JNum ex), (''y'', JNum ey), (''radius'', JNum radius)])]\<rparr>"
    by blast
  then show ?thesis by simp
qed

text \<open>
  Claim C8, on the code. A tank with 100 hit points and no protection stands at the
  centre of a barrel's explosion (radius 150, damage 100): its hit points drop to 0, it
  respawns (full hit points, one death, spawn protection), and the message broadcast for
  its death is \<^verbatim>\<open>{type: 'tankDeath', tankId, killer: null}\<close>: a client that reads \<^verbatim>\<open>killerId\<close>
  or \<^verbatim>\<open>wasBot\<close> from it finds neither key.
\<close>

theorem barrel_explosion_death_message:
  "(let w = run [Connected ''10.0.0.1'',
         Message 0 (Esp32Join \<lparr>join_deviceId = Some ''dev1'', join_name = Some ''Ann'',
            join_primaryColor = None, join_secondaryColor = None, join_avatarUrl = None\<rparr>),
         Timeout 0]
         (initial_world (\<lambda>_. 0) (\<lambda>_. ''u'') (\<lambda>_. 0));
        w' = createExplosion 50 50 (explosionRadius (OBSTACLE_TYPES BARREL))
               (explosionDamage (OBSTACLE_TYPES BARREL)) w;
        notice = drop (length (sent w)) (sent w') ! 0
    in hp (tanks w ! 0) = 100
     \<and> \<not> spawnProtection (tanks w ! 0) \<and> \<not> invincible (tanks w ! 0)
     \<and> distance \<lparr>x = 50, y = 50\<rparr> (tanks w ! 0) = 0
     \<and> hp (tanks w ! 0) - 100 * (1 - 0 / 150) \<le> 0
     \<and> hp (tanks w' ! 0) = 100 \<and> deaths (tanks w' ! 0) = deaths (tanks w ! 0) + 1
     \<and> spawnProtection (tanks w' ! 0)
     \<and> notice = (Everyone, JObj [(''type'', JStr ''tankDeath''), (''tankId'', JStr ''u''),
                                  (''killer'', JNull)])
     \<and> json_field ''killer'' (snd notice) = Some JNull
     \<and> json_field ''killerId'' (snd notice) = None
     \<and> json_field ''wasBot'' (snd notice) = None)"
proof -
  let ?w = "run [Connected ''10.0.0.1'',
         Message 0 (Esp32Join \<lparr>join_deviceId = Some ''dev1'', join_name = Some ''Ann'',
            join_primaryColor = None, join_secondaryColor = None, join_avatarUrl = None\<rparr>),
         Timeout 0]
         (initial_world (\<lambda>_. 0) (\<lambda>_. ''u'') (\<lambda>_. 0))"
  let ?w' = "createExplosion 50 50 150 100 ?w"
  have len: "0 < length (tanks ?w)" by (simp add: one_tank_run)
  have d: "distance \<lparr>x = 50, y = 50\<rparr> (tanks ?w ! 0) = 0"
    by (simp add: one_tank_run)
  have t: "hp (tanks ?w ! 0) = 100" "\<not> spawnProtection (tanks ?w ! 0)"
    "\<not> invincible (tanks ?w ! 0)" "deaths (tanks ?w ! 0) = 0" "tankId (tanks ?w ! 0) = ''u''"
    by (simp_all add: one_tank_run)
  have v: "fsub 100 (fmul 100 (fsub 1 (fdiv 0 150))) = 0"
    by (simp add: fl_ops fl_numeral)
  have kills: "blast_kills 50 50 150 100 (tanks ?w ! 0)"
    using d t by (simp add: blast_kills_def blast_reaches_def blast_damage_def v)
  from createExplosion_nth[OF len, of 50 50 150 100] kills d t
  obtain pos r where r: "tanks ?w' ! 0 = respawn_at pos r ((tanks ?w ! 0)\<lparr>hp := 0\<rparr>)"
    by (auto simp: explosion_outcome_def blast_reaches_def blast_kills_def blast_damage_def v)
  have a: "hp (tanks ?w' ! 0) = 100" "deaths (tanks ?w' ! 0) = deaths (tanks ?w ! 0) + 1"
    "spawnProtection (tanks ?w' ! 0)"
    by (simp_all add: r respawn_at_def resetPowerups_def config)
  have ts: "tanks ?w = [tanks ?w ! 0]" by (simp add: one_tank_run)
  have "death_notices 50 50 150 100 (tanks ?w) = [death_notice (tanks ?w ! 0)]"
    by (subst ts) (simp add: death_notices_def kills)
  then have n: "drop (length (sent ?w)) (sent ?w') ! 0 =
      (Everyone, JObj [(''type'', JStr ''tankDeath''), (''tankId'', JStr ''u''), (''killer'', JNull)])"
    by (simp add: createExplosion_sent death_notice_def msg_def t)
  have f: "json_field ''killer'' (snd (drop (length (sent ?w)) (sent ?w') ! 0)) = Some JNull"
    "json_field ''killerId'' (snd (drop (length (sent ?w)) (sent ?w') ! 0)) = None"
    "json_field ''wasBot'' (snd (drop (length (sent ?w)) (sent ?w') ! 0)) = None"
    by (simp_all add: n json_field_def)
  have h: "hp (tanks ?w ! 0) - 100 * (1 - 0 / 150) \<le> 0" using t by simp
  have cfg: "explosionRadius (OBSTACLE_TYPES BARREL) = 150"
    "explosionDamage (OBSTACLE_TYPES BARREL) = 100"
    by simp_all
  note facts = t(1,2,3) d h a n f
  show ?thesis
    unfolding Let_def cfg by (intro conjI) (fact facts)+
qed

lemma modify_tank_fields [simp]:
  "tanks (modify_tank i f w) = (tanks w)[i := f (tanks w ! i)]"
  "bullets (modify_tank i f w) = bullets w"
  "obstacles (modify_tank i f w) = obstacles w"
  "world_powerups (modify_tank i f w) = world_powerups w"
  "bots (modify_tank i f w) = bots w"
  "clients (modify_tank i f w) = clients w"
  by (simp_all add: modify_tank_def)

lemma broadcast_fields [simp]:
  "tanks (broadcast m w) = tanks w"
  "bullets (broadcast m w) = bullets w"
  "obstacles (broadcast m w) = obstacles w"
  "world_powerups (broadcast m w) = world_powerups w"
  "bots (broadcast m w) = bots w"
  "clients (broadcast m w) = clients w"
  by (simp_all add: broadcast_def)

lemma score_kills_kept: "damage_kept g t (t\<lparr>score := s, kills := k\<rparr>)"
  by (simp add: damage_kept_def tick_kept_def tank_ok_def protected_def)

lemma score_kept: "damage_kept g t (t\<lparr>score := s\<rparr>)"
  by (simp add: damage_kept_def tick_kept_def tank_ok_def protected_def)

lemma bullet_hit_tank_kept:
  assumes j: "j < length (tanks w)"
  shows "list_all2 (damage_kept (0 \<le> bulletDamage b)) (tanks w)
           (tanks (snd (bullet_hit_tank b j (h, w))))
       \<and> same_entities w (snd (bullet_hit_tank b j (h, w)))"
proof -
  let ?t = "tanks w ! j"
  let ?g = "0 \<le> bulletDamage b"
  let ?d = "?t\<lparr>hp := fsub (hp ?t) (bulletDamage b)\<rparr>"
  let ?w1 = "modify_tank j (\<lambda>t. t\<lparr>hp := fsub (hp t) (bulletDamage b)\<rparr>) w"
  consider (skip) "tankId ?t = ownerId b \<or> protected ?t \<or> \<not> checkCollision b ?t BULLET_SIZE TANK_SIZE"
    | (hit) "tankId ?t \<noteq> ownerId b" "\<not> protected ?t" "checkCollision b ?t BULLET_SIZE TANK_SIZE"
            "\<not> fsub (hp ?t) (bulletDamage b) \<le> 0"
    | (kill) "tankId ?t \<noteq> ownerId b" "\<not> protected ?t" "checkCollision b ?t BULLET_SIZE TANK_SIZE"
            "fsub (hp ?t) (bulletDamage b) \<le> 0"
    by blast
  then show ?thesis
  proof cases
    case skip
    then have "snd (bullet_hit_tank b j (h, w)) = w"
      by (auto simp: bullet_hit_tank_def Let_def protected_def)
    then show ?thesis by (simp add: same_entities_def list_all2_same)
  next
    case hit
    then have eq: "snd (bullet_hit_tank b j (h, w)) = ?w1"
      using j by (auto simp: bullet_hit_tank_def Let_def protected_def)
    have "damage_kept ?g ?t ?d"
      using hit damage_then_respawn_kept[of ?t "bulletDamage b" ?g] by (cases ?g) auto
    then show ?thesis
      by (simp add: eq same_entities_def list_all2_update_right)
  next
    case kill
    let ?sc = "\<lambda>t::tank. t\<lparr>score := score t + (if isBot (tanks ?w1 ! j) then 50 else 100),
                              kills := kills t + 1\<rparr>"
    let ?w2 = "(case tank_index (ownerId b) ?w1 of None \<Rightarrow> ?w1
               | Some a \<Rightarrow> updateScoreboard (modify_tank a ?sc ?w1))"
    have eq: "snd (bullet_hit_tank b j (h, w)) =
                broadcast (msg ''tankDeath''
                         [(''tankId'', JStr (tankId (tanks (respawn j ?w2) ! j))),
                          (''killerId'', JStr (ownerId b)),
                          (''wasBot'', JBool (isBot (tanks (respawn j ?w2) ! j)))]) (respawn j ?w2)"
      using kill j
      by (cases "tank_index (ownerId b) ?w1")
         (simp_all add: bullet_hit_tank_def Let_def protected_def)
    obtain pos r where rs: "tanks (respawn j ?w2) = (tanks ?w2)[j := respawn_at pos r (tanks ?w2 ! j)]"
      using respawn_fields(6)[of j ?w2] by blast
    have se2: "same_entities w ?w2"
      by (simp add: same_entities_def split: option.splits)
    have len2: "length (tanks ?w2) = length (tanks w)"
      by (simp split: option.splits)
    have other: "damage_kept ?g (tanks w ! k) (tanks ?w2 ! k)"
      if k: "k \<noteq> j" "k < length (tanks w)" for k
    proof -
      have base: "tanks ?w1 ! k = tanks w ! k" "k < length (tanks ?w1)" using k by simp_all
      show ?thesis
      proof (cases "tank_index (ownerId b) ?w1")
        case None
        then show ?thesis using base(1) by simp
      next
        case (Some a)
        then have t2: "tanks ?w2 = (tanks ?w1)[a := ?sc (tanks ?w1 ! a)]" by simp
        show ?thesis
        proof (cases "a = k")
          case True
          then have "tanks ?w2 ! k = ?sc (tanks w ! k)"
            using k base by (simp add: t2 del: modify_tank_fields)
          then show ?thesis by (simp add: score_kills_kept del: modify_tank_fields)
        next
          case False
          then have "tanks ?w2 ! k = tanks w ! k"
            using k base by (simp add: t2 del: modify_tank_fields)
          then show ?thesis by simp
        qed
      qed
    qed
    have atj: "\<exists>sc kl. tanks ?w2 ! j = ?d\<lparr>score := sc, kills := kl\<rparr>"
    proof (cases "tank_index (ownerId b) ?w1")
      case None
      then have "tanks ?w2 ! j = ?d\<lparr>score := score ?d, kills := kills ?d\<rparr>" using j by simp
      then show ?thesis by blast
    next
      case (Some a)
      show ?thesis
      proof (cases "a = j")
        case True
        with Some j have "tanks ?w2 ! j = ?d\<lparr>score := score (?sc ?d), kills := kills (?sc ?d)\<rparr>"
          by simp
        then show ?thesis by blast
      next
        case False
        with Some j have "tanks ?w2 ! j = ?d\<lparr>score := score ?d, kills := kills ?d\<rparr>" by simp
        then show ?thesis by blast
      qed
    qed
    then obtain sc kl where dj: "tanks ?w2 ! j = ?d\<lparr>score := sc, kills := kl\<rparr>" by blast
    have killed: "damage_kept ?g ?t (respawn_at pos r (?d\<lparr>score := sc, kills := kl\<rparr>))"
      using kill(2)
      by (auto simp: damage_kept_def tick_kept_def tank_ok_def respawn_at_def resetPowerups_def)
    have "list_all2 (damage_kept ?g) (tanks w) (tanks (respawn j ?w2))"
      unfolding list_all2_conv_all_nth
    proof (intro conjI allI impI)
      show "length (tanks w) = length (tanks (respawn j ?w2))" by (simp add: rs len2)
      fix k assume k: "k < length (tanks w)"
      show "damage_kept ?g (tanks w ! k) (tanks (respawn j ?w2) ! k)"
      proof (cases "k = j")
        case True
        with j len2 killed dj show ?thesis by (simp add: rs)
      next
        case False
        with k other show ?thesis by (simp add: rs)
      qed
    qed
    moreover have "same_entities w (respawn j ?w2)"
      using se2 by (simp add: same_entities_def respawn_fields)
    ultimately show ?thesis by (simp add: eq same_entities_def)
  qed
qed

text \<open>The tank that a bullet hits, after the test of that bullet against it.\<close>

lemma bullet_hit_tank_at:
  assumes j: "j < length (tanks w)"
    and hit: "tankId (tanks w ! j) \<noteq> ownerId b" "\<not> spawnProtection (tanks w ! j)"
      "\<not> invincible (tanks w ! j)" "checkCollision b (tanks w ! j) BULLET_SIZE TANK_SIZE"
  shows "(0 < fsub (hp (tanks w ! j)) (bulletDamage b) \<longrightarrow>
            tanks (snd (bullet_hit_tank b j (h, w))) ! j
              = (tanks w ! j)\<lparr>hp := fsub (hp (tanks w ! j)) (bulletDamage b)\<rparr>)
       \<and> (fsub (hp (tanks w ! j)) (bulletDamage b) \<le> 0 \<longrightarrow>
            (\<exists>pos r. tanks (snd (bullet_hit_tank b j (h, w))) ! j
              = respawn_at pos r ((tanks w ! j)\<lparr>hp := fsub (hp (tanks w ! j)) (bulletDamage b)\<rparr>)))"
proof (intro conjI impI)
  let ?t = "tanks w ! j"
  let ?d = "?t\<lparr>hp := fsub (hp ?t) (bulletDamage b)\<rparr>"
  let ?w1 = "modify_tank j (\<lambda>t. t\<lparr>hp := fsub (hp t) (bulletDamage b)\<rparr>) w"
  {
    assume "0 < fsub (hp ?t) (bulletDamage b)"
    then have "snd (bullet_hit_tank b j (h, w)) = ?w1"
      using j hit by (auto simp: bullet_hit_tank_def Let_def)
    then show "tanks (snd (bullet_hit_tank b j (h, w))) ! j = ?d" using j by simp
  }
  {
    assume kill: "fsub (hp ?t) (bulletDamage b) \<le> 0"
    let ?sc = "\<lambda>t::tank. t\<lparr>score := score t + (if isBot (tanks ?w1 ! j) then 50 else 100),
                              kills := kills t + 1\<rparr>"
    let ?w2 = "(case tank_index (ownerId b) ?w1 of None \<Rightarrow> ?w1
               | Some a \<Rightarrow> updateScoreboard (modify_tank a ?sc ?w1))"
    have eq: "snd (bullet_hit_tank b j (h, w)) =
                broadcast (msg ''tankDeath''
                         [(''tankId'', JStr (tankId (tanks (respawn j ?w2) ! j))),
                          (''killerId'', JStr (ownerId b)),
                          (''wasBot'', JBool (isBot (tanks (respawn j ?w2) ! j)))]) (respawn j ?w2)"
      using kill j hit
      by (cases "tank_index (ownerId b) ?w1")
         (simp_all add: bullet_hit_tank_def Let_def)
    obtain pos r where rs: "tanks (respawn j ?w2) = (tanks ?w2)[j := respawn_at pos r (tanks ?w2 ! j)]"
      using respawn_fields(6)[of j ?w2] by blast
    have len2: "length (tanks ?w2) = length (tanks w)"
      by (simp split: option.splits)
    have dj: "tanks ?w2 ! j = ?d"
    proof (cases "tank_index (ownerId b) ?w1")
      case None
      then show ?thesis using j by simp
    next
      case (Some a)
      from first_index_SomeD[of "\<lambda>t. tankId t = ownerId b" "tanks ?w1" a] Some
      have "tankId (tanks ?w1 ! a) = ownerId b" by (simp add: tank_index_def)
      moreover have "tankId (tanks ?w1 ! j) \<noteq> ownerId b" using j hit(1) by simp
      ultimately have "a \<noteq> j" by auto
      with Some j show ?thesis by simp
    qed
    have "tanks (snd (bullet_hit_tank b j (h, w))) ! j = respawn_at pos r ?d"
      using j len2 dj by (simp add: eq rs)
    then show "\<exists>pos r. tanks (snd (bullet_hit_tank b j (h, w))) ! j = respawn_at pos r ?d"
      by blast
  }
qed

lemma same_entities_refl [simp]: "same_entities w w"
  by (simp add: same_entities_def)

lemma same_entities_trans: "same_entities a b \<Longrightarrow> same_entities b c \<Longrightarrow> same_entities a c"
  by (simp add: same_entities_def)

lemma bullet_tanks_fold_kept:
  "set js \<subseteq> {..<length (tanks w)} \<Longrightarrow>
     list_all2 (damage_kept (0 \<le> bulletDamage b)) (tanks w)
        (tanks (snd (fold (bullet_hit_tank b) js (h, w))))
     \<and> same_entities w (snd (fold (bullet_hit_tank b) js (h, w)))"
proof (induction js arbitrary: h w)
  case Nil
  then show ?case by (simp add: list_all2_same)
next
  case (Cons j js)
  obtain h' w' where st: "bullet_hit_tank b j (h, w) = (h', w')"
    by (cases "bullet_hit_tank b j (h, w)")
  from Cons.prems have j: "j < length (tanks w)" by simp
  from bullet_hit_tank_kept[OF j, of b h] st
  have one: "list_all2 (damage_kept (0 \<le> bulletDamage b)) (tanks w) (tanks w')"
    "same_entities w w'" by simp_all
  then have "length (tanks w') = length (tanks w)" by (simp add: list_all2_lengthD)
  with Cons.prems have "set js \<subseteq> {..<length (tanks w')}" by simp
  from Cons.IH[OF this, of h'] one show ?case
    by (auto simp: st intro: list_all2_damage_trans same_entities_trans)
qed

lemma Math_random_fields [simp]:
  "tanks (snd (Math_random w)) = tanks w"
  "bullets (snd (Math_random w)) = bullets w"
  "obstacles (snd (Math_random w)) = obstacles w"
  "world_powerups (snd (Math_random w)) = world_powerups w"
  "bots (snd (Math_random w)) = bots w"
  "clients (snd (Math_random w)) = clients w"
  by (simp_all add: Math_random_def)

lemma spawnPowerup_fields:
  "tanks (spawnPowerup px py w) = tanks w"
  "bullets (spawnPowerup px py w) = bullets w"
  "obstacles (spawnPowerup px py w) = obstacles w"
  "bots (spawnPowerup px py w) = bots w"
  "clients (spawnPowerup px py w) = clients w"
  by (auto simp: spawnPowerup_def new_Powerup_def coordinate_or_def randomPosition_def
      Math_random_def uuidv4_def broadcast_def Let_def split: prod.splits option.splits)

lemma explosionDamage_nonneg: "0 \<le> explosionDamage (OBSTACLE_TYPES T)"
  by (cases T) simp_all

lemma createExplosion_kept_True:
  assumes "0 \<le> dmg"
  shows "list_all2 (damage_kept True) (tanks w) (tanks (createExplosion ex ey radius dmg w))"
  using createExplosion_kept[of dmg w ex ey radius] assms
  by (auto elim: list_all2_damage_weaken)

lemma bullet_hit_obstacle_kept:
  "list_all2 (damage_kept True) (tanks w) (tanks (bullet_hit_obstacle b j w))
   \<and> bullets (bullet_hit_obstacle b j w) = bullets w
   \<and> bots (bullet_hit_obstacle b j w) = bots w
   \<and> clients (bullet_hit_obstacle b j w) = clients w"
proof -
  let ?w1 = "w\<lparr>obstacles := (obstacles w)
                  [j := (obstacles w ! j)\<lparr>obstacleHp := fsub (obstacleHp (obstacles w ! j)) (bulletDamage b)\<rparr>]\<rparr>"
  let ?obs = "obstacles ?w1 ! j"
  let ?cfg = "OBSTACLE_TYPES (obstacleType ?obs)"
  let ?w2 = "(case tank_index (ownerId b) ?w1 of None \<Rightarrow> ?w1
             | Some a \<Rightarrow> updateScoreboard
                 (modify_tank a (\<lambda>t. t\<lparr>score := score t + points ?cfg\<rparr>) ?w1))"
  let ?w3 = "(if explosive ?cfg
              then createExplosion (x ?obs) (y ?obs) (explosionRadius ?cfg) (explosionDamage ?cfg) ?w2
              else ?w2)"
  let ?w4 = "(if containsPowerup ?cfg
              then (if rng ?w3 (rng_next ?w3) < 7 / 10
                    then spawnPowerup (Some (x ?obs)) (Some (y ?obs)) (snd (Math_random ?w3))
                    else createExplosion (x ?obs) (y ?obs) 60 30 (snd (Math_random ?w3)))
              else ?w3)"
  have r2: "list_all2 (damage_kept True) (tanks w) (tanks ?w2)"
    "bullets ?w2 = bullets w" "bots ?w2 = bots w" "clients ?w2 = clients w"
    by (auto simp: list_all2_same list_all2_update_right score_kept split: option.splits)
  have r3: "list_all2 (damage_kept True) (tanks ?w2) (tanks ?w3)"
    "bullets ?w3 = bullets ?w2" "bots ?w3 = bots ?w2" "clients ?w3 = clients ?w2"
  proof -
    show "list_all2 (damage_kept True) (tanks ?w2) (tanks ?w3)"
      using createExplosion_kept_True[OF explosionDamage_nonneg]
      by (cases "explosive ?cfg") (simp_all add: list_all2_same del: OBSTACLE_TYPES.simps)
    show "bullets ?w3 = bullets ?w2" "bots ?w3 = bots ?w2"
      using createExplosion_kept by (simp_all del: OBSTACLE_TYPES.simps)
    show "clients ?w3 = clients ?w2"
      using createExplosion_shape[of "x ?obs" "y ?obs" "explosionRadius ?cfg" "explosionDamage ?cfg" ?w2]
      by (cases "explosive ?cfg") (auto simp del: OBSTACLE_TYPES.simps)
  qed
  have r4: "list_all2 (damage_kept True) (tanks ?w3) (tanks ?w4)"
    "bullets ?w4 = bullets ?w3" "bots ?w4 = bots ?w3" "clients ?w4 = clients ?w3"
  proof -
    have e: "list_all2 (damage_kept True) (tanks w') (tanks (createExplosion ex ey 60 30 w'))" for w' ex ey
      by (rule createExplosion_kept_True) simp
    have c: "clients (createExplosion ex ey 60 30 w') = clients w'" for w' ex ey
      using createExplosion_shape[of ex ey 60 30 w'] by auto
    show "list_all2 (damage_kept True) (tanks ?w3) (tanks ?w4)"
      using e[of "snd (Math_random ?w3)"]
      by (simp add: list_all2_same spawnPowerup_fields del: OBSTACLE_TYPES.simps)
    show "bullets ?w4 = bullets ?w3" "bots ?w4 = bots ?w3"
      using createExplosion_kept by (simp_all add: spawnPowerup_fields del: OBSTACLE_TYPES.simps)
    show "clients ?w4 = clients ?w3"
      by (simp add: spawnPowerup_fields c del: OBSTACLE_TYPES.simps)
  qed
  have eq: "bullet_hit_obstacle b j w =
     (if obstacleHp ?obs \<le> 0
      then broadcast (msg ''obstacleDestroyed'' [(''obstacleId'', JStr (obstacleId ?obs))])
             (?w4\<lparr>obstacles := splice1 j (obstacles ?w4)\<rparr>)
      else ?w1)"
    by (cases "tank_index (ownerId b) ?w1")
       (simp_all add: bullet_hit_obstacle_def Let_def Math_random_def split: prod.splits
          del: OBSTACLE_TYPES.simps)
  have all: "list_all2 (damage_kept True) (tanks w) (tanks ?w4)"
    using r2(1) r3(1) r4(1) by (blast intro: list_all2_damage_trans)
  show ?thesis
  proof (cases "obstacleHp ?obs \<le> 0")
    case True
    then have "bullet_hit_obstacle b j w = broadcast (msg ''obstacleDestroyed'' [(''obstacleId'', JStr (obstacleId ?obs))])
             (?w4\<lparr>obstacles := splice1 j (obstacles ?w4)\<rparr>)"
      by (simp only: eq if_True)
    then show ?thesis using all r2 r3 r4 by simp
  next
    case False
    then have "bullet_hit_obstacle b j w = ?w1" by (simp only: eq if_False)
    then show ?thesis by (simp add: list_all2_same)
  qed
qed

lemma upt_below: "set [0..<n] \<subseteq> {..<n}"
  by auto

lemma update_bullet_kept:
  "list_all2 (damage_kept (0 \<le> bulletDamage b0)) (tanks w) (tanks (snd (update_bullet b0 (kept, w))))
   \<and> bullets (snd (update_bullet b0 (kept, w))) = bullets w
   \<and> bots (snd (update_bullet b0 (kept, w))) = bots w
   \<and> clients (snd (update_bullet b0 (kept, w))) = clients w
   \<and> (fst (update_bullet b0 (kept, w)) = kept
        \<or> fst (update_bullet b0 (kept, w)) = kept @ [bullet_update b0])"
proof -
  let ?b = "bullet_update b0"
  have dmg: "bulletDamage ?b = bulletDamage b0" by (simp add: bullet_update_def)
  obtain h w1 where f: "fold (bullet_hit_tank ?b) [0..<length (tanks w)] (False, w) = (h, w1)"
    by (cases "fold (bullet_hit_tank ?b) [0..<length (tanks w)] (False, w)")
  from bullet_tanks_fold_kept[OF upt_below, where w = w and b = ?b and h = False] f dmg
  have k1: "list_all2 (damage_kept (0 \<le> bulletDamage b0)) (tanks w) (tanks w1)"
    "same_entities w w1" by simp_all
  show ?thesis
  proof (cases "isOutOfBounds ?b \<or> isOutOfRange ?b")
    case True
    then show ?thesis by (auto simp: update_bullet_def Let_def list_all2_same)
  next
    case False
    show ?thesis
    proof (cases h)
      case True
      with False f have "update_bullet b0 (kept, w) = (kept, w1)"
        by (simp add: update_bullet_def Let_def)
      with k1 show ?thesis by (simp add: same_entities_def)
    next
      case nh: False
      show ?thesis
      proof (cases "hit_obstacle_index ?b (obstacles w1)")
        case None
        with False f nh have "update_bullet b0 (kept, w) = (kept @ [?b], w1)"
          by (simp add: update_bullet_def Let_def)
        with k1 show ?thesis by (simp add: same_entities_def)
      next
        case (Some j)
        with False f nh have eq: "update_bullet b0 (kept, w) = (kept, bullet_hit_obstacle ?b j w1)"
          by (simp add: update_bullet_def Let_def)
        from bullet_hit_obstacle_kept[of w1 ?b j]
        have "list_all2 (damage_kept (0 \<le> bulletDamage b0)) (tanks w1)
                (tanks (bullet_hit_obstacle ?b j w1))"
          by (auto elim: list_all2_damage_weaken)
        with k1(1) have "list_all2 (damage_kept (0 \<le> bulletDamage b0)) (tanks w)
                (tanks (bullet_hit_obstacle ?b j w1))"
          by (rule list_all2_damage_trans)
        with bullet_hit_obstacle_kept[of w1 ?b j] k1(2) show ?thesis
          by (simp add: eq same_entities_def)
      qed
    qed
  qed
qed

lemma update_bullet_fold_kept:
  "(g \<Longrightarrow> \<forall>b \<in> set bs. 0 \<le> bulletDamage b) \<Longrightarrow>
     list_all2 (damage_kept g) (tanks w) (tanks (snd (fold update_bullet bs (kept, w))))
     \<and> bullets (snd (fold update_bullet bs (kept, w))) = bullets w
     \<and> bots (snd (fold update_bullet bs (kept, w))) = bots w
     \<and> clients (snd (fold update_bullet bs (kept, w))) = clients w
     \<and> set (fst (fold update_bullet bs (kept, w))) \<subseteq> set kept \<union> bullet_update ` set bs"
proof (induction bs arbitrary: kept w)
  case Nil
  then show ?case by (simp add: list_all2_same)
next
  case (Cons b bs)
  obtain kept' w' where st: "update_bullet b (kept, w) = (kept', w')"
    by (cases "update_bullet b (kept, w)")
  from update_bullet_kept[of b w kept] st
  have one: "list_all2 (damage_kept (0 \<le> bulletDamage b)) (tanks w) (tanks w')"
    "bullets w' = bullets w" "bots w' = bots w" "clients w' = clients w"
    "kept' = kept \<or> kept' = kept @ [bullet_update b]"
    by simp_all
  from Cons.prems have "g \<Longrightarrow> 0 \<le> bulletDamage b" by simp
  with one(1) have one': "list_all2 (damage_kept g) (tanks w) (tanks w')"
    by (rule list_all2_damage_weaken)
  from Cons.prems have "g \<Longrightarrow> \<forall>b \<in> set bs. 0 \<le> bulletDamage b" by simp
  from Cons.IH[OF this, of w' kept'] one' one(2-5) show ?case
    by (auto simp: st intro: list_all2_damage_trans)
qed

lemma update_bullets_kept:
  "list_all2 (damage_kept (\<forall>b \<in> set (bullets w). 0 \<le> bulletDamage b)) (tanks w)
      (tanks (update_bullets w))
   \<and> bots (update_bullets w) = bots w
   \<and> clients (update_bullets w) = clients w
   \<and> set (bullets (update_bullets w)) \<subseteq> bullet_update ` set (bullets w)"
proof -
  obtain kept w1 where f: "fold update_bullet (bullets w) ([], w) = (kept, w1)"
    by (cases "fold update_bullet (bullets w) ([], w)")
  from update_bullet_fold_kept[of "\<forall>b \<in> set (bullets w). 0 \<le> bulletDamage b" "bullets w" w "[]"] f
  show ?thesis by (simp add: update_bullets_def)
qed

text \<open>
  Claim C5. A tank whose \<^verbatim>\<open>spawnProtection\<close> or \<^verbatim>\<open>invincible\<close> flag is set is skipped by both
  damage paths: an explosion leaves it as it is, and neither the loop of one bullet over
  the tanks nor the whole bullet phase of a tick (bullets against tanks, against
  obstacles, and the explosions these set off) changes its hit points or its flags.
\<close>

theorem protected_tank_takes_no_damage:
  assumes "i < length (tanks w)"
    and "spawnProtection (tanks w ! i) \<or> invincible (tanks w ! i)"
  shows "tanks (createExplosion ex ey radius dmg w) ! i = tanks w ! i
       \<and> (let w' = snd (fold (bullet_hit_tank b) [0..<length (tanks w)] (False, w))
          in hp (tanks w' ! i) = hp (tanks w ! i)
           \<and> spawnProtection (tanks w' ! i) = spawnProtection (tanks w ! i)
           \<and> invincible (tanks w' ! i) = invincible (tanks w ! i))
       \<and> (let w' = update_bullets w
          in hp (tanks w' ! i) = hp (tanks w ! i)
           \<and> spawnProtection (tanks w' ! i) = spawnProtection (tanks w ! i)
           \<and> invincible (tanks w' ! i) = invincible (tanks w ! i))"
proof (intro conjI)
  have p: "protected (tanks w ! i)" using assms(2) by (simp add: protected_def)
  show "tanks (createExplosion ex ey radius dmg w) ! i = tanks w ! i"
    using createExplosion_nth[OF assms(1), of ex ey radius dmg] assms(2)
    by (auto simp: explosion_outcome_def blast_reaches_def)
  have "damage_kept (0 \<le> bulletDamage b) (tanks w ! i)
          (tanks (snd (fold (bullet_hit_tank b) [0..<length (tanks w)] (False, w))) ! i)"
    using bullet_tanks_fold_kept[OF upt_below, where w = w and b = b and h = False] assms(1)
    by (auto dest: list_all2_nthD)
  with p show "let w' = snd (fold (bullet_hit_tank b) [0..<length (tanks w)] (False, w))
          in hp (tanks w' ! i) = hp (tanks w ! i)
           \<and> spawnProtection (tanks w' ! i) = spawnProtection (tanks w ! i)
           \<and> invincible (tanks w' ! i) = invincible (tanks w ! i)"
    by (simp add: damage_kept_def Let_def)
  have "damage_kept (\<forall>b \<in> set (bullets w). 0 \<le> bulletDamage b) (tanks w ! i)
          (tanks (update_bullets w) ! i)"
    using update_bullets_kept[of w] assms(1) by (auto dest: list_all2_nthD)
  with p show "let w' = update_bullets w
          in hp (tanks w' ! i) = hp (tanks w ! i)
           \<and> spawnProtection (tanks w' ! i) = spawnProtection (tanks w ! i)
           \<and> invincible (tanks w' ! i) = invincible (tanks w ! i)"
    by (simp add: damage_kept_def Let_def)
qed

text \<open>One device has joined and is still under spawn protection.\<close>

lemma joined_run:
  "tanks (run [Connected ''10.0.0.1'',
         Message 0 (Esp32Join \<lparr>join_deviceId = Some ''dev1'', join_name = Some ''Ann'',
            join_primaryColor = None, join_secondaryColor = None, join_avatarUrl = None\<rparr>)]
         (initial_world (\<lambda>_. 0) (\<lambda>_. ''u'') (\<lambda>_. 0))) =
     [\<lparr>x = 50, y = 50, tankId = ''u'', name = ''Ann'', primaryColor = ''#FF5722'',
       secondaryColor = ''#FF5722'', avatarUrl = [], angle = 0, hp = 100, maxHp = 100,
       speed = 3, damage = 25, fireRange = 500, fireRate = 500, lastFire = 0, score = 0,
       kills = 0, deaths = 0, isBot = False, spawnProtection = True, invincible = False,
       invincibilityEnd = None, powerups = (\<lambda>_. None),
       moving = \<lparr>up = False, down = False, left = False, right = False\<rparr>,
       deviceId = Some ''dev1'', ws = Some 0\<rparr>]"
  by (simp add: run_defs Let_def config split: prod.splits)

theorem protected_tank_takes_no_damage_witness:
  "(let w = run [Connected ''10.0.0.1'',
         Message 0 (Esp32Join \<lparr>join_deviceId = Some ''dev1'', join_name = Some ''Ann'',
            join_primaryColor = None, join_secondaryColor = None, join_avatarUrl = None\<rparr>)]
         (initial_world (\<lambda>_. 0) (\<lambda>_. ''u'') (\<lambda>_. 0))
    in 0 < length (tanks w)
     \<and> spawnProtection (tanks w ! 0)
     \<and> distance \<lparr>x = 50, y = 50\<rparr> (tanks w ! 0) = 0
     \<and> tanks (createExplosion 50 50 150 100 w) ! 0 = tanks w ! 0
     \<and> hp (tanks (update_bullets w) ! 0) = 100)"
proof -
  let ?w = "run [Connected ''10.0.0.1'',
         Message 0 (Esp32Join \<lparr>join_deviceId = Some ''dev1'', join_name = Some ''Ann'',
            join_primaryColor = None, join_secondaryColor = None, join_avatarUrl = None\<rparr>)]
         (initial_world (\<lambda>_. 0) (\<lambda>_. ''u'') (\<lambda>_. 0))"
  have len: "0 < length (tanks ?w)" by (simp add: joined_run)
  have sp: "spawnProtection (tanks ?w ! 0)" by (simp add: joined_run)
  have hp: "hp (tanks ?w ! 0) = 100" by (simp add: joined_run)
  have d: "distance \<lparr>x = 50, y = 50\<rparr> (tanks ?w ! 0) = 0"
    by (simp add: joined_run)
  note th = protected_tank_takes_no_damage[OF len disjI1[OF sp], of 50 50 150 100 undefined]
  have a: "tanks (createExplosion 50 50 150 100 ?w) ! 0 = tanks ?w ! 0"
    by (rule th[THEN conjunct1])
  have b: "hp (tanks (update_bullets ?w) ! 0) = 100"
    using th[THEN conjunct2, THEN conjunct2] hp by (simp add: Let_def)
  from len sp d a b show ?thesis unfolding Let_def by (intro conjI)
qed

subsection \<open>The spawners\<close>

lemma spawnObstacle_cases:
  "tanks (spawnObstacle w) = tanks w
   \<and> world_powerups (spawnObstacle w) = world_powerups w
   \<and> (obstacles (spawnObstacle w) = obstacles w
       \<or> (\<exists>ob. obstacles (spawnObstacle w) = obstacles w @ [ob]
              \<and> length (obstacles w) < MAX_OBSTACLES
              \<and> obstacleSize ob \<le> 60
              \<and> \<not> list_ex (\<lambda>t. distance ob t < TANK_SIZE * 2) (tanks w)))"
  by (auto simp: spawnObstacle_def new_Obstacle_def randomPosition_def Math_random_def
      uuidv4_def broadcast_def Let_def split: prod.splits)

lemma spawnPowerup_cases:
  "length (world_powerups w) < MAX_POWERUPS \<Longrightarrow>
     \<exists>p. world_powerups (spawnPowerup px py w) = world_powerups w @ [p]"
  by (auto simp: spawnPowerup_def new_Powerup_def coordinate_or_def randomPosition_def
      Math_random_def uuidv4_def broadcast_def Let_def split: prod.splits option.splits)

text \<open>
  Claim C9, as the code has it. At its cap a spawner changes nothing. \<^verbatim>\<open>spawnObstacle\<close> adds
  at most one obstacle, and only one that is at least twice the tank size away from every
  tank, so that it collides with none. \<^verbatim>\<open>spawnPowerup\<close> below its cap always adds one
  powerup: it makes no test against the tanks.
\<close>

theorem spawners_caps_and_placement:
  "(length (obstacles w) \<ge> MAX_OBSTACLES \<longrightarrow> spawnObstacle w = w)
   \<and> (length (obstacles w) \<le> MAX_OBSTACLES
        \<longrightarrow> length (obstacles (spawnObstacle w)) \<le> MAX_OBSTACLES)
   \<and> tanks (spawnObstacle w) = tanks w
   \<and> (obstacles (spawnObstacle w) = obstacles w
       \<or> (\<exists>ob. obstacles (spawnObstacle w) = obstacles w @ [ob]
              \<and> (\<forall>t \<in> set (tanks w). TANK_SIZE * 2 \<le> distance ob t
                     \<and> \<not> checkCollision ob t (obstacleSize ob) TANK_SIZE)))
   \<and> (length (world_powerups w) \<ge> MAX_POWERUPS \<longrightarrow> spawnPowerup px py w = w)
   \<and> (length (world_powerups w) < MAX_POWERUPS
        \<longrightarrow> (\<exists>p. world_powerups (spawnPowerup px py w) = world_powerups w @ [p]))
   \<and> tanks (spawnPowerup px py w) = tanks w"
proof (intro conjI impI)
  show "spawnObstacle w = w" if "MAX_OBSTACLES \<le> length (obstacles w)"
    using that by (simp add: spawnObstacle_def)
  show "length (obstacles (spawnObstacle w)) \<le> MAX_OBSTACLES"
    if "length (obstacles w) \<le> MAX_OBSTACLES"
    using that spawnObstacle_cases[of w] by auto
  show "tanks (spawnObstacle w) = tanks w" using spawnObstacle_cases[of w] by simp
  show "obstacles (spawnObstacle w) = obstacles w
       \<or> (\<exists>ob. obstacles (spawnObstacle w) = obstacles w @ [ob]
              \<and> (\<forall>t \<in> set (tanks w). TANK_SIZE * 2 \<le> distance ob t
                     \<and> \<not> checkCollision ob t (obstacleSize ob) TANK_SIZE))"
  proof (cases "obstacles (spawnObstacle w) = obstacles w")
    case True then show ?thesis by simp
  next
    case False
    with spawnObstacle_cases[of w] obtain ob where ob:
      "obstacles (spawnObstacle w) = obstacles w @ [ob]" "obstacleSize ob \<le> 60"
      "\<not> list_ex (\<lambda>t. distance ob t < TANK_SIZE * 2) (tanks w)" by auto
    have "TANK_SIZE * 2 \<le> distance ob t \<and> \<not> checkCollision ob t (obstacleSize ob) TANK_SIZE"
      if "t \<in> set (tanks w)" for t
    proof -
      from ob(3) that have far: "TANK_SIZE * 2 \<le> distance ob t"
        by (auto simp: list_ex_iff not_less)
      have "(obstacleSize ob + TANK_SIZE) / 2 \<le> TANK_SIZE * 2"
        using ob(2) by (simp add: TANK_SIZE_def)
      with far show ?thesis by (simp add: checkCollision_def)
    qed
    with ob(1) show ?thesis by blast
  qed
  show "spawnPowerup px py w = w" if "MAX_POWERUPS \<le> length (world_powerups w)"
    using that by (simp add: spawnPowerup_def)
  show "\<exists>p. world_powerups (spawnPowerup px py w) = world_powerups w @ [p]"
    if "length (world_powerups w) < MAX_POWERUPS"
    using that by (rule spawnPowerup_cases)
  show "tanks (spawnPowerup px py w) = tanks w" by (rule spawnPowerup_fields)
qed

lemmas spawn_defs =
  spawnPowerup_def new_Powerup_def coordinate_or_def spawnObstacle_def new_Obstacle_def

lemma one_tank_run_powerup:
  "world_powerups (spawnPowerup None None
      (run [Connected ''10.0.0.1'',
         Message 0 (Esp32Join \<lparr>join_deviceId = Some ''dev1'', join_name = Some ''Ann'',
            join_primaryColor = None, join_secondaryColor = None, join_avatarUrl = None\<rparr>),
         Timeout 0]
         (initial_world (\<lambda>_. 0) (\<lambda>_. ''u'') (\<lambda>_. 0)))) =
     [\<lparr>x = 50, y = 50, powerupId = ''u'', powerupType = SPEED, powerupSize = 25\<rparr>]"
  by (simp add: run_defs spawn_defs Let_def config split: prod.splits)

theorem spawnPowerup_on_tank_counterexample:
  "world_powerups
      (run [Connected ''10.0.0.1'',
         Message 0 (Esp32Join \<lparr>join_deviceId = Some ''dev1'', join_name = Some ''Ann'',
            join_primaryColor = None, join_secondaryColor = None, join_avatarUrl = None\<rparr>),
         Timeout 0]
         (initial_world (\<lambda>_. 0) (\<lambda>_. ''u'') (\<lambda>_. 0))) = []
   \<and> world_powerups (spawnPowerup None None
      (run [Connected ''10.0.0.1'',
         Message 0 (Esp32Join \<lparr>join_deviceId = Some ''dev1'', join_name = Some ''Ann'',
            join_primaryColor = None, join_secondaryColor = None, join_avatarUrl = None\<rparr>),
         Timeout 0]
         (initial_world (\<lambda>_. 0) (\<lambda>_. ''u'') (\<lambda>_. 0)))) =
     [\<lparr>x = 50, y = 50, powerupId = ''u'', powerupType = SPEED, powerupSize = 25\<rparr>]
   \<and> x (hd (tanks
      (run [Connected ''10.0.0.1'',
         Message 0 (Esp32Join \<lparr>join_deviceId = Some ''dev1'', join_name = Some ''Ann'',
            join_primaryColor = None, join_secondaryColor = None, join_avatarUrl = None\<rparr>),
         Timeout 0]
         (initial_world (\<lambda>_. 0) (\<lambda>_. ''u'') (\<lambda>_. 0))))) = 50
   \<and> y (hd (tanks
      (run [Connected ''10.0.0.1'',
         Message 0 (Esp32Join \<lparr>join_deviceId = Some ''dev1'', join_name = Some ''Ann'',
            join_primaryColor = None, join_secondaryColor = None, join_avatarUrl = None\<rparr>),
         Timeout 0]
         (initial_world (\<lambda>_. 0) (\<lambda>_. ''u'') (\<lambda>_. 0))))) = 50
   \<and> checkCollision
        \<lparr>x = 50, y = 50, powerupId = ''u'', powerupType = SPEED, powerupSize = 25\<rparr>
        (hd (tanks
          (run [Connected ''10.0.0.1'',
             Message 0 (Esp32Join \<lparr>join_deviceId = Some ''dev1'', join_name = Some ''Ann'',
                join_primaryColor = None, join_secondaryColor = None, join_avatarUrl = None\<rparr>),
             Timeout 0]
             (initial_world (\<lambda>_. 0) (\<lambda>_. ''u'') (\<lambda>_. 0)))))
        25 TANK_SIZE"
proof (intro conjI)
  show "checkCollision
        \<lparr>x = 50, y = 50, powerupId = ''u'', powerupType = SPEED, powerupSize = 25\<rparr>
        (hd (tanks
          (run [Connected ''10.0.0.1'',
             Message 0 (Esp32Join \<lparr>join_deviceId = Some ''dev1'', join_name = Some ''Ann'',
                join_primaryColor = None, join_secondaryColor = None, join_avatarUrl = None\<rparr>),
             Timeout 0]
             (initial_world (\<lambda>_. 0) (\<lambda>_. ''u'') (\<lambda>_. 0)))))
        25 TANK_SIZE"
    by (simp add: one_tank_run checkCollision_def TANK_SIZE_def)
qed (simp_all add: one_tank_run one_tank_run_powerup, simp add: run_defs Let_def split: prod.splits)

theorem spawners_caps_and_placement_witness:
  "length (world_powerups
      (run [Connected ''10.0.0.1'',
         Message 0 (Esp32Join \<lparr>join_deviceId = Some ''dev1'', join_name = Some ''Ann'',
            join_primaryColor = None, join_secondaryColor = None, join_avatarUrl = None\<rparr>),
         Timeout 0]
         (initial_world (\<lambda>_. 0) (\<lambda>_. ''u'') (\<lambda>_. 0)))) < MAX_POWERUPS
   \<and> (\<exists>p. world_powerups (spawnPowerup None None
      (run [Connected ''10.0.0.1'',
         Message 0 (Esp32Join \<lparr>join_deviceId = Some ''dev1'', join_name = Some ''Ann'',
            join_primaryColor = None, join_secondaryColor = None, join_avatarUrl = None\<rparr>),
         Timeout 0]
         (initial_world (\<lambda>_. 0) (\<lambda>_. ''u'') (\<lambda>_. 0)))) =
       world_powerups
      (run [Connected ''10.0.0.1'',
         Message 0 (Esp32Join \<lparr>join_deviceId = Some ''dev1'', join_name = Some ''Ann'',
            join_primaryColor = None, join_secondaryColor = None, join_avatarUrl = None\<rparr>),
         Timeout 0]
         (initial_world (\<lambda>_. 0) (\<lambda>_. ''u'') (\<lambda>_. 0))) @ [p])
   \<and> length (obstacles (initial_world (\<lambda>_. 0) (\<lambda>_. ''u'') (\<lambda>_. 0))) \<le> MAX_OBSTACLES
   \<and> length (obstacles (spawnObstacle (initial_world (\<lambda>_. 0) (\<lambda>_. ''u'') (\<lambda>_. 0))))
        \<le> MAX_OBSTACLES
   \<and> length (obstacles (spawnObstacle (initial_world (\<lambda>_. 0) (\<lambda>_. ''u'') (\<lambda>_. 0)))) = 1"
proof -
  let ?w = "run [Connected ''10.0.0.1'',
         Message 0 (Esp32Join \<lparr>join_deviceId = Some ''dev1'', join_name = Some ''Ann'',
            join_primaryColor = None, join_secondaryColor = None, join_avatarUrl = None\<rparr>),
         Timeout 0]
         (initial_world (\<lambda>_. 0) (\<lambda>_. ''u'') (\<lambda>_. 0))"
  let ?i = "initial_world (\<lambda>_. 0) (\<lambda>_. ''u'') (\<lambda>_. 0)"
  have p: "length (world_powerups ?w) < MAX_POWERUPS"
    by (simp add: run_defs Let_def config split: prod.splits)
  have o: "length (obstacles ?i) \<le> MAX_OBSTACLES" by (simp add: initial_world_def)
  note a = spawners_caps_and_placement[of ?w None None,
      THEN conjunct2, THEN conjunct2, THEN conjunct2, THEN conjunct2, THEN conjunct2,
      THEN conjunct1, THEN mp, OF p]
  note b = spawners_caps_and_placement[of ?i None None, THEN conjunct2, THEN conjunct1, THEN mp, OF o]
  have c: "length (obstacles (spawnObstacle ?i)) = 1"
    by (simp add: spawn_defs initial_world_def randomPosition_def Math_random_def uuidv4_def
        broadcast_def pick_def Let_def config split: prod.splits)
  from p a o b c show ?thesis by (intro conjI)
qed

subsection \<open>The tank phase of a tick\<close>

lemma tick_step_refl [simp]: "tick_step w w"
  by (simp add: tick_step_def list_all2_same)

lemma tick_step_trans: "tick_step a b \<Longrightarrow> tick_step b c \<Longrightarrow> tick_step a c"
  by (auto simp: tick_step_def intro: list_all2_tick_trans)

lemma tick_step_same:
  "tanks w' = tanks w \<Longrightarrow> bullets w' = bullets w \<Longrightarrow> bots w' = bots w
     \<Longrightarrow> clients w' = clients w \<Longrightarrow> tick_step w w'"
  by (simp add: tick_step_def list_all2_same)

lemma tick_step_modify:
  "(i < length (tanks w) \<Longrightarrow> tick_kept True (tanks w ! i) (f (tanks w ! i)))
     \<Longrightarrow> tick_step w (modify_tank i f w)"
  by (simp add: tick_step_def list_all2_update_right)

lemma tick_step_Date_now [simp]: "tick_step w (snd (Date_now w))"
  by (simp add: Date_now_def tick_step_same)

lemma tick_step_Math_random [simp]: "tick_step w (snd (Math_random w))"
  by (simp add: tick_step_same)

lemma tick_step_broadcast [simp]: "tick_step w (broadcast m w)"
  by (simp add: tick_step_same)

lemma tick_step_setTimeout [simp]: "tick_step w (setTimeout k tm w)"
  by (simp add: setTimeout_def tick_step_same)

lemma createExplosion_clients [simp]:
  "clients (createExplosion ex ey radius dmg w) = clients w"
  using createExplosion_shape[of ex ey radius dmg w] by auto

lemma tick_step_createExplosion:
  "0 \<le> dmg \<Longrightarrow> tick_step w (createExplosion ex ey radius dmg w)"
  using createExplosion_kept[of dmg w ex ey radius] createExplosion_kept_True[of dmg w ex ey radius]
  by (simp add: tick_step_def list_all2_damage_tick)

lemma stacked_kept: "tick_kept g t (snd (stacked now T base t))"
  by (simp add: stacked_def tick_kept_def tank_ok_def split: option.splits)

lemma getEffectiveStats_snd:
  "snd (getEffectiveStats now t) =
     snd (stacked now RANGE BASE_FIRE_RANGE
            (snd (stacked now POWER BASE_DAMAGE (snd (stacked now SPEED BASE_TANK_SPEED t)))))"
  by (simp add: getEffectiveStats_def Let_def split: prod.splits)

lemma getEffectiveStats_kept: "tick_kept g t (snd (getEffectiveStats now t))"
  unfolding getEffectiveStats_snd
  by (blast intro: tick_kept_trans stacked_kept)

lemma applyPowerup_kept: "tick_kept g t (fst (applyPowerup now T t))"
  by (auto simp: applyPowerup_def Let_def tick_kept_def tank_ok_def fadd_pos split: option.splits)

lemma tick_step_tank_applyPowerup: "tick_step w (tank_applyPowerup i T w)"
proof (cases "T = HEALTH")
  case True
  then show ?thesis
    by (simp add: tank_applyPowerup_def tick_step_modify applyPowerup_kept)
next
  case False
  obtain now w1 where dn: "Date_now w = (now, w1)" by (cases "Date_now w")
  obtain t1 reg where ap: "applyPowerup now T (tanks w1 ! i) = (t1, reg)"
    by (cases "applyPowerup now T (tanks w1 ! i)")
  have s1: "tick_step w w1" using tick_step_Date_now[of w] dn by simp
  have "tick_kept True (tanks w1 ! i) t1" using applyPowerup_kept[of True "tanks w1 ! i" now T] ap by simp
  then have s2: "tick_step w1 (modify_tank i (\<lambda>_. t1) w1)" by (simp add: tick_step_modify)
  have s3: "tick_step w' (fold (setTimeout k) reg w')" for w' k
    by (induction reg arbitrary: w') (auto intro: tick_step_trans tick_step_setTimeout)
  from False dn ap have "tank_applyPowerup i T w = fold (setTimeout (tankId t1)) reg (modify_tank i (\<lambda>_. t1) w1)"
    by (simp add: tank_applyPowerup_def)
  with s1 s2 s3 show ?thesis by (auto intro: tick_step_trans)
qed

lemma collect_powerup_step: "tick_step w (snd (collect_powerup i p (kept, w)))"
proof -
  let ?near = "distance (tanks w ! i) p < (TANK_SIZE + powerupSize p) / 2"
  obtain r w1 where r: "Math_random w = (r, w1)" by (cases "Math_random w")
  obtain r2 w2 where r2: "Math_random w1 = (r2, w2)" by (cases "Math_random w1")
  have s1: "tick_step w w1" using tick_step_Math_random[of w] r by simp
  have s2: "tick_step w1 w2" using tick_step_Math_random[of w1] r2 by simp
  have e: "tick_step w' (createExplosion ex ey MYSTERY_explosionRadius MYSTERY_explosionDamage w')" for w' ex ey
    by (rule tick_step_createExplosion) (simp add: MYSTERY_explosionDamage_def)
  consider (far) "\<not> ?near"
    | (plain) "?near" "powerupType p \<noteq> MYSTERY"
    | (boom) "?near" "powerupType p = MYSTERY" "r < MYSTERY_explodeChance"
    | (luck) "?near" "powerupType p = MYSTERY" "\<not> r < MYSTERY_explodeChance"
    by blast
  then show ?thesis
  proof cases
    case far
    then show ?thesis by (simp add: collect_powerup_def Let_def)
  next
    case plain
    then have "snd (collect_powerup i p (kept, w)) =
        broadcast (msg ''powerupCollect''
                      [(''tankId'', JStr (tankId (tanks w ! i))),
                       (''powerupType'', JStr (powerup_type_name (powerupType p))),
                       (''x'', JNum (x p)), (''y'', JNum (y p))]) (tank_applyPowerup i (powerupType p) w)"
      by (simp add: collect_powerup_def Let_def)
    then show ?thesis
      by (simp only:) (rule tick_step_trans[OF tick_step_tank_applyPowerup], rule tick_step_broadcast)
  next
    case boom
    then have "snd (collect_powerup i p (kept, w)) =
        createExplosion (x p) (y p) MYSTERY_explosionRadius MYSTERY_explosionDamage
          (broadcast (msg ''mysteryExplode''
                        [(''tankId'', JStr (tankId (tanks w ! i))), (''x'', JNum (x p)), (''y'', JNum (y p)),
                         (''radius'', JNum MYSTERY_explosionRadius)]) w1)"
      using r by (simp add: collect_powerup_def Let_def)
    then show ?thesis
      by (simp only:) (rule tick_step_trans[OF s1], rule tick_step_trans[OF tick_step_broadcast], rule e)
  next
    case luck
    then have "snd (collect_powerup i p (kept, w)) =
        broadcast (msg ''powerupCollect''
                        [(''tankId'', JStr (tankId (tanks w ! i))),
                         (''powerupType'', JStr (powerup_type_name (pick realPowerups r2))),
                         (''x'', JNum (x p)), (''y'', JNum (y p)),
                         (''wasMystery'', JBool True)]) (tank_applyPowerup i (pick realPowerups r2) w2)"
      using r r2 by (simp add: collect_powerup_def Let_def)
    then show ?thesis
      by (simp only:) (rule tick_step_trans[OF s1], rule tick_step_trans[OF s2],
          rule tick_step_trans[OF tick_step_tank_applyPowerup], rule tick_step_broadcast)
  qed
qed

lemma collect_powerup_fold_step:
  "tick_step w (snd (fold (collect_powerup i) ps (kept, w)))"
proof (induction ps arbitrary: kept w)
  case Nil
  then show ?case by simp
next
  case (Cons p ps)
  obtain kept' w' where st: "collect_powerup i p (kept, w) = (kept', w')"
    by (cases "collect_powerup i p (kept, w)")
  with collect_powerup_step[of w i p kept] have "tick_step w w'" by simp
  with Cons.IH[of w' kept'] show ?case by (auto simp: st intro: tick_step_trans)
qed

lemma collect_powerups_step: "tick_step w (collect_powerups i w)"
proof -
  obtain kept w1 where f: "fold (collect_powerup i) (world_powerups w) ([], w) = (kept, w1)"
    by (cases "fold (collect_powerup i) (world_powerups w) ([], w)")
  with collect_powerup_fold_step[of w i "world_powerups w" "[]"] have "tick_step w w1" by simp
  then show ?thesis by (simp add: collect_powerups_def f tick_step_def)
qed

lemma angle_kept: "tick_kept g t (t\<lparr>angle := a\<rparr>)"
  by (simp add: tick_kept_def tank_ok_def)

lemma position_kept: "tick_kept g t (t\<lparr>x := a, y := b\<rparr>)"
  by (simp add: tick_kept_def tank_ok_def)

lemma update_tank_step: "tick_step w (update_tank i w)"
proof -
  obtain now w1 where dn: "Date_now w = (now, w1)" by (cases "Date_now w")
  obtain stats t1 where gs: "getEffectiveStats now (tanks w1 ! i) = (stats, t1)"
    by (cases "getEffectiveStats now (tanks w1 ! i)")
  let ?w2 = "modify_tank i (\<lambda>_. t1) w1"
  let ?dx0 = "(if up (moving t1) then 0 + cos (angle t1) * stat_speed stats else 0)"
  let ?dy0 = "(if up (moving t1) then 0 + sin (angle t1) * stat_speed stats else 0)"
  let ?dx = "(if down (moving t1) then ?dx0 - cos (angle t1) * stat_speed stats else ?dx0)"
  let ?dy = "(if down (moving t1) then ?dy0 - sin (angle t1) * stat_speed stats else ?dy0)"
  let ?w3 = "(if left (moving t1) then modify_tank i (\<lambda>t. t\<lparr>angle := angle t - 5 / 100\<rparr>) ?w2 else ?w2)"
  let ?w4 = "(if right (moving t1) then modify_tank i (\<lambda>t. t\<lparr>angle := angle t + 5 / 100\<rparr>) ?w3 else ?w3)"
  let ?newX = "max (TANK_SIZE / 2) (min (MAP_WIDTH - TANK_SIZE / 2) (x t1 + ?dx))"
  let ?newY = "max (TANK_SIZE / 2) (min (MAP_HEIGHT - TANK_SIZE / 2) (y t1 + ?dy))"
  obtain canMove barrel where sc:
    "fold (scan_obstacle \<lparr>x = ?newX, y = ?newY\<rparr> (obstacles ?w4))
       [0..<length (obstacles ?w4)] (True, None) = (canMove, barrel)"
    by (cases "fold (scan_obstacle \<lparr>x = ?newX, y = ?newY\<rparr> (obstacles ?w4))
       [0..<length (obstacles ?w4)] (True, None)")
  have s1: "tick_step w w1" using tick_step_Date_now[of w] dn by simp
  have "tick_kept True (tanks w1 ! i) t1"
    using getEffectiveStats_kept[of True "tanks w1 ! i" now] gs by simp
  then have s2: "tick_step w1 ?w2" by (simp add: tick_step_modify)
  have s3: "tick_step ?w2 ?w3" by (simp add: tick_step_modify angle_kept)
  have s4: "tick_step ?w3 ?w4" by (simp add: tick_step_modify angle_kept)
  have s04: "tick_step w ?w4"
    by (rule tick_step_trans[OF s1], rule tick_step_trans[OF s2], rule tick_step_trans[OF s3], rule s4)
  have mv: "tick_step w' (if canMove then modify_tank i (\<lambda>t. t\<lparr>x := ?newX, y := ?newY\<rparr>) w' else w')" for w'
    by (simp add: tick_step_modify position_kept)
  show ?thesis
  proof (cases barrel)
    case None
    have eq: "update_tank i w =
        collect_powerups i (if canMove then modify_tank i (\<lambda>t. t\<lparr>x := ?newX, y := ?newY\<rparr>) ?w4 else ?w4)"
      using dn gs sc None by (simp add: update_tank_def Let_def)
    show ?thesis
      unfolding eq
      by (rule tick_step_trans[OF s04], rule tick_step_trans[OF mv], rule collect_powerups_step)
  next
    case (Some j)
    let ?barrel = "obstacles ?w4 ! j"
    let ?w4a = "?w4\<lparr>obstacles := splice1 j (obstacles ?w4)\<rparr>"
    let ?w4b = "createExplosion (x ?barrel) (y ?barrel)
                  (explosionRadius (OBSTACLE_TYPES (obstacleType ?barrel)))
                  (explosionDamage (OBSTACLE_TYPES (obstacleType ?barrel))) ?w4a"
    let ?w4c = "broadcast (msg ''obstacleDestroyed'' [(''obstacleId'', JStr (obstacleId ?barrel))]) ?w4b"
    let ?resp = "x (tanks ?w4c ! i) \<noteq> x (tanks ?w4a ! i) \<or> y (tanks ?w4c ! i) \<noteq> y (tanks ?w4a ! i)"
    have eq: "update_tank i w =
        (if ?resp then ?w4c
         else collect_powerups i (if canMove then modify_tank i (\<lambda>t. t\<lparr>x := ?newX, y := ?newY\<rparr>) ?w4c else ?w4c))"
      using dn gs sc Some by (simp add: update_tank_def Let_def del: OBSTACLE_TYPES.simps)
    have sa: "tick_step ?w4 ?w4a" by (rule tick_step_same) simp_all
    have sb: "tick_step ?w4a ?w4b"
      by (rule tick_step_createExplosion) (rule explosionDamage_nonneg)
    have sc': "tick_step ?w4b ?w4c" by (rule tick_step_broadcast)
    have s0c: "tick_step w ?w4c"
      by (rule tick_step_trans[OF s04], rule tick_step_trans[OF sa], rule tick_step_trans[OF sb], rule sc')
    show ?thesis
    proof (cases ?resp)
      case True
      then have "update_tank i w = ?w4c" by (simp only: eq if_True)
      then show ?thesis using s0c by (simp only:)
    next
      case False
      then have "update_tank i w =
           collect_powerups i (if canMove then modify_tank i (\<lambda>t. t\<lparr>x := ?newX, y := ?newY\<rparr>) ?w4c else ?w4c)"
        by (simp only: eq if_False)
      then show ?thesis
        by (simp only:) (rule tick_step_trans[OF s0c], rule tick_step_trans[OF mv], rule collect_powerups_step)
    qed
  qed
qed

lemma update_tank_fold_step: "tick_step w (fold update_tank js w)"
proof (induction js arbitrary: w)
  case Nil then show ?case by simp
next
  case (Cons j js)
  show ?case
    by (simp only: fold_simps) (rule tick_step_trans[OF update_tank_step], rule Cons.IH)
qed

subsection \<open>Firing and the bots\<close>

lemma fire_step_refl [simp]: "fire_step w w"
  by (simp add: fire_step_def list_all2_same)

lemma fire_step_trans: "fire_step a b \<Longrightarrow> fire_step b c \<Longrightarrow> fire_step a c"
  by (auto simp: fire_step_def intro: list_all2_tick_trans)

lemma tick_step_fire_step: "tick_step w w' \<Longrightarrow> fire_step w w'"
  by (simp add: tick_step_def fire_step_def)

lemma fire_step_modify:
  "(i < length (tanks w) \<Longrightarrow> tick_kept True (tanks w ! i) (f (tanks w ! i)))
     \<Longrightarrow> fire_step w (modify_tank i f w)"
  by (rule tick_step_fire_step) (rule tick_step_modify)

lemma times_multiplier_nonneg: "0 \<le> m \<Longrightarrow> 0 \<le> v \<Longrightarrow> 0 \<le> times_multiplier n m v"
  by (simp add: times_multiplier_power)

lemma multiplier_nonneg: "0 \<le> multiplier (POWERUP_TYPES T)"
  by (cases T) simp_all

lemma stacked_nonneg: "0 \<le> base \<Longrightarrow> 0 \<le> fst (stacked now T base t)"
  by (simp add: stacked_def times_multiplier_nonneg multiplier_nonneg split: option.splits
        del: POWERUP_TYPES.simps)

lemma getEffectiveStats_damage_nonneg: "0 \<le> stat_damage (fst (getEffectiveStats now t))"
proof -
  have "stat_damage (fst (getEffectiveStats now t)) =
          fst (stacked now POWER BASE_DAMAGE (snd (stacked now SPEED BASE_TANK_SPEED t)))"
    by (simp add: getEffectiveStats_def Let_def split: prod.splits)
  then show ?thesis by (simp add: stacked_nonneg BASE_DAMAGE_def)
qed

lemma lastFire_kept: "tick_kept g t (t\<lparr>lastFire := a\<rparr>)"
  by (simp add: tick_kept_def tank_ok_def)

lemma moving_kept: "tick_kept g t (t\<lparr>moving := a\<rparr>)"
  by (simp add: tick_kept_def tank_ok_def)

lemma fireBullet_step:
  "fire_step w (snd (fireBullet i w))
   \<and> (case fst (fireBullet i w) of None \<Rightarrow> True | Some b \<Rightarrow> 0 \<le> bulletDamage b)"
proof -
  obtain now w1 where dn: "Date_now w = (now, w1)" by (cases "Date_now w")
  have s1: "fire_step w w1"
    using tick_step_Date_now[of w] dn by (simp add: tick_step_fire_step)
  show ?thesis
  proof (cases "now - lastFire (tanks w1 ! i) < fireRate (tanks w1 ! i)")
    case True
    with dn s1 show ?thesis by (simp add: fireBullet_def)
  next
    case False
    let ?w2 = "modify_tank i (\<lambda>t. t\<lparr>lastFire := now\<rparr>) w1"
    obtain now2 w3 where dn2: "Date_now ?w2 = (now2, w3)" by (cases "Date_now ?w2")
    obtain stats t1 where gs: "getEffectiveStats now2 (tanks w3 ! i) = (stats, t1)"
      by (cases "getEffectiveStats now2 (tanks w3 ! i)")
    let ?w4 = "modify_tank i (\<lambda>_. t1) w3"
    obtain b w5 where nb: "new_Bullet (tankId t1)
                        (x t1 + cos (angle t1) * (TANK_SIZE / 2 + 5))
                        (y t1 + sin (angle t1) * (TANK_SIZE / 2 + 5))
                        (angle t1) (stat_damage stats) (stat_range stats) ?w4 = (b, w5)"
      by (cases "new_Bullet (tankId t1)
                        (x t1 + cos (angle t1) * (TANK_SIZE / 2 + 5))
                        (y t1 + sin (angle t1) * (TANK_SIZE / 2 + 5))
                        (angle t1) (stat_damage stats) (stat_range stats) ?w4")
    have eq: "fireBullet i w = (Some b, w5\<lparr>bullets := bullets w5 @ [b]\<rparr>)"
      using False dn dn2 gs nb by (simp add: fireBullet_def Let_def)
    have s2: "fire_step w1 ?w2" by (simp add: fire_step_modify lastFire_kept)
    have s3: "fire_step ?w2 w3"
      using tick_step_Date_now[of ?w2] dn2 by (simp add: tick_step_fire_step)
    have "tick_kept True (tanks w3 ! i) t1"
      using getEffectiveStats_kept[of True "tanks w3 ! i" now2] gs by simp
    then have s4: "fire_step w3 ?w4" by (simp add: fire_step_modify)
    have b: "bulletDamage b = stat_damage stats" "w5 = ?w4\<lparr>uuid_next := Suc (uuid_next ?w4)\<rparr>"
      using nb by (auto simp: new_Bullet_def uuidv4_def Let_def)
    have nn: "0 \<le> bulletDamage b"
      using getEffectiveStats_damage_nonneg[of now2 "tanks w3 ! i"] gs b by simp
    have s5: "fire_step ?w4 (w5\<lparr>bullets := bullets w5 @ [b]\<rparr>)"
      using nn by (simp add: b(2) fire_step_def list_all2_same)
    have "fire_step w (w5\<lparr>bullets := bullets w5 @ [b]\<rparr>)"
      by (rule fire_step_trans[OF s1], rule fire_step_trans[OF s2], rule fire_step_trans[OF s3],
          rule fire_step_trans[OF s4], rule s5)
    with nn show ?thesis by (simp add: eq)
  qed
qed

lemma fire_step_fireBullet: "fire_step w (snd (fireBullet i w))"
  using fireBullet_step[of w i] by simp

lemma fire_step_bots: "fire_step w (w\<lparr>bots := bs\<rparr>)"
  by (simp add: fire_step_def list_all2_same)

lemma fire_step_set_bot_state: "fire_step w (set_bot_state j s w)"
  by (simp add: set_bot_state_def fire_step_bots)

lemma fire_step_Math_random: "fire_step w (snd (Math_random w))"
  by (rule tick_step_fire_step) simp

lemma bot_attack_step: "fire_step w (bot_attack j i np nd w)"
proof -
  let ?w1 = "set_bot_state j Attacking w"
  let ?w2 = "modify_tank i (\<lambda>t. t\<lparr>angle := atan2 (y np - y (tanks ?w1 ! i)) (x np - x (tanks ?w1 ! i))\<rparr>) ?w1"
  let ?w3 = "modify_tank i (\<lambda>t. t\<lparr>moving := \<lparr>up = (nd > 150), down = False, left = False,
                                     right = False\<rparr>\<rparr>) ?w2"
  have eq: "bot_attack j i np nd w =
      (if nd < fireRange (tanks ?w3 ! i) then snd (fireBullet i ?w3) else ?w3)"
    by (simp add: bot_attack_def Let_def)
  have s3: "fire_step w ?w3"
    by (rule fire_step_trans[OF fire_step_set_bot_state], rule fire_step_trans[OF fire_step_modify],
        rule angle_kept, rule fire_step_modify, rule moving_kept)
  show ?thesis
  proof (cases "nd < fireRange (tanks ?w3 ! i)")
    case True
    then have "bot_attack j i np nd w = snd (fireBullet i ?w3)" by (simp only: eq if_True)
    then show ?thesis
      by (simp only:) (rule fire_step_trans[OF s3], rule fire_step_fireBullet)
  next
    case False
    then have "bot_attack j i np nd w = ?w3" by (simp only: eq if_False)
    then show ?thesis using s3 by (simp only:)
  qed
qed

lemma bot_roam_tail:
  assumes "fire_step w w3"
  shows "fire_step w
           (let (r3, w4) = Math_random w3;
                w5 = modify_tank i
                 (\<lambda>t. t\<lparr>moving := \<lparr>up = (r3 > 3 / 10), down = False, left = False,
                                     right = False\<rparr>\<rparr>) w4;
                (r4, w6) = Math_random w5
            in if r4 < 5 / 100 then snd (fireBullet i w6) else w6)"
proof -
  obtain r3 w4 where r3: "Math_random w3 = (r3, w4)" by (cases "Math_random w3")
  let ?w5 = "modify_tank i (\<lambda>t. t\<lparr>moving := \<lparr>up = (r3 > 3 / 10), down = False, left = False,
                                     right = False\<rparr>\<rparr>) w4"
  obtain r4 w6 where r4: "Math_random ?w5 = (r4, w6)" by (cases "Math_random ?w5")
  have s4: "fire_step w3 w4" using fire_step_Math_random[of w3] r3 by simp
  have s5: "fire_step w4 ?w5" by (rule fire_step_modify) (rule moving_kept)
  have s6: "fire_step ?w5 w6" using fire_step_Math_random[of ?w5] r4 by simp
  have s06: "fire_step w w6"
    by (rule fire_step_trans[OF assms], rule fire_step_trans[OF s4], rule fire_step_trans[OF s5], rule s6)
  have "fire_step w (if r4 < 5 / 100 then snd (fireBullet i w6) else w6)"
  proof (cases "r4 < 5 / 100")
    case True
    have "fire_step w (snd (fireBullet i w6))"
      by (rule fire_step_trans[OF s06], rule fire_step_fireBullet)
    with True show ?thesis by (simp only: if_True)
  next
    case False
    with s06 show ?thesis by (simp only: if_False)
  qed
  then show ?thesis using r3 r4 by (simp add: Let_def)
qed

lemma bot_roam_step: "fire_step w (bot_roam j i w)"
proof -
  let ?w1 = "set_bot_state j Roaming w"
  obtain r1 w2 where r1: "Math_random ?w1 = (r1, w2)" by (cases "Math_random ?w1")
  obtain r2 w2a where r2: "Math_random w2 = (r2, w2a)" by (cases "Math_random w2")
  have s2: "fire_step ?w1 w2" using fire_step_Math_random[of ?w1] r1 by simp
  have s2a: "fire_step w2 w2a" using fire_step_Math_random[of w2] r2 by simp
  have s02: "fire_step w w2" by (rule fire_step_trans[OF fire_step_set_bot_state], rule s2)
  show ?thesis
  proof (cases "r1 < 1 / 10")
    case True
    let ?w3 = "modify_tank i (\<lambda>t. t\<lparr>angle := angle t + (r2 - 5 / 10) * (5 / 10)\<rparr>) w2a"
    have s3: "fire_step w ?w3"
      by (rule fire_step_trans[OF s02], rule fire_step_trans[OF s2a], rule fire_step_modify,
          rule angle_kept)
    from bot_roam_tail[OF s3, of i] True r1 r2 show ?thesis
      by (simp add: bot_roam_def Let_def)
  next
    case False
    from bot_roam_tail[OF s02, of i] False r1 show ?thesis
      by (simp add: bot_roam_def Let_def)
  qed
qed

lemma fire_step_if_modify:
  "fire_step w (if c then modify_tank i (\<lambda>t. t\<lparr>angle := a t\<rparr>) w else w)"
  by (simp add: fire_step_modify angle_kept)

lemma bot_avoid_step: "fire_step w (bot_avoid i w)"
proof -
  have f: "fire_step w' (fold (\<lambda>obs w'. if distance (tanks w' ! i) obs < 80
                               then modify_tank i (\<lambda>t. t\<lparr>angle := angle t + pi / 4\<rparr>) w'
                               else w') os w')" for os w'
  proof (induction os arbitrary: w')
    case Nil then show ?case by simp
  next
    case (Cons ob os)
    show ?case
      by (simp only: fold_simps) (rule fire_step_trans[OF fire_step_if_modify], rule Cons.IH)
  qed
  show ?thesis
    unfolding bot_avoid_def Let_def
    by (rule fire_step_trans[OF f], rule fire_step_trans[OF fire_step_if_modify],
        rule fire_step_trans[OF fire_step_if_modify], rule fire_step_trans[OF fire_step_if_modify],
        rule fire_step_if_modify)
qed

lemma bot_update_step: "fire_step w (bot_update j w)"
proof -
  obtain now w1 where dn: "Date_now w = (now, w1)" by (cases "Date_now w")
  have s1: "fire_step w w1"
    using tick_step_Date_now[of w] dn by (simp add: tick_step_fire_step)
  let ?w2 = "w1\<lparr>bots := (bots w1)[j := (bots w1 ! j)\<lparr>lastDecision := now\<rparr>]\<rparr>"
  have s2: "fire_step w ?w2" by (rule fire_step_trans[OF s1]) (rule fire_step_bots)
  show ?thesis
  proof (cases "now - lastDecision (bots w1 ! j) < BOT_REACTION_TIME")
    case True
    with dn s1 show ?thesis by (simp add: bot_update_def)
  next
    case False
    show ?thesis
    proof (cases "tank_index (botTank (bots ?w2 ! j)) ?w2")
      case None
      with False dn have "bot_update j w = ?w2" by (simp add: bot_update_def Let_def)
      with s2 show ?thesis by (simp only:)
    next
      case (Some i)
      let ?w3 = "(case fold (nearer (tanks ?w2 ! i)) (tanks ?w2) None of
                         None \<Rightarrow> bot_roam j i ?w2
                       | Some (nearestPlayer, nearestDist) \<Rightarrow>
                           if nearestDist < 400 then bot_attack j i nearestPlayer nearestDist ?w2
                           else bot_roam j i ?w2)"
      from False dn Some have eq: "bot_update j w = bot_avoid i ?w3"
        by (simp add: bot_update_def Let_def)
      have s3: "fire_step ?w2 ?w3"
        by (auto split: option.splits intro: bot_roam_step bot_attack_step)
      show ?thesis
        unfolding eq
        by (rule fire_step_trans[OF s2], rule fire_step_trans[OF s3], rule bot_avoid_step)
    qed
  qed
qed

lemma bot_update_fold_step: "fire_step w (fold bot_update js w)"
proof (induction js arbitrary: w)
  case Nil then show ?case by simp
next
  case (Cons j js)
  show ?case
    by (simp only: fold_simps) (rule fire_step_trans[OF bot_update_step], rule Cons.IH)
qed

subsection \<open>Invariants of the world\<close>

lemma tick_kept_maps:
  assumes "list_all2 (tick_kept g) ts ts'"
  shows "map tankId ts' = map tankId ts"
    and "map (\<lambda>t. (deviceId t, isBot t)) ts' = map (\<lambda>t. (deviceId t, isBot t)) ts"
    and "map ws ts' = map ws ts"
  using assms by (induction rule: list_all2_induct) (simp_all add: tick_kept_def)

lemma tick_kept_all_ok:
  assumes "list_all2 (tick_kept True) ts ts'" and "\<forall>t \<in> set ts. tank_ok t"
  shows "\<forall>t \<in> set ts'. tank_ok t"
  using assms by (induction rule: list_all2_induct) (simp_all add: tick_kept_def)

lemma device_count_map:
  "length (filter (\<lambda>t. deviceId t = Some d \<and> \<not> isBot t) ts) =
     length (filter (\<lambda>p. fst p = Some d \<and> \<not> snd p) (map (\<lambda>t. (deviceId t, isBot t)) ts))"
  by (induction ts) simp_all

lemma invariant_kept:
  assumes "invariant w"
    and "list_all2 (tick_kept True) (tanks w) (tanks w')"
    and "\<forall>b \<in> set (bullets w'). b \<in> set (bullets w) \<or> 0 \<le> bulletDamage b"
  shows "invariant w'"
proof -
  from assms(1) have ok: "\<forall>t \<in> set (tanks w). tank_ok t"
    and bs: "\<forall>b \<in> set (bullets w). 0 \<le> bulletDamage b"
    and di: "distinct (map tankId (tanks w))"
    and od: "\<forall>d. length (filter (\<lambda>t. deviceId t = Some d \<and> \<not> isBot t) (tanks w)) \<le> 1"
    by (simp_all add: invariant_def world_ok_def distinct_ids_def one_tank_per_device_def)
  have "\<forall>t \<in> set (tanks w'). tank_ok t" using assms(2) ok by (rule tick_kept_all_ok)
  moreover have "\<forall>b \<in> set (bullets w'). 0 \<le> bulletDamage b" using assms(3) bs by blast
  moreover have "distinct (map tankId (tanks w'))" using di tick_kept_maps(1)[OF assms(2)] by simp
  moreover have "\<forall>d. length (filter (\<lambda>t. deviceId t = Some d \<and> \<not> isBot t) (tanks w')) \<le> 1"
    using od tick_kept_maps(2)[OF assms(2)] by (simp add: device_count_map)
  ultimately show ?thesis
    by (simp add: invariant_def world_ok_def distinct_ids_def one_tank_per_device_def)
qed

lemma invariant_fire_step: "invariant w \<Longrightarrow> fire_step w w' \<Longrightarrow> invariant w'"
  by (erule invariant_kept) (auto simp: fire_step_def)

lemma invariant_tick_step: "invariant w \<Longrightarrow> tick_step w w' \<Longrightarrow> invariant w'"
  by (erule invariant_fire_step) (erule tick_step_fire_step)

lemma invariant_update_bullets: "invariant w \<Longrightarrow> invariant (update_bullets w)"
proof (rule invariant_kept)
  assume inv: "invariant w"
  then have g: "\<forall>b \<in> set (bullets w). 0 \<le> bulletDamage b"
    by (simp add: invariant_def world_ok_def)
  with update_bullets_kept[of w]
  have "list_all2 (damage_kept True) (tanks w) (tanks (update_bullets w))"
    by (auto elim: list_all2_damage_weaken)
  then show "list_all2 (tick_kept True) (tanks w) (tanks (update_bullets w))"
    by (rule list_all2_damage_tick)
  have "0 \<le> bulletDamage b" if "b \<in> set (bullets (update_bullets w))" for b
  proof -
    from that update_bullets_kept[of w] obtain b0 where "b0 \<in> set (bullets w)" "b = bullet_update b0"
      by auto
    with g show ?thesis by (simp add: bullet_update_def)
  qed
  then show "\<forall>b \<in> set (bullets (update_bullets w)).
       b \<in> set (bullets w) \<or> 0 \<le> bulletDamage b" by simp
qed

lemma invariant_updateGame: "invariant w \<Longrightarrow> invariant (updateGame w)"
  unfolding updateGame_def Let_def
  by (rule invariant_fire_step[OF _ bot_update_fold_step], rule invariant_update_bullets,
      rule invariant_tick_step[OF _ update_tank_fold_step])

lemma updateGame_identities:
  "map tankId (tanks (updateGame w)) = map tankId (tanks w)
   \<and> map (\<lambda>t. (deviceId t, isBot t)) (tanks (updateGame w)) = map (\<lambda>t. (deviceId t, isBot t)) (tanks w)
   \<and> map ws (tanks (updateGame w)) = map ws (tanks w)"
proof -
  let ?w1 = "fold update_tank [0..<length (tanks w)] w"
  let ?w2 = "update_bullets ?w1"
  have a: "list_all2 (tick_kept False) (tanks w) (tanks ?w1)"
    using update_tank_fold_step[of w "[0..<length (tanks w)]"]
    by (auto simp: tick_step_def elim!: list_all2_mono tick_kept_weaken)
  have b: "list_all2 (tick_kept False) (tanks ?w1) (tanks ?w2)"
    using update_bullets_kept[of ?w1]
    by (auto elim!: list_all2_mono tick_kept_weaken dest!: damage_kept_tick_kept)
  have c: "list_all2 (tick_kept False) (tanks ?w2) (tanks (fold bot_update [0..<length (bots ?w2)] ?w2))"
    using bot_update_fold_step[of ?w2 "[0..<length (bots ?w2)]"]
    by (auto simp: fire_step_def elim!: list_all2_mono tick_kept_weaken)
  have "list_all2 (tick_kept False) (tanks w) (tanks (updateGame w))"
    unfolding updateGame_def Let_def
    by (rule list_all2_tick_trans[OF a], rule list_all2_tick_trans[OF b], rule c)
  then show ?thesis by (simp add: tick_kept_maps)
qed

subsection \<open>What the handlers change\<close>

lemma invariant_same:
  "invariant w \<Longrightarrow> tanks w' = tanks w \<Longrightarrow> bullets w' = bullets w \<Longrightarrow> invariant w'"
  by (simp add: invariant_def world_ok_def distinct_ids_def one_tank_per_device_def)

lemma invariant_filter:
  assumes "invariant w" and "tanks w' = filter P (tanks w)" and "bullets w' = bullets w"
  shows "invariant w'"
proof -
  have "length (filter Q (filter P ts)) \<le> length (filter Q ts)" for Q and ts :: "tank list"
    by (induction ts) auto
  then have "length (filter Q (filter P (tanks w))) \<le> 1" if "length (filter Q (tanks w)) \<le> 1" for Q
    using that le_trans by blast
  with assms show ?thesis
    by (auto simp: invariant_def world_ok_def distinct_ids_def one_tank_per_device_def
          distinct_map_filter)
qed

lemma filter_update_count:
  "length (filter Q (ts[i := v])) \<le> length (filter Q ts) + (if Q v then 1 else 0)"
proof (induction ts arbitrary: i)
  case Nil then show ?case by simp
next
  case (Cons t ts)
  show ?case
  proof (cases i)
    case 0 then show ?thesis by simp
  next
    case (Suc k)
    with Cons.IH[of k] show ?thesis by (auto split: if_splits)
  qed
qed

lemma first_index_map:
  "first_index P xs = Some i \<Longrightarrow> (\<And>v. P v \<Longrightarrow> f v = k) \<Longrightarrow> (map f xs)[i := k] = map f xs"
  using first_index_SomeD[of P xs i] by (simp add: list_update_same_conv)

lemma invariant_tanks_set:
  assumes inv: "invariant w" and ok: "tank_ok t"
    and dev: "isBot t \<or> (\<forall>u \<in> set (tanks w). isBot u \<or> deviceId u \<noteq> deviceId t)"
  shows "invariant (tanks_set t w)"
proof -
  from inv have oks: "\<forall>t \<in> set (tanks w). tank_ok t"
    and bs: "\<forall>b \<in> set (bullets w). 0 \<le> bulletDamage b"
    and di: "distinct (map tankId (tanks w))"
    and od: "\<And>d. length (filter (\<lambda>t. deviceId t = Some d \<and> \<not> isBot t) (tanks w)) \<le> 1"
    by (simp_all add: invariant_def world_ok_def distinct_ids_def one_tank_per_device_def)
  let ?Q = "\<lambda>d t. deviceId t = Some d \<and> \<not> isBot t"
  have none: "filter (?Q d) (tanks w) = []" if "?Q d t" for d
    using dev that by (auto simp: filter_empty_conv)
  show ?thesis
  proof (cases "tank_index (tankId t) w")
    case None
    then have new: "tankId t \<notin> set (map tankId (tanks w))"
      using first_index_None[of "\<lambda>u. tankId u = tankId t" "tanks w"] by (auto simp: tank_index_def)
    have ts: "tanks (tanks_set t w) = tanks w @ [t]" "bullets (tanks_set t w) = bullets w"
      using None by (simp_all add: tanks_set_def)
    have "length (filter (?Q d) (tanks w @ [t])) \<le> 1" for d
    proof (cases "?Q d t")
      case True
      then have "filter (?Q d) (tanks w) = []" by (rule none)
      with True show ?thesis by simp
    next
      case False
      with od[of d] show ?thesis by auto
    qed
    with oks bs di new ok show ?thesis
      by (simp add: ts invariant_def world_ok_def distinct_ids_def one_tank_per_device_def)
  next
    case (Some i)
    then have fi: "first_index (\<lambda>u. tankId u = tankId t) (tanks w) = Some i"
      by (simp add: tank_index_def)
    have ts: "tanks (tanks_set t w) = (tanks w)[i := t]" "bullets (tanks_set t w) = bullets w"
      using Some by (simp_all add: tanks_set_def)
    have ids: "map tankId ((tanks w)[i := t]) = map tankId (tanks w)"
      using first_index_map[OF fi, of tankId "tankId t"] by (simp add: map_update)
    have "length (filter (?Q d) ((tanks w)[i := t])) \<le> 1" for d
    proof (cases "?Q d t")
      case True
      then have "filter (?Q d) (tanks w) = []" by (rule none)
      with True filter_update_count[of "?Q d" "tanks w" i t] show ?thesis by simp
    next
      case False
      with filter_update_count[of "?Q d" "tanks w" i t] od[of d] show ?thesis by auto
    qed
    moreover have "\<forall>u \<in> set ((tanks w)[i := t]). tank_ok u"
      using oks ok set_update_subset_insert[of "tanks w" i t] by auto
    ultimately show ?thesis using bs di ids
      by (simp add: ts invariant_def world_ok_def distinct_ids_def one_tank_per_device_def)
  qed
qed

lemma validateTankColor_frame:
  "\<exists>n. snd (validateTankColor c w) = w\<lparr>rng_next := n\<rparr>"
proof -
  have a: "snd (randomBrightColor w) = w\<lparr>rng_next := Suc (rng_next w)\<rparr>"
    by (simp add: randomBrightColor_def Math_random_def Let_def)
  have b: "w = w\<lparr>rng_next := rng_next w\<rparr>" by simp
  show ?thesis
    unfolding validateTankColor_def
    by (auto split: option.splits intro: exI[of _ "Suc (rng_next w)"] exI[of _ "rng_next w"] simp: a)
qed

lemma new_Tank_world:
  "\<exists>n. snd (new_Tank k nm pc sc av is_bot w) =
          w\<lparr>rng_next := n, timers := timers w @ [(k, spawnProtection_timer)]\<rparr>"
proof -
  obtain pos w1 where f: "findSafeSpawnPosition w = (pos, w1)" by (cases "findSafeSpawnPosition w")
  with findSafeSpawnPosition_frame[of w] obtain n1 where w1: "w1 = w\<lparr>rng_next := n1\<rparr>" by auto
  obtain c1 w2 where v1: "validateTankColor pc w1 = (c1, w2)" by (cases "validateTankColor pc w1")
  with validateTankColor_frame[of pc w1] w1 obtain n2 where w2: "w2 = w\<lparr>rng_next := n2\<rparr>" by auto
  obtain c2 w3 where v2: "validateTankColor sc w2 = (c2, w3)" by (cases "validateTankColor sc w2")
  with validateTankColor_frame[of sc w2] w2 obtain n3 where w3: "w3 = w\<lparr>rng_next := n3\<rparr>" by auto
  have "snd (new_Tank k nm pc sc av is_bot w) =
          w\<lparr>rng_next := Suc n3, timers := timers w @ [(k, spawnProtection_timer)]\<rparr>"
    using f v1 v2 w3
    by (simp add: new_Tank_def Let_def Math_random_def setTimeout_def)
  then show ?thesis by blast
qed

lemma new_Tank_tank:
  "tankId (fst (new_Tank k nm pc sc av is_bot w)) = k"
  "isBot (fst (new_Tank k nm pc sc av is_bot w))  = is_bot"
  "deviceId (fst (new_Tank k nm pc sc av is_bot w)) = None"
  "ws (fst (new_Tank k nm pc sc av is_bot w)) = None"
  "hp (fst (new_Tank k nm pc sc av is_bot w)) = BASE_HEALTH"
  "maxHp (fst (new_Tank k nm pc sc av is_bot w)) = BASE_HEALTH"
  "score (fst (new_Tank k nm pc sc av is_bot w)) = 0"
  "kills (fst (new_Tank k nm pc sc av is_bot w)) = 0"
  "deaths (fst (new_Tank k nm pc sc av is_bot w)) = 0"
  "name (fst (new_Tank k nm pc sc av is_bot w)) = sanitizeTankName nm"
  by (simp_all add: new_Tank_def Let_def split: prod.splits)

lemma Date_now_frame: "snd (Date_now w) = w\<lparr>clock_next := Suc (clock_next w)\<rparr>"
  by (simp add: Date_now_def)

lemma tank_toJSON_frame: "snd (tank_toJSON t w) = w\<lparr>clock_next := Suc (clock_next w)\<rparr>"
  by (simp add: tank_toJSON_def Date_now_def Let_def)

lemma tanks_toJSON_fold_frame:
  "\<exists>n. snd (fold (\<lambda>t (js, w'). let (j, w1) = tank_toJSON t w' in (js @ [j], w1)) ts (js0, w))
          = w\<lparr>clock_next := n\<rparr>"
proof (induction ts arbitrary: js0 w)
  case Nil
  have "w = w\<lparr>clock_next := clock_next w\<rparr>" by simp
  then show ?case by (auto intro: exI[of _ "clock_next w"])
next
  case (Cons t ts)
  obtain j w1 where tj: "tank_toJSON t w = (j, w1)" by (cases "tank_toJSON t w")
  with tank_toJSON_frame[of t w] have w1: "w1 = w\<lparr>clock_next := Suc (clock_next w)\<rparr>" by simp
  from Cons.IH[of "js0 @ [j]" w1] obtain n where
    "snd (fold (\<lambda>t (js, w'). let (j, w1) = tank_toJSON t w' in (js @ [j], w1)) ts (js0 @ [j], w1))
       = w1\<lparr>clock_next := n\<rparr>" by blast
  then show ?case using tj w1 by (auto simp: Let_def)
qed

lemma snapshot_frame: "\<exists>n. snd (snapshot w) = w\<lparr>clock_next := n\<rparr>"
proof -
  obtain ts w1 where t: "tanks_toJSON w = (ts, w1)" by (cases "tanks_toJSON w")
  with tanks_toJSON_fold_frame[of "tanks w" "[]" w] obtain n where "w1 = w\<lparr>clock_next := n\<rparr>"
    by (auto simp: tanks_toJSON_def)
  with t show ?thesis by (auto simp: snapshot_def Let_def)
qed

lemma sendTo_open_frame:
  "sendTo_open c m w = w \<or> sendTo_open c m w = w\<lparr>sent := sent w @ [(Connection c, m)]\<rparr>"
  by (simp add: sendTo_open_def sendTo_def split: option.splits)

lemma sendTo_open_fields [simp]:
  "tanks (sendTo_open c m w) = tanks w"
  "bullets (sendTo_open c m w) = bullets w"
  "clients (sendTo_open c m w) = clients w"
  "bots (sendTo_open c m w) = bots w"
  "bannedIPs (sendTo_open c m w) = bannedIPs w"
  using sendTo_open_frame[of c m w] by auto

lemma modify_client_fields [simp]:
  "tanks (modify_client c f w) = tanks w"
  "bullets (modify_client c f w) = bullets w"
  "bots (modify_client c f w) = bots w"
  "sent (modify_client c f w) = sent w"
  "clients (modify_client c f w) = map (\<lambda>cl. if conn cl = c then f cl else cl) (clients w)"
  by (simp_all add: modify_client_def)

lemma same_identity_refl [simp]: "same_identity t t"
  by (simp add: same_identity_def)

lemma invariant_same_identity:
  assumes "invariant w"
    and "list_all2 same_identity (tanks w) (tanks w')"
    and "bullets w' = bullets w"
  shows "invariant w'"
proof -
  from assms(1) have ok: "\<forall>t \<in> set (tanks w). tank_ok t"
    and bs: "\<forall>b \<in> set (bullets w). 0 \<le> bulletDamage b"
    and di: "distinct (map tankId (tanks w))"
    and od: "\<forall>d. length (filter (\<lambda>t. deviceId t = Some d \<and> \<not> isBot t) (tanks w)) \<le> 1"
    by (simp_all add: invariant_def world_ok_def distinct_ids_def one_tank_per_device_def)
  from assms(2) have m: "map tankId (tanks w') = map tankId (tanks w)"
    "map (\<lambda>t. (deviceId t, isBot t)) (tanks w') = map (\<lambda>t. (deviceId t, isBot t)) (tanks w)"
    by (induction rule: list_all2_induct) (simp_all add: same_identity_def)
  from assms(2) ok have "\<forall>t \<in> set (tanks w'). tank_ok t"
    by (induction rule: list_all2_induct) (simp_all add: same_identity_def)
  then show ?thesis
    using bs di od m assms(3)
    by (simp add: invariant_def world_ok_def distinct_ids_def one_tank_per_device_def
          device_count_map)
qed

lemma invariant_modify:
  assumes "invariant w" and "\<And>t. same_identity t (f t)"
  shows "invariant (modify_tank i f w)"
  using assms(1)
  by (rule invariant_same_identity) (simp_all add: list_all2_update_right assms(2))

lemma fold_preserves:
  "(\<And>v s. P s \<Longrightarrow> P (f v s)) \<Longrightarrow> P s \<Longrightarrow> P (fold f vs s)"
  by (induction vs arbitrary: s) simp_all

lemma existing_tank_NoneD:
  "existing_tank d w = None \<Longrightarrow> \<forall>u \<in> set (tanks w). isBot u \<or> deviceId u \<noteq> Some d"
  using first_index_None[of "\<lambda>t. deviceId t = Some d \<and> \<not> isBot t" "tanks w"]
  by (auto simp: existing_tank_def)

lemma existing_tank_SomeD:
  "existing_tank d w = Some i \<Longrightarrow>
     i < length (tanks w) \<and> deviceId (tanks w ! i) = Some d \<and> \<not> isBot (tanks w ! i)"
  using first_index_SomeD[of "\<lambda>t. deviceId t = Some d \<and> \<not> isBot t" "tanks w" i]
  by (simp add: existing_tank_def)

lemma tanks_set_fields [simp]:
  "bullets (tanks_set t w) = bullets w"
  "clients (tanks_set t w) = clients w"
  "sent (tanks_set t w) = sent w"
  by (simp_all add: tanks_set_def split: option.splits)

text \<open>The tank that a join creates and stores, and the world it is stored in.\<close>

lemma join_new_invariant:
  assumes inv: "invariant w" and none: "existing_tank dev w = None"
    and w3: "tanks w3 = tanks w" "bullets w3 = bullets w"
    and t: "tank_ok t" "\<not> isBot t"
  shows "invariant (tanks_set (t\<lparr>deviceId := Some dev, ws := Some c\<rparr>) w3)"
proof (rule invariant_tanks_set)
  show "invariant w3" using inv w3 by (rule invariant_same)
  show "tank_ok (t\<lparr>deviceId := Some dev, ws := Some c\<rparr>)" using t(1) by (simp add: tank_ok_def)
  show "isBot (t\<lparr>deviceId := Some dev, ws := Some c\<rparr>) \<or>
    (\<forall>u\<in>set (tanks w3). isBot u \<or> deviceId u \<noteq> deviceId (t\<lparr>deviceId := Some dev, ws := Some c\<rparr>))"
    using existing_tank_NoneD[OF none] w3(1) by simp
qed

lemma new_Tank_ok: "tank_ok (fst (new_Tank k nm pc sc av is_bot w))"
  by (simp add: tank_ok_def new_Tank_tank BASE_HEALTH_def)

lemma new_Tank_fields [simp]:
  "tanks (snd (new_Tank k nm pc sc av is_bot w)) = tanks w"
  "bullets (snd (new_Tank k nm pc sc av is_bot w)) = bullets w"
  "clients (snd (new_Tank k nm pc sc av is_bot w)) = clients w"
  "sent (snd (new_Tank k nm pc sc av is_bot w)) = sent w"
  using new_Tank_world[of k nm pc sc av is_bot w] by auto

lemma tank_toJSON_fields [simp]:
  "tanks (snd (tank_toJSON t w)) = tanks w"
  "bullets (snd (tank_toJSON t w)) = bullets w"
  "clients (snd (tank_toJSON t w)) = clients w"
  "sent (snd (tank_toJSON t w)) = sent w"
  by (simp_all add: tank_toJSON_frame)

lemma snapshot_fields [simp]:
  "tanks (snd (snapshot w)) = tanks w"
  "bullets (snd (snapshot w)) = bullets w"
  "clients (snd (snapshot w)) = clients w"
  "sent (snd (snapshot w)) = sent w"
  using snapshot_frame[of w] by auto

lemma uuidv4_fields [simp]:
  "tanks (snd (uuidv4 w)) = tanks w"
  "bullets (snd (uuidv4 w)) = bullets w"
  "clients (snd (uuidv4 w)) = clients w"
  "sent (snd (uuidv4 w)) = sent w"
  by (simp_all add: uuidv4_def)

lemma ws_kept: "same_identity t (t\<lparr>ws := v\<rparr>)"
  by (simp add: same_identity_def tank_ok_def)

text \<open>The two join handlers, by the case of the search.\<close>

lemma esp32Join_existing:
  assumes "existing_tank (device_identifier d) w = Some i"
  shows "esp32Join c d w =
     sendTo_open c (msg ''joined'' [(''playerId'', JStr (tankId (tanks w ! i)))])
       (modify_client c
          (\<lambda>cl. cl\<lparr>ws_playerId := Some (tankId (tanks w ! i)),
                  ws_clientIP := (case find (\<lambda>cl. conn cl = c) (clients w) of
                       None \<Rightarrow> None | Some cl \<Rightarrow> Some (remoteAddress cl)),
                  isESP32 := True\<rparr>)
          (modify_tank i (\<lambda>t. t\<lparr>ws := Some c\<rparr>)
             (modify_client c (\<lambda>cl. cl\<lparr>playerId := Some (tankId (tanks w ! i))\<rparr>) w)))"
  using assms by (simp add: esp32Join_def Let_def)

lemma esp32Join_new:
  assumes "existing_tank (device_identifier d) w = None"
  shows "\<exists>t w3. tanks w3 = tanks w \<and> bullets w3 = bullets w \<and> tank_ok t \<and> \<not> isBot t
           \<and> tankId t = uuid_gen w (uuid_next w)
           \<and> tanks (esp32Join c d w) =
               tanks (tanks_set (t\<lparr>deviceId := Some (device_identifier d), ws := Some c\<rparr>) w3)
           \<and> bullets (esp32Join c d w) = bullets w"
proof -
  let ?dev = "device_identifier d"
  obtain pid w1 where u: "uuidv4 w = (pid, w1)" by (cases "uuidv4 w")
  let ?w2 = "modify_client c (\<lambda>cl. cl\<lparr>playerId := Some pid\<rparr>) w1"
  obtain t w3 where nt: "new_Tank pid (join_name d) (join_primaryColor d)
                                    (join_secondaryColor d) (join_avatarUrl d) False ?w2 = (t, w3)"
    by (cases "new_Tank pid (join_name d) (join_primaryColor d)
                                    (join_secondaryColor d) (join_avatarUrl d) False ?w2")
  have w1: "tanks w1 = tanks w" "bullets w1 = bullets w" "pid = uuid_gen w (uuid_next w)"
    using u by (auto simp: uuidv4_def)
  have w3s: "w3 = snd (new_Tank pid (join_name d) (join_primaryColor d)
                                    (join_secondaryColor d) (join_avatarUrl d) False ?w2)"
    and ts: "t = fst (new_Tank pid (join_name d) (join_primaryColor d)
                                    (join_secondaryColor d) (join_avatarUrl d) False ?w2)"
    using nt by simp_all
  have w3: "tanks w3 = tanks w" "bullets w3 = bullets w"
    unfolding w3s using w1 by simp_all
  have t: "tank_ok t" "\<not> isBot t" "tankId t = pid"
    unfolding ts by (simp_all add: new_Tank_ok new_Tank_tank)
  let ?stored = "t\<lparr>deviceId := Some ?dev, ws := Some c\<rparr>"
  have "tanks (esp32Join c d w) = tanks (tanks_set ?stored w3)
        \<and> bullets (esp32Join c d w) = bullets w"
    using assms u nt w3
    by (simp add: esp32Join_def Let_def split_beta)
  with w3 t w1(3) show ?thesis by blast
qed

lemma simulatorJoin_rejected:
  "adminPassword \<noteq> Some ADMIN_PASSWORD \<Longrightarrow>
     simulatorJoin c d adminPassword w =
       sendTo_open c (msg ''error''
             [(''message'', JStr ''Invalid admin password for simulator'')]) w"
  by (simp add: simulatorJoin_def)

lemma simulatorJoin_existing:
  assumes "existing_tank (device_identifier d) w = Some i"
  shows "tanks (simulatorJoin c d (Some ADMIN_PASSWORD) w) = (tanks w)[i := (tanks w ! i)\<lparr>ws := Some c\<rparr>]
     \<and> bullets (simulatorJoin c d (Some ADMIN_PASSWORD) w) = bullets w
     \<and> clients (simulatorJoin c d (Some ADMIN_PASSWORD) w) =
         clients (modify_client c
          (\<lambda>cl. cl\<lparr>ws_playerId := Some (tankId (tanks w ! i)),
                  ws_clientIP := (case find (\<lambda>cl. conn cl = c) (clients w) of
                       None \<Rightarrow> None | Some cl \<Rightarrow> Some (remoteAddress cl))\<rparr>)
          (modify_tank i (\<lambda>t. t\<lparr>ws := Some c\<rparr>)
             (modify_client c (\<lambda>cl. cl\<lparr>playerId := Some (tankId (tanks w ! i))\<rparr>) w)))"
proof -
  let ?pid = "tankId (tanks w ! i)"
  let ?w3 = "modify_client c
          (\<lambda>cl. cl\<lparr>ws_playerId := Some ?pid,
                  ws_clientIP := (case find (\<lambda>cl. conn cl = c) (clients w) of
                       None \<Rightarrow> None | Some cl \<Rightarrow> Some (remoteAddress cl))\<rparr>)
          (modify_tank i (\<lambda>t. t\<lparr>ws := Some c\<rparr>)
             (modify_client c (\<lambda>cl. cl\<lparr>playerId := Some ?pid\<rparr>) w))"
  obtain tj w4 where tj: "tank_toJSON (tanks ?w3 ! i) ?w3 = (tj, w4)"
    by (cases "tank_toJSON (tanks ?w3 ! i) ?w3")
  obtain gs w5 where gs: "snapshot w4 = (gs, w5)" by (cases "snapshot w4")
  have eq: "simulatorJoin c d (Some ADMIN_PASSWORD) w =
      sendTo_open c (msg ''joined''
                     [(''playerId'', JStr ?pid), (''tank'', tj), (''config'', CONFIG_json),
                      (''gameState'', gs)]) w5"
    using assms tj gs by (simp add: simulatorJoin_def Let_def)
  have w4s: "w4 = snd (tank_toJSON (tanks ?w3 ! i) ?w3)" using tj by simp
  have w5s: "w5 = snd (snapshot w4)" using gs by simp
  have w4: "tanks w4 = tanks ?w3" "bullets w4 = bullets ?w3" "clients w4 = clients ?w3"
    unfolding w4s by (simp_all only: tank_toJSON_fields)
  have w5: "tanks w5 = tanks w4" "bullets w5 = bullets w4" "clients w5 = clients w4"
    unfolding w5s by (simp_all only: snapshot_fields)
  show ?thesis
    unfolding eq by (simp add: w4 w5)
qed

lemma simulatorJoin_new:
  assumes "existing_tank (device_identifier d) w = None"
  shows "\<exists>t w3. tanks w3 = tanks w \<and> bullets w3 = bullets w \<and> tank_ok t \<and> \<not> isBot t
           \<and> tankId t = uuid_gen w (uuid_next w)
           \<and> tanks (simulatorJoin c d (Some ADMIN_PASSWORD) w) =
               tanks (tanks_set (t\<lparr>deviceId := Some (device_identifier d), ws := Some c\<rparr>) w3)
           \<and> bullets (simulatorJoin c d (Some ADMIN_PASSWORD) w) = bullets w"
proof -
  let ?dev = "device_identifier d"
  obtain pid w1 where u: "uuidv4 w = (pid, w1)" by (cases "uuidv4 w")
  let ?w2 = "modify_client c (\<lambda>cl. cl\<lparr>playerId := Some pid\<rparr>) w1"
  obtain t w3 where nt: "new_Tank pid (join_name d) (join_primaryColor d)
                                    (join_secondaryColor d) (join_avatarUrl d) False ?w2 = (t, w3)"
    by (cases "new_Tank pid (join_name d) (join_primaryColor d)
                                    (join_secondaryColor d) (join_avatarUrl d) False ?w2")
  have w1: "tanks w1 = tanks w" "bullets w1 = bullets w" "pid = uuid_gen w (uuid_next w)"
    using u by (auto simp: uuidv4_def)
  have w3s: "w3 = snd (new_Tank pid (join_name d) (join_primaryColor d)
                                    (join_secondaryColor d) (join_avatarUrl d) False ?w2)"
    and ts: "t = fst (new_Tank pid (join_name d) (join_primaryColor d)
                                    (join_secondaryColor d) (join_avatarUrl d) False ?w2)"
    using nt by simp_all
  have w3: "tanks w3 = tanks w" "bullets w3 = bullets w"
    unfolding w3s using w1 by simp_all
  have t: "tank_ok t" "\<not> isBot t" "tankId t = pid"
    unfolding ts by (simp_all add: new_Tank_ok new_Tank_tank)
  let ?stored = "t\<lparr>deviceId := Some ?dev, ws := Some c\<rparr>"
  have "tanks (simulatorJoin c d (Some ADMIN_PASSWORD) w) = tanks (tanks_set ?stored w3)
        \<and> bullets (simulatorJoin c d (Some ADMIN_PASSWORD) w) = bullets w"
    using assms u nt w3
    by (simp add: simulatorJoin_def Let_def split_beta)
  with w3 t w1(3) show ?thesis by blast
qed

lemma invariant_esp32Join: "invariant w \<Longrightarrow> invariant (esp32Join c d w)"
proof (cases "existing_tank (device_identifier d) w")
  case None
  assume inv: "invariant w"
  from esp32Join_new[OF None, of c] obtain t w3 where
    h: "tanks w3 = tanks w" "bullets w3 = bullets w" "tank_ok t" "\<not> isBot t"
       "tanks (esp32Join c d w) =
               tanks (tanks_set (t\<lparr>deviceId := Some (device_identifier d), ws := Some c\<rparr>) w3)"
       "bullets (esp32Join c d w) = bullets w" by blast
  have "invariant (tanks_set (t\<lparr>deviceId := Some (device_identifier d), ws := Some c\<rparr>) w3)"
    using inv None h(1-4) by (rule join_new_invariant)
  then show ?thesis by (rule invariant_same) (simp_all add: h)
next
  case (Some i)
  assume inv: "invariant w"
  show ?thesis
    unfolding esp32Join_existing[OF Some]
    by (rule invariant_same[OF invariant_modify[OF inv, of "\<lambda>t. t\<lparr>ws := Some c\<rparr>" i]])
       (simp_all add: ws_kept)
qed

lemma invariant_simulatorJoin: "invariant w \<Longrightarrow> invariant (simulatorJoin c d pw w)"
proof (cases "pw = Some ADMIN_PASSWORD")
  case False
  assume inv: "invariant w"
  show ?thesis
    unfolding simulatorJoin_rejected[OF False]
    by (rule invariant_same[OF inv]) simp_all
next
  case True
  assume inv: "invariant w"
  show ?thesis
  proof (cases "existing_tank (device_identifier d) w")
    case None
    from simulatorJoin_new[OF None, of c] obtain t w3 where
      h: "tanks w3 = tanks w" "bullets w3 = bullets w" "tank_ok t" "\<not> isBot t"
         "tanks (simulatorJoin c d (Some ADMIN_PASSWORD) w) =
               tanks (tanks_set (t\<lparr>deviceId := Some (device_identifier d), ws := Some c\<rparr>) w3)"
         "bullets (simulatorJoin c d (Some ADMIN_PASSWORD) w) = bullets w" by blast
    have "invariant (tanks_set (t\<lparr>deviceId := Some (device_identifier d), ws := Some c\<rparr>) w3)"
      using inv None h(1-4) by (rule join_new_invariant)
    then show ?thesis unfolding True by (rule invariant_same) (simp_all add: h)
  next
    case (Some i)
    have "invariant (modify_tank i (\<lambda>t. t\<lparr>ws := Some c\<rparr>) w)"
      by (rule invariant_modify[OF inv]) (rule ws_kept)
    then show ?thesis
      unfolding True
      by (rule invariant_same) (simp_all add: simulatorJoin_existing[OF Some])
  qed
qed

lemma ws_close_fields [simp]:
  "tanks (ws_close c w) = tanks w" "bullets (ws_close c w) = bullets w"
  by (simp_all add: ws_close_def)

lemma invariant_adminKick: "invariant w \<Longrightarrow> invariant (adminKick target w)"
proof -
  assume inv: "invariant w"
  have "tanks (fold (\<lambda>cl w'. if ws_playerId cl = target
                                   then ws_close (conn cl) (sendTo_open (conn cl) (msg ''kicked'' []) w')
                                   else w') cs w) = tanks w
      \<and> bullets (fold (\<lambda>cl w'. if ws_playerId cl = target
                                   then ws_close (conn cl) (sendTo_open (conn cl) (msg ''kicked'' []) w')
                                   else w') cs w) = bullets w" for cs
    by (rule fold_preserves[where P = "\<lambda>s. tanks s = tanks w \<and> bullets s = bullets w"]) simp_all
  then show ?thesis
    using inv by (auto simp: adminKick_def split: option.splits intro: invariant_same)
qed

lemma invariant_adminBan: "invariant w \<Longrightarrow> invariant (adminBan target w)"
proof -
  assume inv: "invariant w"
  have "tanks (adminBan target w) = tanks w \<and> bullets (adminBan target w) = bullets w"
    unfolding adminBan_def
    by (rule fold_preserves[where P = "\<lambda>s. tanks s = tanks w \<and> bullets s = bullets w"]) simp_all
  with inv show ?thesis by (auto intro: invariant_same)
qed

lemma bots_set_fields [simp]:
  "tanks (bots_set b w) = tanks w" "bullets (bots_set b w) = bullets w"
  by (simp_all add: bots_set_def split: option.splits)

lemma invariant_adminSpawnBot: "invariant w \<Longrightarrow> invariant (adminSpawnBot primary secondary w)"
proof -
  assume inv: "invariant w"
  obtain botId w1 where u: "uuidv4 w = (botId, w1)" by (cases "uuidv4 w")
  obtain r w2 where r: "Math_random w1 = (r, w2)" by (cases "Math_random w1")
  let ?pc = "(case primary of None \<Rightarrow> ''#FF5722'' | Some c \<Rightarrow> if c = [] then ''#FF5722'' else c)"
  let ?sc = "(case secondary of None \<Rightarrow> ''#E64A19'' | Some c \<Rightarrow> if c = [] then ''#E64A19'' else c)"
  let ?nt = "new_Tank botId (Some (''Bot_'' @ show_nat (nat \<lfloor>r * 1000\<rfloor>))) (Some ?pc) (Some ?sc)
               (Some []) True w2"
  have w2: "tanks w2 = tanks w" "bullets w2 = bullets w"
    using u r by (auto simp: uuidv4_def Math_random_def)
  have i3: "invariant (snd ?nt)" using inv by (rule invariant_same) (simp_all add: w2)
  have i4: "invariant (tanks_set (fst ?nt) (snd ?nt))"
    using i3 by (rule invariant_tanks_set) (simp_all add: new_Tank_ok new_Tank_tank)
  have "tanks (adminSpawnBot primary secondary w) = tanks (tanks_set (fst ?nt) (snd ?nt))
      \<and> bullets (adminSpawnBot primary secondary w) = bullets (tanks_set (fst ?nt) (snd ?nt))"
    using u r by (simp add: adminSpawnBot_def Let_def split_beta)
  with i4 show ?thesis by (auto intro: invariant_same)
qed

lemma invariant_adminRemoveBot: "invariant w \<Longrightarrow> invariant (adminRemoveBot botId w)"
proof -
  assume inv: "invariant w"
  have "invariant (updateScoreboard (broadcast m ((tanks_delete k w)\<lparr>bots := bs\<rparr>)))" for m k bs
    using inv by (rule invariant_filter[where P = "\<lambda>t. tankId t \<noteq> k"]) (simp_all add: tanks_delete_def)
  then show ?thesis
    using inv by (simp add: adminRemoveBot_def Let_def split: option.splits)
qed

lemma reset_kept: "same_identity t (t\<lparr>score := 0, kills := 0, deaths := 0\<rparr>)"
  by (simp add: same_identity_def tank_ok_def)

lemma invariant_adminResetScoreboard: "invariant w \<Longrightarrow> invariant (adminResetScoreboard w)"
proof -
  assume inv: "invariant w"
  have "list_all2 same_identity ts (map (\<lambda>t. t\<lparr>score := 0, kills := 0, deaths := 0\<rparr>) ts)" for ts
    by (induction ts) (simp_all add: reset_kept)
  then show ?thesis
    using inv unfolding adminResetScoreboard_def Let_def
    by (auto intro!: invariant_same_identity[OF inv])
qed

lemma angle_identity: "same_identity t (t\<lparr>angle := a\<rparr>)"
  by (simp add: same_identity_def tank_ok_def)

lemma moving_identity: "same_identity t (t\<lparr>moving := a\<rparr>)"
  by (simp add: same_identity_def tank_ok_def)

lemma invariant_fire: "invariant w \<Longrightarrow> invariant (snd (fireBullet i w))"
  by (erule invariant_fire_step) (rule fire_step_fireBullet)

lemma invariant_on_message: "invariant w \<Longrightarrow> invariant (on_message c m w)"
proof -
  assume inv: "invariant w"
  show ?thesis
  proof (cases "find (\<lambda>cl. conn cl = c) (clients w)")
    case None
    with inv show ?thesis by (simp add: on_message_def)
  next
    case (Some cl)
    show ?thesis
    proof (cases m)
      case Spectate
      have "invariant (sendTo_open c j (snd (snapshot (modify_client c f w))))" for j f
        using inv by (rule invariant_same) simp_all
      with Some Spectate show ?thesis by (simp add: on_message_def Let_def split_beta)
    next
      case Join
      with Some inv show ?thesis by (auto simp: on_message_def intro: invariant_same)
    next
      case (Move mv)
      with Some inv show ?thesis
        by (auto simp: on_message_def split: option.splits intro: invariant_modify moving_identity)
    next
      case (Rotate a)
      with Some inv show ?thesis
        by (auto simp: on_message_def split: option.splits intro: invariant_modify angle_identity)
    next
      case Fire
      have "invariant (broadcast j (snd (fireBullet i w)))" for j i
        by (rule invariant_same[OF invariant_fire[OF inv]]) simp_all
      with Some Fire inv invariant_fire[OF inv] show ?thesis
        by (auto simp: on_message_def split: option.splits prod.splits dest!: arg_cong[where f = snd])
    next
      case (AdminLogin pw)
      with Some inv show ?thesis by (auto simp: on_message_def intro: invariant_same)
    next
      case (AdminKick t)
      with Some inv show ?thesis by (simp add: on_message_def invariant_adminKick)
    next
      case (AdminBan t)
      with Some inv show ?thesis by (simp add: on_message_def invariant_adminBan)
    next
      case (AdminSpawnBot p s)
      with Some inv show ?thesis by (simp add: on_message_def invariant_adminSpawnBot)
    next
      case (AdminRemoveBot b)
      with Some inv show ?thesis by (simp add: on_message_def invariant_adminRemoveBot)
    next
      case AdminResetScoreboard
      with Some inv show ?thesis by (simp add: on_message_def invariant_adminResetScoreboard)
    next
      case AdminGetPlayers
      with Some inv show ?thesis by (auto simp: on_message_def intro: invariant_same)
    next
      case (SimulatorJoin d pw)
      with Some inv show ?thesis by (simp add: on_message_def invariant_simulatorJoin)
    next
      case (Esp32Join d)
      with Some inv show ?thesis by (simp add: on_message_def invariant_esp32Join)
    next
      case Ignored
      with Some inv show ?thesis by (simp add: on_message_def)
    qed
  qed
qed

lemma on_close_tanks:
  "tanks (on_close c w) = tanks w
   \<or> (\<exists>cl pid tank. find (\<lambda>cl. conn cl = c) (clients w) = Some cl \<and> playerId cl = Some pid
         \<and> tanks_get pid w = Some tank \<and> \<not> isBot tank \<and> ws tank = Some c
         \<and> tanks (on_close c w) = filter (\<lambda>t. tankId t \<noteq> pid) (tanks w))"
  by (auto simp: on_close_def Let_def tanks_delete_def split: option.splits)

lemma on_close_bullets [simp]: "bullets (on_close c w) = bullets w"
  by (auto simp: on_close_def Let_def tanks_delete_def split: option.splits)

lemma invariant_on_close: "invariant w \<Longrightarrow> invariant (on_close c w)"
  using on_close_tanks[of c w]
  by (auto intro: invariant_same invariant_filter)

lemma invariant_heartbeat: "invariant w \<Longrightarrow> invariant (heartbeat w)"
proof -
  assume inv: "invariant w"
  have "invariant (snd (Date_now w))" using inv by (rule invariant_same) (simp_all add: Date_now_def)
  then show ?thesis
    unfolding heartbeat_def Let_def split_beta
    by (rule fold_preserves[where P = invariant, rotated]) (simp add: invariant_on_close)
qed

lemma invariant_on_connection: "invariant w \<Longrightarrow> invariant (on_connection address w)"
  by (erule invariant_same) (simp_all add: on_connection_def Let_def sendTo_def Date_now_def)

lemma invariant_on_pong: "invariant w \<Longrightarrow> invariant (on_pong c w)"
  by (erule invariant_same) (simp_all add: on_pong_def Let_def Date_now_def)

lemma spawnObstacle_bullets [simp]: "bullets (spawnObstacle w) = bullets w"
  by (auto simp: spawnObstacle_def new_Obstacle_def randomPosition_def Math_random_def
      uuidv4_def broadcast_def Let_def split: prod.splits)

lemma invariant_spawnObstacle: "invariant w \<Longrightarrow> invariant (spawnObstacle w)"
  using spawnObstacle_cases[of w] by (auto intro: invariant_same)

lemma invariant_spawnPowerup: "invariant w \<Longrightarrow> invariant (spawnPowerup px py w)"
  by (erule invariant_same) (simp_all add: spawnPowerup_fields)

lemma run_callback_identity: "same_identity t (run_callback cb t)"
  by (cases cb) (simp_all add: same_identity_def tank_ok_def)

lemma invariant_fire_timer: "invariant w \<Longrightarrow> invariant (fire_timer n w)"
proof -
  assume inv: "invariant w"
  have "invariant (w\<lparr>timers := tm\<rparr>)" for tm using inv by (rule invariant_same) simp_all
  then show ?thesis
    using inv
    by (auto simp: fire_timer_def Let_def split: prod.splits option.splits
          intro: invariant_modify run_callback_identity)
qed

lemma invariant_initial: "invariant (initial_world rnd ids clk)"
  by (simp add: invariant_def world_ok_def distinct_ids_def one_tank_per_device_def
        initial_world_def)

lemma invariant_step: "invariant w \<Longrightarrow> invariant (step e w)"
  by (cases e)
     (simp_all add: invariant_updateGame invariant_on_connection invariant_on_message
        invariant_on_pong invariant_on_close invariant_heartbeat invariant_spawnObstacle
        invariant_spawnPowerup invariant_fire_timer)

lemma invariant_run: "invariant w \<Longrightarrow> invariant (run events w)"
  unfolding run_def by (rule fold_preserves[where P = invariant]) (rule invariant_step)

lemma invariant_reachable: "invariant (run events (initial_world rnd ids clk))"
  by (rule invariant_run) (rule invariant_initial)

section \<open>Hit points stay within bounds\<close>

lemma reachable_tanks_ok:
  "t \<in> set (tanks (run events (initial_world rnd ids clk))) \<Longrightarrow> tank_ok t"
  using invariant_reachable[of events rnd ids clk] by (simp add: invariant_def world_ok_def)

lemma tank_ok_bounds: "tank_ok t \<Longrightarrow> 0 < hp t \<and> hp t \<le> maxHp t"
  by (simp add: tank_ok_def)

lemma applyPowerup_ok: "tank_ok t \<Longrightarrow> tank_ok (fst (applyPowerup now T t))"
  using applyPowerup_kept[of True t now T] by (simp add: tick_kept_def)

lemma applyPowerup_HEALTH: "hp (fst (applyPowerup now HEALTH t)) = min (maxHp t) (fadd (hp t) 50)"
  by (simp add: applyPowerup_def)

lemma createExplosion_ok:
  assumes "\<forall>t \<in> set (tanks w). tank_ok t" and "0 \<le> dmg"
  shows "\<forall>t \<in> set (tanks (createExplosion ex ey radius dmg w)). tank_ok t"
  using list_all2_damage_tick[OF createExplosion_kept_True[OF assms(2)]] assms(1)
  by (rule tick_kept_all_ok)

lemma bullet_hit_tank_ok:
  assumes "\<forall>t \<in> set (tanks w). tank_ok t" and "0 \<le> bulletDamage b" and "j < length (tanks w)"
  shows "\<forall>t \<in> set (tanks (snd (bullet_hit_tank b j (h, w)))). tank_ok t"
proof -
  have "list_all2 (damage_kept True) (tanks w) (tanks (snd (bullet_hit_tank b j (h, w))))"
    using bullet_hit_tank_kept[OF assms(3), of b h] assms(2)
    by (auto elim: list_all2_damage_weaken)
  then have "list_all2 (tick_kept True) (tanks w) (tanks (snd (bullet_hit_tank b j (h, w))))"
    by (rule list_all2_damage_tick)
  then show ?thesis using assms(1) by (rule tick_kept_all_ok)
qed

lemma respawn_at_full:
  "hp (respawn_at pos r t) = BASE_HEALTH" "spawnProtection (respawn_at pos r t)"
  "deaths (respawn_at pos r t) = deaths t + 1" "maxHp (respawn_at pos r t) = maxHp t"
  by (simp_all add: respawn_at_def resetPowerups_def)

text \<open>
  Claim C4. In every state that the server reaches from its start, every tank has
  \<open>0 < hp \<le> maxHp\<close> and \<open>maxHp\<close> is the base health; so this holds after every tick
  \<^verbatim>\<open>updateGame\<close>, and \<^verbatim>\<open>applyPowerup\<close> on a tank of such a state keeps it, the \<open>HEALTH\<close>
  powerup setting \<open>hp\<close> to the smaller of \<open>maxHp\<close> and the rounded sum \<open>hp + 50\<close>. Both
  damage paths keep the bounds in one resolution step, an explosion and the test of a
  bullet against a tank: when the damage they take leaves the tank \<open>hp \<le> 0\<close>, the tank
  is respawned in that step, with \<open>hp\<close> the base health, spawn protection and one more
  death; otherwise it is left with the rounded difference, which is positive.
\<close>

theorem hp_within_bounds:
  "(\<forall>t \<in> set (tanks (updateGame (run events (initial_world rnd ids clk)))).
       0 < hp t \<and> hp t \<le> maxHp t)
   \<and> (\<forall>t \<in> set (tanks (run events (initial_world rnd ids clk))).
       0 < hp t \<and> hp t \<le> maxHp t \<and> maxHp t = BASE_HEALTH
       \<and> 0 < hp (fst (applyPowerup now T t))
       \<and> hp (fst (applyPowerup now T t)) \<le> maxHp (fst (applyPowerup now T t)))
   \<and> hp (fst (applyPowerup now HEALTH u)) = min (maxHp u) (fadd (hp u) 50)
   \<and> ((\<forall>t \<in> set (tanks w). tank_ok t) \<and> 0 \<le> dmg \<longrightarrow>
       (\<forall>t \<in> set (tanks (createExplosion ex ey radius dmg w)). 0 < hp t \<and> hp t \<le> maxHp t))
   \<and> ((\<forall>t \<in> set (tanks w). tank_ok t) \<and> 0 \<le> bulletDamage b \<and> j < length (tanks w) \<longrightarrow>
       (\<forall>t \<in> set (tanks (snd (bullet_hit_tank b j (h, w)))). 0 < hp t \<and> hp t \<le> maxHp t))
   \<and> (j < length (tanks w) \<and> \<not> spawnProtection (tanks w ! j) \<and> \<not> invincible (tanks w ! j)
        \<and> distance \<lparr>x = ex, y = ey\<rparr> (tanks w ! j) < radius
        \<and> fsub (hp (tanks w ! j))
             (fmul dmg (fsub 1 (fdiv (distance \<lparr>x = ex, y = ey\<rparr> (tanks w ! j)) radius))) \<le> 0
       \<longrightarrow> hp (tanks (createExplosion ex ey radius dmg w) ! j) = BASE_HEALTH
         \<and> maxHp (tanks (createExplosion ex ey radius dmg w) ! j) = maxHp (tanks w ! j)
         \<and> spawnProtection (tanks (createExplosion ex ey radius dmg w) ! j)
         \<and> deaths (tanks (createExplosion ex ey radius dmg w) ! j) = deaths (tanks w ! j) + 1)
   \<and> (j < length (tanks w) \<and> tankId (tanks w ! j) \<noteq> ownerId b
        \<and> \<not> spawnProtection (tanks w ! j) \<and> \<not> invincible (tanks w ! j)
        \<and> checkCollision b (tanks w ! j) BULLET_SIZE TANK_SIZE
        \<and> fsub (hp (tanks w ! j)) (bulletDamage b) \<le> 0
       \<longrightarrow> hp (tanks (snd (bullet_hit_tank b j (h, w))) ! j) = BASE_HEALTH
         \<and> maxHp (tanks (snd (bullet_hit_tank b j (h, w))) ! j) = maxHp (tanks w ! j)
         \<and> spawnProtection (tanks (snd (bullet_hit_tank b j (h, w))) ! j)
         \<and> deaths (tanks (snd (bullet_hit_tank b j (h, w))) ! j) = deaths (tanks w ! j) + 1)
   \<and> (j < length (tanks w) \<and> tankId (tanks w ! j) \<noteq> ownerId b
        \<and> \<not> spawnProtection (tanks w ! j) \<and> \<not> invincible (tanks w ! j)
        \<and> checkCollision b (tanks w ! j) BULLET_SIZE TANK_SIZE
        \<and> 0 < fsub (hp (tanks w ! j)) (bulletDamage b)
       \<longrightarrow> tanks (snd (bullet_hit_tank b j (h, w))) ! j
             = (tanks w ! j)\<lparr>hp := fsub (hp (tanks w ! j)) (bulletDamage b)\<rparr>)"
proof (intro conjI)
  have "updateGame (run events (initial_world rnd ids clk))
          = run (events @ [Tick]) (initial_world rnd ids clk)"
    by (simp add: run_def)
  then show "\<forall>t \<in> set (tanks (updateGame (run events (initial_world rnd ids clk)))).
       0 < hp t \<and> hp t \<le> maxHp t"
    using reachable_tanks_ok[of _ "events @ [Tick]" rnd ids clk] by (simp add: tank_ok_bounds)
  show "\<forall>t \<in> set (tanks (run events (initial_world rnd ids clk))).
       0 < hp t \<and> hp t \<le> maxHp t \<and> maxHp t = BASE_HEALTH
       \<and> 0 < hp (fst (applyPowerup now T t))
       \<and> hp (fst (applyPowerup now T t)) \<le> maxHp (fst (applyPowerup now T t))"
  proof
    fix t assume "t \<in> set (tanks (run events (initial_world rnd ids clk)))"
    then have ok: "tank_ok t" by (rule reachable_tanks_ok)
    then have "maxHp t = BASE_HEALTH" by (simp add: tank_ok_def)
    with tank_ok_bounds[OF applyPowerup_ok[OF ok, of now T]] tank_ok_bounds[OF ok]
    show "0 < hp t \<and> hp t \<le> maxHp t \<and> maxHp t = BASE_HEALTH
       \<and> 0 < hp (fst (applyPowerup now T t))
       \<and> hp (fst (applyPowerup now T t)) \<le> maxHp (fst (applyPowerup now T t))"
      by simp
  qed
  show "hp (fst (applyPowerup now HEALTH u)) = min (maxHp u) (fadd (hp u) 50)"
    by (rule applyPowerup_HEALTH)
  show "(\<forall>t \<in> set (tanks w). tank_ok t) \<and> 0 \<le> dmg \<longrightarrow>
       (\<forall>t \<in> set (tanks (createExplosion ex ey radius dmg w)). 0 < hp t \<and> hp t \<le> maxHp t)"
    using createExplosion_ok[of w dmg ex ey radius] by (simp add: tank_ok_bounds)
  show "(\<forall>t \<in> set (tanks w). tank_ok t) \<and> 0 \<le> bulletDamage b \<and> j < length (tanks w) \<longrightarrow>
       (\<forall>t \<in> set (tanks (snd (bullet_hit_tank b j (h, w)))). 0 < hp t \<and> hp t \<le> maxHp t)"
    using bullet_hit_tank_ok[of w b j h] by (simp add: tank_ok_bounds)
  show "j < length (tanks w) \<and> \<not> spawnProtection (tanks w ! j) \<and> \<not> invincible (tanks w ! j)
        \<and> distance \<lparr>x = ex, y = ey\<rparr> (tanks w ! j) < radius
        \<and> fsub (hp (tanks w ! j))
             (fmul dmg (fsub 1 (fdiv (distance \<lparr>x = ex, y = ey\<rparr> (tanks w ! j)) radius))) \<le> 0
       \<longrightarrow> hp (tanks (createExplosion ex ey radius dmg w) ! j) = BASE_HEALTH
         \<and> maxHp (tanks (createExplosion ex ey radius dmg w) ! j) = maxHp (tanks w ! j)
         \<and> spawnProtection (tanks (createExplosion ex ey radius dmg w) ! j)
         \<and> deaths (tanks (createExplosion ex ey radius dmg w) ! j) = deaths (tanks w ! j) + 1"
  proof
    assume a: "j < length (tanks w) \<and> \<not> spawnProtection (tanks w ! j) \<and> \<not> invincible (tanks w ! j)
        \<and> distance \<lparr>x = ex, y = ey\<rparr> (tanks w ! j) < radius
        \<and> fsub (hp (tanks w ! j))
             (fmul dmg (fsub 1 (fdiv (distance \<lparr>x = ex, y = ey\<rparr> (tanks w ! j)) radius))) \<le> 0"
    then have "j < length (tanks w)" by simp
    from createExplosion_nth[OF this, of ex ey radius dmg] a
    obtain pos r where "tanks (createExplosion ex ey radius dmg w) ! j
              = respawn_at pos r ((tanks w ! j)\<lparr>hp := fsub (hp (tanks w ! j))
                  (blast_damage ex ey radius dmg (tanks w ! j))\<rparr>)"
      by (auto simp: explosion_outcome_def blast_reaches_def blast_kills_def blast_damage_def)
    then show "hp (tanks (createExplosion ex ey radius dmg w) ! j) = BASE_HEALTH
         \<and> maxHp (tanks (createExplosion ex ey radius dmg w) ! j) = maxHp (tanks w ! j)
         \<and> spawnProtection (tanks (createExplosion ex ey radius dmg w) ! j)
         \<and> deaths (tanks (createExplosion ex ey radius dmg w) ! j) = deaths (tanks w ! j) + 1"
      by (simp add: respawn_at_full)
  qed
  show "j < length (tanks w) \<and> tankId (tanks w ! j) \<noteq> ownerId b
        \<and> \<not> spawnProtection (tanks w ! j) \<and> \<not> invincible (tanks w ! j)
        \<and> checkCollision b (tanks w ! j) BULLET_SIZE TANK_SIZE
        \<and> fsub (hp (tanks w ! j)) (bulletDamage b) \<le> 0
       \<longrightarrow> hp (tanks (snd (bullet_hit_tank b j (h, w))) ! j) = BASE_HEALTH
         \<and> maxHp (tanks (snd (bullet_hit_tank b j (h, w))) ! j) = maxHp (tanks w ! j)
         \<and> spawnProtection (tanks (snd (bullet_hit_tank b j (h, w))) ! j)
         \<and> deaths (tanks (snd (bullet_hit_tank b j (h, w))) ! j) = deaths (tanks w ! j) + 1"
  proof
    assume a: "j < length (tanks w) \<and> tankId (tanks w ! j) \<noteq> ownerId b
        \<and> \<not> spawnProtection (tanks w ! j) \<and> \<not> invincible (tanks w ! j)
        \<and> checkCollision b (tanks w ! j) BULLET_SIZE TANK_SIZE
        \<and> fsub (hp (tanks w ! j)) (bulletDamage b) \<le> 0"
    with bullet_hit_tank_at[of j w b h]
    obtain pos r where "tanks (snd (bullet_hit_tank b j (h, w))) ! j
              = respawn_at pos r ((tanks w ! j)\<lparr>hp := fsub (hp (tanks w ! j)) (bulletDamage b)\<rparr>)"
      by blast
    then show "hp (tanks (snd (bullet_hit_tank b j (h, w))) ! j) = BASE_HEALTH
         \<and> maxHp (tanks (snd (bullet_hit_tank b j (h, w))) ! j) = maxHp (tanks w ! j)
         \<and> spawnProtection (tanks (snd (bullet_hit_tank b j (h, w))) ! j)
         \<and> deaths (tanks (snd (bullet_hit_tank b j (h, w))) ! j) = deaths (tanks w ! j) + 1"
      by (simp add: respawn_at_full)
  qed
  show "j < length (tanks w) \<and> tankId (tanks w ! j) \<noteq> ownerId b
        \<and> \<not> spawnProtection (tanks w ! j) \<and> \<not> invincible (tanks w ! j)
        \<and> checkCollision b (tanks w ! j) BULLET_SIZE TANK_SIZE
        \<and> 0 < fsub (hp (tanks w ! j)) (bulletDamage b)
       \<longrightarrow> tanks (snd (bullet_hit_tank b j (h, w))) ! j
             = (tanks w ! j)\<lparr>hp := fsub (hp (tanks w ! j)) (bulletDamage b)\<rparr>"
    using bullet_hit_tank_at[of j w b h] by blast
qed

text \<open>One device has joined and its spawn protection has run out; an explosion and a
  bullet, each of 100 damage, then meet the tank where it stands, and a bullet of 25
  damage does.\<close>

theorem hp_within_bounds_witness:
  "(let w = run [Connected ''10.0.0.1'',
         Message 0 (Esp32Join \<lparr>join_deviceId = Some ''dev1'', join_name = Some ''Ann'',
            join_primaryColor = None, join_secondaryColor = None, join_avatarUrl = None\<rparr>),
         Timeout 0]
         (initial_world (\<lambda>_. 0) (\<lambda>_. ''u'') (\<lambda>_. 0));
        b = \<lparr>x = 50, y = 50, bulletId = ''b'', ownerId = ''v'', startX = 0, startY = 50,
             bulletAngle = 0, bulletDamage = 100, bulletRange = 500, bulletSpeed = 8\<rparr>;
        c = b\<lparr>bulletDamage := 25\<rparr>
    in tanks w ! 0 \<in> set (tanks w)
     \<and> hp (tanks w ! 0) = 100
     \<and> list_all tank_ok (tanks w)
     \<and> (0::real) \<le> 100 \<and> 0 \<le> bulletDamage b \<and> 0 < length (tanks w)
     \<and> tanks (updateGame w) \<noteq> []
     \<and> list_all (\<lambda>t. 0 < hp t \<and> hp t \<le> maxHp t) (tanks (updateGame w))
     \<and> hp (fst (applyPowerup 0 HEALTH (tanks w ! 0))) = 100
     \<and> 0 < hp (fst (applyPowerup 0 MYSTERY (tanks w ! 0)))
     \<and> list_all (\<lambda>t. 0 < hp t \<and> hp t \<le> maxHp t) (tanks (createExplosion 50 50 150 100 w))
     \<and> list_all (\<lambda>t. 0 < hp t \<and> hp t \<le> maxHp t)
          (tanks (snd (bullet_hit_tank b 0 (False, w))))
     \<and> \<not> spawnProtection (tanks w ! 0) \<and> \<not> invincible (tanks w ! 0)
     \<and> distance \<lparr>x = 50, y = 50\<rparr> (tanks w ! 0) < 150
     \<and> fsub (hp (tanks w ! 0))
          (fmul 100 (fsub 1 (fdiv (distance \<lparr>x = 50, y = 50\<rparr> (tanks w ! 0)) 150))) \<le> 0
     \<and> hp (tanks (createExplosion 50 50 150 100 w) ! 0) = 100
     \<and> deaths (tanks (createExplosion 50 50 150 100 w) ! 0) = 1
     \<and> tankId (tanks w ! 0) \<noteq> ownerId b
     \<and> checkCollision b (tanks w ! 0) BULLET_SIZE TANK_SIZE
     \<and> fsub (hp (tanks w ! 0)) (bulletDamage b) \<le> 0
     \<and> hp (tanks (snd (bullet_hit_tank b 0 (False, w))) ! 0) = 100
     \<and> spawnProtection (tanks (snd (bullet_hit_tank b 0 (False, w))) ! 0)
     \<and> deaths (tanks (snd (bullet_hit_tank b 0 (False, w))) ! 0) = 1
     \<and> 0 < fsub (hp (tanks w ! 0)) (bulletDamage c)
     \<and> hp (tanks (snd (bullet_hit_tank c 0 (False, w))) ! 0) = 75)"
proof -
  let ?w = "run [Connected ''10.0.0.1'',
         Message 0 (Esp32Join \<lparr>join_deviceId = Some ''dev1'', join_name = Some ''Ann'',
            join_primaryColor = None, join_secondaryColor = None, join_avatarUrl = None\<rparr>),
         Timeout 0]
         (initial_world (\<lambda>_. 0) (\<lambda>_. ''u'') (\<lambda>_. 0))"
  let ?b = "\<lparr>x = 50, y = 50, bulletId = ''b'', ownerId = ''v'', startX = 0, startY = 50,
             bulletAngle = 0, bulletDamage = 100, bulletRange = 500, bulletSpeed = 8\<rparr>"
  let ?c = "?b\<lparr>bulletDamage := 25\<rparr>"
  note th = hp_within_bounds[of "[Connected ''10.0.0.1'',
         Message 0 (Esp32Join \<lparr>join_deviceId = Some ''dev1'', join_name = Some ''Ann'',
            join_primaryColor = None, join_secondaryColor = None, join_avatarUrl = None\<rparr>),
         Timeout 0]" "\<lambda>_. 0" "\<lambda>_. ''u''" "\<lambda>_. 0" 0 MYSTERY "tanks ?w ! 0" ?w 100 50 50 150 ?b 0 False]
  note thc = hp_within_bounds[of "[Connected ''10.0.0.1'',
         Message 0 (Esp32Join \<lparr>join_deviceId = Some ''dev1'', join_name = Some ''Ann'',
            join_primaryColor = None, join_secondaryColor = None, join_avatarUrl = None\<rparr>),
         Timeout 0]" "\<lambda>_. 0" "\<lambda>_. ''u''" "\<lambda>_. 0" 0 MYSTERY "tanks ?w ! 0" ?w 100 50 50 150 ?c 0 False]
  have mem: "tanks ?w ! 0 \<in> set (tanks ?w)" by (simp add: one_tank_run)
  have hp: "hp (tanks ?w ! 0) = 100" by (simp add: one_tank_run)
  have mx: "maxHp (tanks ?w ! 0) = 100" by (simp add: one_tank_run)
  have dt: "deaths (tanks ?w ! 0) = 0" by (simp add: one_tank_run)
  have ok: "list_all tank_ok (tanks ?w)" by (simp add: one_tank_run tank_ok_def config)
  have oks: "\<forall>t \<in> set (tanks ?w). tank_ok t" using ok by (simp add: list_all_iff)
  have d: "(0::real) \<le> 100" by simp
  have bd: "0 \<le> bulletDamage ?b" by simp
  have len: "0 < length (tanks ?w)" by (simp add: one_tank_run)
  have "map tankId (tanks (updateGame ?w)) = map tankId (tanks ?w)"
    using updateGame_identities[of ?w] by simp
  then have ne: "tanks (updateGame ?w) \<noteq> []" by (auto simp: one_tank_run)
  have tick: "list_all (\<lambda>t. 0 < hp t \<and> hp t \<le> maxHp t) (tanks (updateGame ?w))"
    using th[THEN conjunct1] by (simp add: list_all_iff)
  have heal: "hp (fst (applyPowerup 0 HEALTH (tanks ?w ! 0))) = 100"
    using th[THEN conjunct2, THEN conjunct2, THEN conjunct1] hp mx
    by (simp add: fadd_def fl_numeral)
  have mys: "0 < hp (fst (applyPowerup 0 MYSTERY (tanks ?w ! 0)))"
    using th[THEN conjunct2, THEN conjunct1, THEN bspec, OF mem] by simp
  have ex: "list_all (\<lambda>t. 0 < hp t \<and> hp t \<le> maxHp t) (tanks (createExplosion 50 50 150 100 ?w))"
    using th[THEN conjunct2, THEN conjunct2, THEN conjunct2, THEN conjunct1, THEN mp,
             OF conjI[OF oks d]]
    by (simp add: list_all_iff)
  have bu: "list_all (\<lambda>t. 0 < hp t \<and> hp t \<le> maxHp t)
          (tanks (snd (bullet_hit_tank ?b 0 (False, ?w))))"
    using th[THEN conjunct2, THEN conjunct2, THEN conjunct2, THEN conjunct2, THEN conjunct1, THEN mp,
             OF conjI[OF oks conjI[OF bd len]]]
    by (simp add: list_all_iff)
  have np: "\<not> spawnProtection (tanks ?w ! 0)" "\<not> invincible (tanks ?w ! 0)"
    by (simp_all add: one_tank_run)
  have d0: "distance \<lparr>x = 50, y = 50\<rparr> (tanks ?w ! 0) = 0" by (simp add: one_tank_run)
  have dl: "distance \<lparr>x = 50, y = 50\<rparr> (tanks ?w ! 0) < 150" by (simp add: d0)
  have v0: "fsub (hp (tanks ?w ! 0))
          (fmul 100 (fsub 1 (fdiv (distance \<lparr>x = 50, y = 50\<rparr> (tanks ?w ! 0)) 150))) \<le> 0"
    by (simp add: d0 hp fl_ops fl_numeral)
  note e = th[THEN conjunct2, THEN conjunct2, THEN conjunct2, THEN conjunct2, THEN conjunct2,
              THEN conjunct1, THEN mp, OF conjI[OF len conjI[OF np(1) conjI[OF np(2) conjI[OF dl v0]]]]]
  have e1: "hp (tanks (createExplosion 50 50 150 100 ?w) ! 0) = 100"
    using e by (simp add: config)
  have e2: "deaths (tanks (createExplosion 50 50 150 100 ?w) ! 0) = 1"
    using e dt by simp
  have ow: "tankId (tanks ?w ! 0) \<noteq> ownerId ?b" by (simp add: one_tank_run)
  have cc: "checkCollision ?b (tanks ?w ! 0) BULLET_SIZE TANK_SIZE"
    by (simp add: one_tank_run checkCollision_def config)
  have vb: "fsub (hp (tanks ?w ! 0)) (bulletDamage ?b) \<le> 0"
    by (simp add: hp fl_ops)
  note k = th[THEN conjunct2, THEN conjunct2, THEN conjunct2, THEN conjunct2, THEN conjunct2,
              THEN conjunct2, THEN conjunct1, THEN mp,
              OF conjI[OF len conjI[OF ow conjI[OF np(1) conjI[OF np(2) conjI[OF cc vb]]]]]]
  have k1: "hp (tanks (snd (bullet_hit_tank ?b 0 (False, ?w))) ! 0) = 100"
    using k by (simp add: config)
  have k2: "spawnProtection (tanks (snd (bullet_hit_tank ?b 0 (False, ?w))) ! 0)"
    using k by simp
  have k3: "deaths (tanks (snd (bullet_hit_tank ?b 0 (False, ?w))) ! 0) = 1"
    using k dt by simp
  have owc: "tankId (tanks ?w ! 0) \<noteq> ownerId ?c" by (simp add: one_tank_run)
  have ccc: "checkCollision ?c (tanks ?w ! 0) BULLET_SIZE TANK_SIZE"
    by (simp add: one_tank_run checkCollision_def config)
  have vc: "0 < fsub (hp (tanks ?w ! 0)) (bulletDamage ?c)"
    by (simp add: hp fl_ops fl_numeral)
  have s1: "hp (tanks (snd (bullet_hit_tank ?c 0 (False, ?w))) ! 0) = 75"
    using thc[THEN conjunct2, THEN conjunct2, THEN conjunct2, THEN conjunct2, THEN conjunct2,
              THEN conjunct2, THEN conjunct2, THEN mp,
              OF conjI[OF len conjI[OF owc conjI[OF np(1) conjI[OF np(2) conjI[OF ccc vc]]]]]]
    by (simp add: hp fl_ops fl_numeral)
  from mem hp ok d bd len ne tick heal mys ex bu np dl v0 e1 e2 ow cc vb k1 k2 k3 vc s1
  show ?thesis unfolding Let_def by (intro conjI)
qed

section \<open>Closing a connection\<close>

lemma find_distinct_key:
  "distinct (map f ts) \<Longrightarrow> t \<in> set ts \<Longrightarrow> find (\<lambda>u. f u = f t) ts = Some t"
  by (induction ts) (auto simp: image_iff)

lemma on_close_removed:
  assumes "distinct_ids w" and "t \<in> set (tanks w)" and "t \<notin> set (tanks (on_close c w))"
  shows "ws t = Some c \<and> \<not> isBot t
       \<and> (\<exists>cl. find (\<lambda>cl. conn cl = c) (clients w) = Some cl \<and> playerId cl = Some (tankId t))"
proof -
  from on_close_tanks[of c w] assms(2,3) obtain cl pid tank where
    f: "find (\<lambda>cl. conn cl = c) (clients w) = Some cl" and p: "playerId cl = Some pid"
    and g: "tanks_get pid w = Some tank" and b: "\<not> isBot tank" and a: "ws tank = Some c"
    and ts: "tanks (on_close c w) = filter (\<lambda>t. tankId t \<noteq> pid) (tanks w)"
    by auto
  from ts assms(2,3) have k: "tankId t = pid" by auto
  from assms(1,2) have "tanks_get (tankId t) w = Some t"
    unfolding distinct_ids_def tanks_get_def by (rule find_distinct_key)
  with g k have "tank = t" by simp
  with f p a b k show ?thesis by simp
qed

lemma on_close_distinct_ids: "distinct_ids w \<Longrightarrow> distinct_ids (on_close c w)"
  using on_close_tanks[of c w] by (auto simp: distinct_ids_def distinct_map_filter)

lemma on_close_kept: "t \<in> set (tanks w) \<Longrightarrow> ws t \<noteq> Some c \<Longrightarrow> distinct_ids w \<Longrightarrow>
    t \<in> set (tanks (on_close c w))"
  using on_close_removed[of w t c] by blast

lemma heartbeat_fold_removed:
  assumes "distinct_ids w" and "t \<in> set (tanks w)"
    and "t \<notin> set (tanks (fold (\<lambda>cl w'. if P cl then on_close (conn cl) w' else w') cs w))"
  shows "\<exists>cl \<in> set cs. P cl \<and> ws t = Some (conn cl) \<and> \<not> isBot t"
  using assms
proof (induction cs arbitrary: w)
  case Nil
  then show ?case by simp
next
  case (Cons cl cs)
  let ?w = "if P cl then on_close (conn cl) w else w"
  show ?case
  proof (cases "t \<in> set (tanks ?w)")
    case True
    have "distinct_ids ?w" using Cons.prems(1) by (simp add: on_close_distinct_ids)
    from Cons.IH[OF this True] Cons.prems(3) show ?thesis by auto
  next
    case False
    with Cons.prems(2) have pc: "P cl" by (auto split: if_splits)
    with False have "t \<notin> set (tanks (on_close (conn cl) w))" by simp
    from on_close_removed[OF Cons.prems(1,2) this] pc show ?thesis by auto
  qed
qed

lemma heartbeat_removed:
  assumes "distinct_ids w" and "t \<in> set (tanks w)" and "t \<notin> set (tanks (heartbeat w))"
  shows "\<exists>cl \<in> set (clients w).
           fst (Date_now w) - lastPong cl > HEARTBEAT_TIMEOUT \<and> ws t = Some (conn cl) \<and> \<not> isBot t"
proof -
  let ?w1 = "snd (Date_now w)"
  have w1: "tanks ?w1 = tanks w" "clients ?w1 = clients w" by (simp_all add: Date_now_def)
  have d: "distinct_ids ?w1" using assms(1) by (simp add: distinct_ids_def w1)
  have t: "t \<in> set (tanks ?w1)" using assms(2) by (simp add: w1)
  have "t \<notin> set (tanks (fold (\<lambda>cl w'. if fst (Date_now w) - lastPong cl > HEARTBEAT_TIMEOUT
                                        then on_close (conn cl) w' else w') (clients ?w1) ?w1))"
    using assms(3) by (simp add: heartbeat_def split_beta Let_def)
  from heartbeat_fold_removed[OF d t this] show ?thesis by (simp add: w1)
qed

lemma reachable_distinct_ids: "distinct_ids (run events (initial_world rnd ids clk))"
  using invariant_reachable[of events rnd ids clk] by (simp add: invariant_def)

lemma esp32Join_existing_tanks:
  assumes "existing_tank (device_identifier d) w = Some i"
  shows "tanks (esp32Join c d w) = (tanks w)[i := (tanks w ! i)\<lparr>ws := Some c\<rparr>]"
  by (simp add: esp32Join_existing[OF assms] modify_tank_def)

lemma join_existing_distinct:
  assumes "distinct_ids w" and "tanks w' = (tanks w)[i := (tanks w ! i)\<lparr>ws := Some c\<rparr>]"
  shows "distinct_ids w'"
proof -
  have "map tankId ((tanks w)[i := (tanks w ! i)\<lparr>ws := Some c\<rparr>]) = map tankId (tanks w)"
    by (simp add: map_update list_update_same_conv) (metis list_update_beyond list_update_id map_update not_le_imp_less nth_map)
  with assms show ?thesis by (simp add: distinct_ids_def)
qed

lemma stale_close_keeps:
  assumes d: "distinct_ids w" and i: "i < length (tanks w)"
    and ts: "tanks w' = (tanks w)[i := (tanks w ! i)\<lparr>ws := Some c2\<rparr>]" and ne: "c1 \<noteq> c2"
  shows "(tanks w ! i)\<lparr>ws := Some c2\<rparr> \<in> set (tanks (on_close c1 w'))"
proof (rule on_close_kept)
  show "(tanks w ! i)\<lparr>ws := Some c2\<rparr> \<in> set (tanks w')"
    using i by (simp add: ts set_update_memI)
  show "ws ((tanks w ! i)\<lparr>ws := Some c2\<rparr>) \<noteq> Some c1" using ne by simp
  show "distinct_ids w'" using d ts by (rule join_existing_distinct)
qed

text \<open>
  Claim C3. In every state \<open>w\<close> that the server reaches, a tank that the \<^verbatim>\<open>close\<close> handler
  of connection \<open>c\<close> removes is attached to \<open>c\<close> (\<^verbatim>\<open>tank.ws === ws\<close>), is not a bot, and is
  the tank that \<open>c\<close> joined as; a tank that the heartbeat removes is attached to one of the
  connections that timed out. So a tank that a join has reattached to a newer
  connection \<open>c2\<close> is still in the world after the older connection \<open>c1\<close> closes.
\<close>

theorem close_removes_only_attached_tank:
  "(let w = run events (initial_world rnd ids clk)
    in (\<forall>t \<in> set (tanks w). t \<notin> set (tanks (on_close c w)) \<longrightarrow>
          ws t = Some c \<and> \<not> isBot t
          \<and> (\<exists>cl. find (\<lambda>cl. conn cl = c) (clients w) = Some cl
                   \<and> playerId cl = Some (tankId t)))
     \<and> (\<forall>t \<in> set (tanks w). t \<notin> set (tanks (heartbeat w)) \<longrightarrow>
          (\<exists>cl \<in> set (clients w). fst (Date_now w) - lastPong cl > HEARTBEAT_TIMEOUT
                   \<and> ws t = Some (conn cl) \<and> \<not> isBot t))
     \<and> (existing_tank (device_identifier d) w = Some i \<and> c1 \<noteq> c2 \<longrightarrow>
          tanks (esp32Join c2 d w) = (tanks w)[i := (tanks w ! i)\<lparr>ws := Some c2\<rparr>]
          \<and> tanks (simulatorJoin c2 d (Some ADMIN_PASSWORD) w)
              = (tanks w)[i := (tanks w ! i)\<lparr>ws := Some c2\<rparr>]
          \<and> (tanks w ! i)\<lparr>ws := Some c2\<rparr> \<in> set (tanks (on_close c1 (esp32Join c2 d w)))
          \<and> (tanks w ! i)\<lparr>ws := Some c2\<rparr>
              \<in> set (tanks (on_close c1 (simulatorJoin c2 d (Some ADMIN_PASSWORD) w)))))"
proof -
  let ?w = "run events (initial_world rnd ids clk)"
  have di: "distinct_ids ?w" by (rule reachable_distinct_ids)
  have a: "\<forall>t \<in> set (tanks ?w). t \<notin> set (tanks (on_close c ?w)) \<longrightarrow>
          ws t = Some c \<and> \<not> isBot t
          \<and> (\<exists>cl. find (\<lambda>cl. conn cl = c) (clients ?w) = Some cl
                   \<and> playerId cl = Some (tankId t))"
    using on_close_removed[OF di] by blast
  have b: "\<forall>t \<in> set (tanks ?w). t \<notin> set (tanks (heartbeat ?w)) \<longrightarrow>
          (\<exists>cl \<in> set (clients ?w). fst (Date_now ?w) - lastPong cl > HEARTBEAT_TIMEOUT
                   \<and> ws t = Some (conn cl) \<and> \<not> isBot t)"
    using heartbeat_removed[OF di] by blast
  have c: "existing_tank (device_identifier d) ?w = Some i \<and> c1 \<noteq> c2 \<longrightarrow>
          tanks (esp32Join c2 d ?w) = (tanks ?w)[i := (tanks ?w ! i)\<lparr>ws := Some c2\<rparr>]
          \<and> tanks (simulatorJoin c2 d (Some ADMIN_PASSWORD) ?w)
              = (tanks ?w)[i := (tanks ?w ! i)\<lparr>ws := Some c2\<rparr>]
          \<and> (tanks ?w ! i)\<lparr>ws := Some c2\<rparr> \<in> set (tanks (on_close c1 (esp32Join c2 d ?w)))
          \<and> (tanks ?w ! i)\<lparr>ws := Some c2\<rparr>
              \<in> set (tanks (on_close c1 (simulatorJoin c2 d (Some ADMIN_PASSWORD) ?w)))"
  proof
    assume h: "existing_tank (device_identifier d) ?w = Some i \<and> c1 \<noteq> c2"
    then have e: "existing_tank (device_identifier d) ?w = Some i" and ne: "c1 \<noteq> c2" by simp_all
    from existing_tank_SomeD[OF e] have i: "i < length (tanks ?w)" by simp
    have t1: "tanks (esp32Join c2 d ?w) = (tanks ?w)[i := (tanks ?w ! i)\<lparr>ws := Some c2\<rparr>]"
      by (rule esp32Join_existing_tanks[OF e])
    have t2: "tanks (simulatorJoin c2 d (Some ADMIN_PASSWORD) ?w)
              = (tanks ?w)[i := (tanks ?w ! i)\<lparr>ws := Some c2\<rparr>]"
      using simulatorJoin_existing[OF e, of c2] by simp
    from t1 t2 stale_close_keeps[OF di i t1 ne] stale_close_keeps[OF di i t2 ne]
    show "tanks (esp32Join c2 d ?w) = (tanks ?w)[i := (tanks ?w ! i)\<lparr>ws := Some c2\<rparr>]
          \<and> tanks (simulatorJoin c2 d (Some ADMIN_PASSWORD) ?w)
              = (tanks ?w)[i := (tanks ?w ! i)\<lparr>ws := Some c2\<rparr>]
          \<and> (tanks ?w ! i)\<lparr>ws := Some c2\<rparr> \<in> set (tanks (on_close c1 (esp32Join c2 d ?w)))
          \<and> (tanks ?w ! i)\<lparr>ws := Some c2\<rparr>
              \<in> set (tanks (on_close c1 (simulatorJoin c2 d (Some ADMIN_PASSWORD) ?w)))"
      by (intro conjI)
  qed
  from a b c show ?thesis unfolding Let_def by (intro conjI)
qed

text \<open>A device joins on connection 0 and a second connection is opened; the clock advances
  by 20 seconds at each reading.\<close>

lemma two_connections_run:
  "tanks (run [Connected ''10.0.0.1'',
         Message 0 (Esp32Join \<lparr>join_deviceId = Some ''dev1'', join_name = Some ''Ann'',
            join_primaryColor = None, join_secondaryColor = None, join_avatarUrl = None\<rparr>),
         Connected ''10.0.0.2'']
         (initial_world (\<lambda>_. 0) (\<lambda>_. ''u'') (\<lambda>n. 20000 * int n))) =
     [\<lparr>x = 50, y = 50, tankId = ''u'', name = ''Ann'', primaryColor = ''#FF5722'',
       secondaryColor = ''#FF5722'', avatarUrl = [], angle = 0, hp = 100, maxHp = 100,
       speed = 3, damage = 25, fireRange = 500, fireRate = 500, lastFire = 0, score = 0,
       kills = 0, deaths = 0, isBot = False, spawnProtection = True, invincible = False,
       invincibilityEnd = None, powerups = (\<lambda>_. None),
       moving = \<lparr>up = False, down = False, left = False, right = False\<rparr>,
       deviceId = Some ''dev1'', ws = Some 0\<rparr>]"
  "clients (run [Connected ''10.0.0.1'',
         Message 0 (Esp32Join \<lparr>join_deviceId = Some ''dev1'', join_name = Some ''Ann'',
            join_primaryColor = None, join_secondaryColor = None, join_avatarUrl = None\<rparr>),
         Connected ''10.0.0.2'']
         (initial_world (\<lambda>_. 0) (\<lambda>_. ''u'') (\<lambda>n. 20000 * int n))) =
     [\<lparr>conn = 0, remoteAddress = ''10.0.0.1'', playerId = Some ''u'', isAdmin = False,
       isAlive = True, lastPong = 0, isSpectator = False, isESP32 = True,
       ws_playerId = Some ''u'', ws_clientIP = Some ''10.0.0.1'', closing = False\<rparr>,
      \<lparr>conn = 1, remoteAddress = ''10.0.0.2'', playerId = None, isAdmin = False,
       isAlive = True, lastPong = 40000, isSpectator = False, isESP32 = False,
       ws_playerId = None, ws_clientIP = None, closing = False\<rparr>]"
  "clock_next (run [Connected ''10.0.0.1'',
         Message 0 (Esp32Join \<lparr>join_deviceId = Some ''dev1'', join_name = Some ''Ann'',
            join_primaryColor = None, join_secondaryColor = None, join_avatarUrl = None\<rparr>),
         Connected ''10.0.0.2'']
         (initial_world (\<lambda>_. 0) (\<lambda>_. ''u'') (\<lambda>n. 20000 * int n))) = 3"
  "clock (run [Connected ''10.0.0.1'',
         Message 0 (Esp32Join \<lparr>join_deviceId = Some ''dev1'', join_name = Some ''Ann'',
            join_primaryColor = None, join_secondaryColor = None, join_avatarUrl = None\<rparr>),
         Connected ''10.0.0.2'']
         (initial_world (\<lambda>_. 0) (\<lambda>_. ''u'') (\<lambda>n. 20000 * int n))) = (\<lambda>n. 20000 * int n)"
  by (simp_all add: run_defs Let_def config split: prod.splits)

theorem close_removes_only_attached_tank_witness:
  "(let w = run [Connected ''10.0.0.1'',
         Message 0 (Esp32Join \<lparr>join_deviceId = Some ''dev1'', join_name = Some ''Ann'',
            join_primaryColor = None, join_secondaryColor = None, join_avatarUrl = None\<rparr>),
         Connected ''10.0.0.2'']
         (initial_world (\<lambda>_. 0) (\<lambda>_. ''u'') (\<lambda>n. 20000 * int n));
        d = \<lparr>join_deviceId = Some ''dev1'', join_name = Some ''Ann'',
            join_primaryColor = None, join_secondaryColor = None, join_avatarUrl = None\<rparr>;
        t = tanks w ! 0
    in t \<in> set (tanks w) \<and> t \<notin> set (tanks (on_close 0 w))
     \<and> ws t = Some 0 \<and> \<not> isBot t
     \<and> t \<notin> set (tanks (heartbeat w))
     \<and> (\<exists>cl \<in> set (clients w). fst (Date_now w) - lastPong cl > HEARTBEAT_TIMEOUT
               \<and> ws t = Some (conn cl) \<and> \<not> isBot t)
     \<and> existing_tank (device_identifier d) w = Some 0 \<and> (0::nat) \<noteq> 1
     \<and> tanks (esp32Join 1 d w) = [t\<lparr>ws := Some 1\<rparr>]
     \<and> t\<lparr>ws := Some 1\<rparr> \<in> set (tanks (on_close 0 (esp32Join 1 d w)))
     \<and> t\<lparr>ws := Some 1\<rparr> \<in> set (tanks (on_close 0 (simulatorJoin 1 d (Some ADMIN_PASSWORD) w))))"
proof -
  let ?es = "[Connected ''10.0.0.1'',
         Message 0 (Esp32Join \<lparr>join_deviceId = Some ''dev1'', join_name = Some ''Ann'',
            join_primaryColor = None, join_secondaryColor = None, join_avatarUrl = None\<rparr>),
         Connected ''10.0.0.2'']"
  let ?w = "run ?es (initial_world (\<lambda>_. 0) (\<lambda>_. ''u'') (\<lambda>n. 20000 * int n))"
  let ?d = "\<lparr>join_deviceId = Some ''dev1'', join_name = Some ''Ann'',
            join_primaryColor = None, join_secondaryColor = None, join_avatarUrl = None\<rparr>"
  let ?t = "tanks ?w ! 0"
  note th = close_removes_only_attached_tank[of ?es "\<lambda>_. 0" "\<lambda>_. ''u''" "\<lambda>n. 20000 * int n"
              0 ?d 0 0 1, unfolded Let_def]
  have mem: "?t \<in> set (tanks ?w)" by (simp add: two_connections_run)
  have gone: "?t \<notin> set (tanks (on_close 0 ?w))"
    by (simp add: on_close_def tanks_get_def tanks_delete_def two_connections_run Let_def)
  have a: "ws ?t = Some 0 \<and> \<not> isBot ?t"
    using th[THEN conjunct1, THEN bspec, OF mem, THEN mp, OF gone] by simp
  have hgone: "?t \<notin> set (tanks (heartbeat ?w))"
    by (simp add: heartbeat_def Date_now_def on_close_def tanks_get_def tanks_delete_def
          two_connections_run Let_def config)
  have b: "\<exists>cl \<in> set (clients ?w). fst (Date_now ?w) - lastPong cl > HEARTBEAT_TIMEOUT
               \<and> ws ?t = Some (conn cl) \<and> \<not> isBot ?t"
    by (rule th[THEN conjunct2, THEN conjunct1, THEN bspec, OF mem, THEN mp, OF hgone])
  have e: "existing_tank (device_identifier ?d) ?w = Some 0"
    by (simp add: existing_tank_def device_identifier_def two_connections_run)
  have ne: "(0::nat) \<noteq> 1" by simp
  note c = th[THEN conjunct2, THEN conjunct2, THEN mp, OF conjI[OF e ne]]
  have c1: "tanks (esp32Join 1 ?d ?w) = [?t\<lparr>ws := Some 1\<rparr>]"
    using c[THEN conjunct1] by (simp add: two_connections_run)
  have c2: "?t\<lparr>ws := Some 1\<rparr> \<in> set (tanks (on_close 0 (esp32Join 1 ?d ?w)))"
    by (rule c[THEN conjunct2, THEN conjunct2, THEN conjunct1])
  have c3: "?t\<lparr>ws := Some 1\<rparr>
              \<in> set (tanks (on_close 0 (simulatorJoin 1 ?d (Some ADMIN_PASSWORD) ?w)))"
    by (rule c[THEN conjunct2, THEN conjunct2, THEN conjunct2])
  from mem gone a hgone b e ne c1 c2 c3 show ?thesis unfolding Let_def by (intro conjI) simp_all
qed

section \<open>Joining again\<close>





lemma modify_tank_sent [simp]: "sent (modify_tank i f w) = sent w"
  by (simp add: modify_tank_def)








section \<open>The scoreboard follows the tanks\<close>

subsection \<open>The scoreboard and the tanks\<close>

lemma map_insort_key:
  "(\<And>v. g (f v) = h v) \<Longrightarrow> map f (insort_key h v vs) = insort_key g (f v) (map f vs)"
  by (induction vs) simp_all

lemma map_sort_key:
  assumes "\<And>v. g (f v) = h v"
  shows "map f (sort_key h vs) = sort_key g (map f vs)"
proof (induction vs)
  case Nil
  show ?case by simp
next
  case (Cons a vs)
  have "map f (insort_key h a (sort_key h vs)) = insort_key g (f a) (map f (sort_key h vs))"
    by (rule map_insort_key) (rule assms)
  with Cons show ?case by simp
qed

lemma board_ok_updateScoreboard [simp]: "board_ok (updateScoreboard w)"
proof -
  have "map row_key (sort_key (\<lambda>r. - row_score r) (map scoreboard_row_of (tanks w)))
          = sort_key (\<lambda>(k, n, s, kl, b). - s) (map row_key (map scoreboard_row_of (tanks w)))"
    by (rule map_sort_key) (simp add: row_key_def)
  moreover have "row_key \<circ> scoreboard_row_of = board_key"
    by (simp add: fun_eq_iff row_key_def board_key_def scoreboard_row_of_def)
  ultimately show ?thesis
    by (simp add: board_ok_def updateScoreboard_def Let_def broadcast_def)
qed

lemma board_ok_view: "board_view w' = board_view w \<Longrightarrow> board_ok w \<Longrightarrow> board_ok w'"
  by (simp add: board_ok_def board_view_def)

lemma board_step_refl [simp]: "board_step w w"
  by (simp add: board_step_def)

lemma board_step_view: "board_view w' = board_view w \<Longrightarrow> board_step w w'"
  by (simp add: board_step_def)

lemma board_step_ok: "board_ok w' \<Longrightarrow> board_step w w'"
  by (simp add: board_step_def)

lemma board_step_trans: "board_step a b \<Longrightarrow> board_step b c \<Longrightarrow> board_step a c"
  by (auto simp: board_step_def intro: board_ok_view)

lemma board_step_keeps: "board_step w w' \<Longrightarrow> board_ok w \<Longrightarrow> board_ok w'"
  by (auto simp: board_step_def intro: board_ok_view)

lemma board_step_updateScoreboard [simp]: "board_step w (updateScoreboard w')"
  by (simp add: board_step_ok)

lemma board_view_fields:
  "tanks w' = tanks w \<Longrightarrow> scoreboard w' = scoreboard w \<Longrightarrow> board_view w' = board_view w"
  by (simp add: board_view_def)

lemma board_view_modify_tank:
  "(i < length (tanks w) \<Longrightarrow> board_key (f (tanks w ! i)) = board_key (tanks w ! i))
     \<Longrightarrow> board_view (modify_tank i f w) = board_view w"
  by (cases "i < length (tanks w)")
     (simp_all add: board_view_def modify_tank_def map_update list_update_same_conv list_update_beyond)

lemma board_view_broadcast [simp]: "board_view (broadcast m w) = board_view w"
  by (simp add: board_view_def broadcast_def)

lemma board_view_sendTo [simp]: "board_view (sendTo c m w) = board_view w"
  by (simp add: board_view_def sendTo_def)

lemma board_view_setTimeout [simp]: "board_view (setTimeout k tm w) = board_view w"
  by (simp add: board_view_def setTimeout_def)

lemma board_view_Date_now [simp]: "board_view (snd (Date_now w)) = board_view w"
  by (simp add: board_view_def Date_now_def)

lemma board_view_Math_random [simp]: "board_view (snd (Math_random w)) = board_view w"
  by (simp add: board_view_def Math_random_def)

lemma board_view_uuidv4 [simp]: "board_view (snd (uuidv4 w)) = board_view w"
  by (simp add: board_view_def uuidv4_def)

lemma board_view_updates [simp]:
  "board_view (w\<lparr>bullets := bs\<rparr>) = board_view w"
  "board_view (w\<lparr>obstacles := os\<rparr>) = board_view w"
  "board_view (w\<lparr>world_powerups := ps\<rparr>) = board_view w"
  "board_view (w\<lparr>bots := bo\<rparr>) = board_view w"
  "board_view (w\<lparr>clients := cs\<rparr>) = board_view w"
  "board_view (w\<lparr>timers := tm\<rparr>) = board_view w"
  "board_view (w\<lparr>sent := s\<rparr>) = board_view w"
  "board_view (w\<lparr>rng_next := n\<rparr>) = board_view w"
  "board_view (w\<lparr>clock_next := n\<rparr>) = board_view w"
  "board_view (w\<lparr>uuid_next := n\<rparr>) = board_view w"
  "board_view (w\<lparr>conn_next := n\<rparr>) = board_view w"
  "board_view (w\<lparr>bannedIPs := ips\<rparr>) = board_view w"
  by (simp_all add: board_view_def)

lemma board_key_updates [simp]:
  "board_key (t\<lparr>hp := h\<rparr>) = board_key t"
  "board_key (t\<lparr>angle := a\<rparr>) = board_key t"
  "board_key (t\<lparr>x := px\<rparr>) = board_key t"
  "board_key (t\<lparr>y := py\<rparr>) = board_key t"
  "board_key (t\<lparr>moving := m\<rparr>) = board_key t"
  "board_key (t\<lparr>lastFire := l\<rparr>) = board_key t"
  "board_key (t\<lparr>ws := c\<rparr>) = board_key t"
  "board_key (t\<lparr>deaths := d\<rparr>) = board_key t"
  "board_key (t\<lparr>powerups := p\<rparr>) = board_key t"
  "board_key (t\<lparr>spawnProtection := b\<rparr>) = board_key t"
  "board_key (t\<lparr>invincible := b\<rparr>) = board_key t"
  "board_key (t\<lparr>invincibilityEnd := e\<rparr>) = board_key t"
  by (simp_all add: board_key_def)

lemma board_key_respawn_at [simp]: "board_key (respawn_at pos r t) = board_key t"
  by (simp add: board_key_def respawn_at_def resetPowerups_def)

lemma board_key_run_callback [simp]: "board_key (run_callback cb t) = board_key t"
  by (cases cb) (simp_all add: board_key_def)

lemma board_key_stacked [simp]: "board_key (snd (stacked now T base t)) = board_key t"
  by (simp add: stacked_def board_key_def split: option.splits)

lemma board_key_getEffectiveStats [simp]: "board_key (snd (getEffectiveStats now t)) = board_key t"
  by (simp add: getEffectiveStats_snd)

lemma board_key_applyPowerup [simp]: "board_key (fst (applyPowerup now T t)) = board_key t"
  by (auto simp: applyPowerup_def Let_def board_key_def split: option.splits)

lemma board_view_respawn [simp]: "board_view (respawn i w) = board_view w"
proof -
  from respawn_shape[of i w] obtain pos r n where
    eq: "respawn i w = w\<lparr>tanks := (tanks w)[i := respawn_at pos r (tanks w ! i)], rng_next := n,
       timers := timers w @ [(tankId (tanks w ! i), spawnProtection_timer)]\<rparr>" by blast
  have "board_view (modify_tank i (respawn_at pos r) w) = board_view w"
    by (rule board_view_modify_tank) simp
  then show ?thesis by (simp add: eq board_view_def modify_tank_def)
qed

lemma board_key_explosion_outcome:
  "explosion_outcome ex ey radius dmg t t' \<Longrightarrow> board_key t' = board_key t"
  by (auto simp: explosion_outcome_def split: if_splits)

lemma board_view_createExplosion [simp]:
  "board_view (createExplosion ex ey radius dmg w) = board_view w"
proof -
  from createExplosion_shape[of ex ey radius dmg w] obtain vs m tm where
    vs: "list_all2 (explosion_outcome ex ey radius dmg) (tanks w) vs"
    and eq: "createExplosion ex ey radius dmg w =
          w\<lparr>tanks := vs, rng_next := m, timers := tm,
            sent := sent w @ death_notices ex ey radius dmg (tanks w)
                    @ [(Everyone, msg ''explosion''
                         [(''x'', JNum ex), (''y'', JNum ey), (''radius'', JNum radius)])]\<rparr>"
    by blast
  from vs have "map board_key vs = map board_key (tanks w)"
    by (induction rule: list_all2_induct) (simp_all add: board_key_explosion_outcome)
  then show ?thesis by (simp add: eq board_view_def)
qed

lemma board_view_fold:
  "(\<And>v s. board_view (f v s) = board_view s) \<Longrightarrow> board_view (fold f vs s) = board_view s"
  by (induction vs arbitrary: s) simp_all

lemma board_view_fold_snd:
  "(\<And>v a s. board_view (snd (f v (a, s))) = board_view s)
     \<Longrightarrow> board_view (snd (fold f vs (a, s))) = board_view s"
proof (induction vs arbitrary: a s)
  case Nil then show ?case by simp
next
  case (Cons v vs)
  obtain a' s' where st: "f v (a, s) = (a', s')" by (cases "f v (a, s)")
  with Cons.prems[of v a s] have "board_view s' = board_view s" by simp
  with Cons.IH[of a' s'] Cons.prems show ?case by (simp add: st)
qed

lemma board_view_tank_applyPowerup [simp]:
  "board_view (tank_applyPowerup i T w) = board_view w"
proof -
  have f: "board_view (fold (setTimeout k) reg s) = board_view s" for k reg s
    by (rule board_view_fold) simp
  show ?thesis
    by (simp add: tank_applyPowerup_def Let_def split_beta f board_view_modify_tank)
qed

lemma board_view_collect_powerup:
  "board_view (snd (collect_powerup i p (kept, w))) = board_view w"
  by (simp add: collect_powerup_def Let_def split_beta)

lemma board_view_collect_powerups [simp]: "board_view (collect_powerups i w) = board_view w"
  by (simp add: collect_powerups_def Let_def split_beta board_view_fold_snd board_view_collect_powerup)

lemma board_view_update_tank: "board_view (update_tank i w) = board_view w"
  by (simp add: update_tank_def Let_def split_beta board_view_modify_tank split: option.splits
        del: OBSTACLE_TYPES.simps)

lemma board_view_fireBullet [simp]: "board_view (snd (fireBullet i w)) = board_view w"
  by (simp add: fireBullet_def new_Bullet_def Let_def split_beta board_view_modify_tank)

lemma board_view_set_bot_state [simp]: "board_view (set_bot_state j s w) = board_view w"
  by (simp add: set_bot_state_def)

lemma board_view_bot_attack: "board_view (bot_attack j i p d w) = board_view w"
  by (simp add: bot_attack_def Let_def board_view_modify_tank)

lemma board_view_bot_roam: "board_view (bot_roam j i w) = board_view w"
  by (simp add: bot_roam_def Let_def split_beta board_view_modify_tank)

lemma board_view_bot_avoid: "board_view (bot_avoid i w) = board_view w"
proof -
  have "board_view (fold (\<lambda>obs w'. if distance (tanks w' ! i) obs < 80
                               then modify_tank i (\<lambda>t. t\<lparr>angle := angle t + pi / 4\<rparr>) w'
                               else w') os s) = board_view s" for os :: "obstacle list" and s
    by (rule board_view_fold) (simp add: board_view_modify_tank)
  then show ?thesis
    by (simp add: bot_avoid_def Let_def board_view_modify_tank)
qed

lemma board_view_bot_update: "board_view (bot_update j w) = board_view w"
  by (simp add: bot_update_def Let_def split_beta board_view_bot_attack board_view_bot_roam
        board_view_bot_avoid split: option.splits prod.splits)

lemma board_ok_eq: "board_view w' = board_view w \<Longrightarrow> board_ok w' = board_ok w"
  by (simp add: board_ok_def board_view_def)

lemma board_ok_frames [simp]:
  "board_ok (broadcast m w) = board_ok w"
  "board_ok (respawn i w) = board_ok w"
  "board_ok (createExplosion ex ey radius dmg w) = board_ok w"
  "board_ok (snd (Math_random w)) = board_ok w"
  "board_ok (w\<lparr>obstacles := os\<rparr>) = board_ok w"
  "board_ok (w\<lparr>clients := cs\<rparr>) = board_ok w"
  "board_ok (w\<lparr>bullets := bs\<rparr>) = board_ok w"
  "board_ok (w\<lparr>bots := bo\<rparr>) = board_ok w"
  by (rule board_ok_eq, simp)+

lemma board_view_spawnPowerup [simp]: "board_view (spawnPowerup px py w) = board_view w"
  by (auto simp: spawnPowerup_def new_Powerup_def coordinate_or_def randomPosition_def
      Math_random_def uuidv4_def broadcast_def board_view_def Let_def
      split: prod.splits option.splits)

lemma board_ok_spawnPowerup [simp]: "board_ok (spawnPowerup px py w) = board_ok w"
  by (rule board_ok_eq) simp

lemma board_view_spawnObstacle [simp]: "board_view (spawnObstacle w) = board_view w"
  by (auto simp: spawnObstacle_def new_Obstacle_def randomPosition_def Math_random_def
      uuidv4_def broadcast_def board_view_def Let_def split: prod.splits)

subsection \<open>The bullet phase and the scoreboard\<close>

lemma board_step_bullet_hit_tank: "board_step w (snd (bullet_hit_tank b i (h, w)))"
  by (auto simp: bullet_hit_tank_def Let_def board_step_def board_view_modify_tank
        board_ok_eq[OF board_view_modify_tank] split: option.splits)

lemma board_step_bullet_tanks_fold:
  "board_step w (snd (fold (bullet_hit_tank b) js (h, w)))"
proof (induction js arbitrary: h w)
  case Nil then show ?case by simp
next
  case (Cons j js)
  obtain h' w' where st: "bullet_hit_tank b j (h, w) = (h', w')" by (cases "bullet_hit_tank b j (h, w)")
  with board_step_bullet_hit_tank[of w b j h] have "board_step w w'" by simp
  with Cons.IH[where h = h' and w = w'] show ?case by (auto simp: st intro: board_step_trans)
qed

lemma board_step_bullet_hit_obstacle: "board_step w (bullet_hit_obstacle b j w)"
  by (auto simp: bullet_hit_obstacle_def Let_def split_beta board_step_def
        board_view_modify_tank simp del: OBSTACLE_TYPES.simps split: option.splits)

lemma board_step_update_bullet: "board_step w (snd (update_bullet b (kept, w)))"
proof -
  let ?b = "bullet_update b"
  obtain h w1 where f: "fold (bullet_hit_tank ?b) [0..<length (tanks w)] (False, w) = (h, w1)"
    by (cases "fold (bullet_hit_tank ?b) [0..<length (tanks w)] (False, w)")
  with board_step_bullet_tanks_fold[of w ?b "[0..<length (tanks w)]" False]
  have s1: "board_step w w1" by simp
  have s2: "board_step w1 (bullet_hit_obstacle ?b j w1)" for j
    by (rule board_step_bullet_hit_obstacle)
  show ?thesis
    using f s1 board_step_trans[OF s1 s2]
    by (auto simp: update_bullet_def Let_def split: option.splits)
qed

lemma board_step_update_bullet_fold:
  "board_step w (snd (fold update_bullet bs (kept, w)))"
proof (induction bs arbitrary: kept w)
  case Nil then show ?case by simp
next
  case (Cons b bs)
  obtain k' w' where st: "update_bullet b (kept, w) = (k', w')" by (cases "update_bullet b (kept, w)")
  with board_step_update_bullet[of w b kept] have "board_step w w'" by simp
  with Cons.IH[where kept = k' and w = w'] show ?case by (auto simp: st intro: board_step_trans)
qed

lemma board_step_update_bullets: "board_step w (update_bullets w)"
proof -
  obtain kept w1 where f: "fold update_bullet (bullets w) ([], w) = (kept, w1)"
    by (cases "fold update_bullet (bullets w) ([], w)")
  with board_step_update_bullet_fold[of w "bullets w" "[]"] have "board_step w w1" by simp
  then have "board_step w (w1\<lparr>bullets := kept\<rparr>)"
    by (auto simp: board_step_def)
  then show ?thesis by (simp add: update_bullets_def f)
qed

lemma board_step_updateGame: "board_step w (updateGame w)"
proof -
  let ?w1 = "fold update_tank [0..<length (tanks w)] w"
  let ?w2 = "update_bullets ?w1"
  have a: "board_view ?w1 = board_view w"
    by (rule board_view_fold) (rule board_view_update_tank)
  have c: "board_view (fold bot_update js s) = board_view s" for js s
    by (rule board_view_fold) (rule board_view_bot_update)
  have "board_step w ?w1" using a by (rule board_step_view)
  moreover have "board_step ?w1 ?w2" by (rule board_step_update_bullets)
  moreover have "board_step ?w2 (fold bot_update [0..<length (bots ?w2)] ?w2)"
    by (rule board_step_view) (rule c)
  ultimately show ?thesis
    unfolding updateGame_def Let_def by (blast intro: board_step_trans)
qed

subsection \<open>The handlers and the scoreboard\<close>

lemma board_view_modify_client [simp]: "board_view (modify_client c f w) = board_view w"
  by (simp add: modify_client_def)

lemma board_view_sendTo_open [simp]: "board_view (sendTo_open c m w) = board_view w"
  using sendTo_open_frame[of c m w] by auto

lemma board_view_ws_close [simp]: "board_view (ws_close c w) = board_view w"
  by (simp add: ws_close_def)

lemma board_view_tank_toJSON [simp]: "board_view (snd (tank_toJSON t w)) = board_view w"
  by (simp add: tank_toJSON_frame)

lemma board_view_snapshot [simp]: "board_view (snd (snapshot w)) = board_view w"
  using snapshot_frame[of w] by auto

lemma board_view_new_Tank [simp]:
  "board_view (snd (new_Tank k nm pc sc av is_bot w)) = board_view w"
  using new_Tank_world[of k nm pc sc av is_bot w] by auto

lemma board_view_bots_set [simp]: "board_view (bots_set b w) = board_view w"
  by (simp add: bots_set_def split: option.splits)

lemma board_ok_more [simp]:
  "board_ok (sendTo_open c m w) = board_ok w"
  "board_ok (modify_client c f w) = board_ok w"
  "board_ok (snd (tank_toJSON t w)) = board_ok w"
  "board_ok (snd (snapshot w)) = board_ok w"
  by (rule board_ok_eq, simp)+

lemma board_step_esp32Join: "board_step w (esp32Join c d w)"
  by (cases "existing_tank (device_identifier d) w")
     (simp_all add: esp32Join_def Let_def split_beta board_step_def board_view_modify_tank)

lemma board_step_simulatorJoin: "board_step w (simulatorJoin c d pw w)"
  by (cases "existing_tank (device_identifier d) w")
     (simp_all add: simulatorJoin_def Let_def split_beta board_step_def board_view_modify_tank)

lemma board_step_adminSpawnBot: "board_step w (adminSpawnBot p s w)"
  by (simp add: adminSpawnBot_def Let_def split_beta)

lemma board_step_adminRemoveBot: "board_step w (adminRemoveBot k w)"
  by (simp add: adminRemoveBot_def Let_def split: option.splits)

lemma board_step_adminResetScoreboard: "board_step w (adminResetScoreboard w)"
  by (simp add: adminResetScoreboard_def Let_def board_step_def)

lemma board_view_adminKick: "board_view (adminKick target w) = board_view w"
proof -
  have f: "board_view (fold (\<lambda>cl w'. if ws_playerId cl = tg
                                   then ws_close (conn cl) (sendTo_open (conn cl) (msg ''kicked'' []) w')
                                   else w') cs s) = board_view s" for cs s tg
    by (rule board_view_fold) simp
  show ?thesis by (simp add: adminKick_def f split: option.splits)
qed

lemma board_view_adminBan: "board_view (adminBan target w) = board_view w"
  unfolding adminBan_def by (rule board_view_fold) simp

lemma board_step_on_message: "board_step w (on_message c m w)"
proof (cases "find (\<lambda>cl. conn cl = c) (clients w)")
  case None
  then show ?thesis by (simp add: on_message_def)
next
  case (Some cl)
  show ?thesis
  proof (cases m)
    case Spectate
    with Some show ?thesis by (simp add: on_message_def Let_def split_beta board_step_view)
  next
    case Join
    with Some show ?thesis by (simp add: on_message_def board_step_view)
  next
    case (Move mv)
    with Some show ?thesis
      by (simp add: on_message_def board_step_view board_view_modify_tank split: option.splits)
  next
    case (Rotate a)
    with Some show ?thesis
      by (simp add: on_message_def board_step_view board_view_modify_tank split: option.splits)
  next
    case Fire
    have "board_step w (case fireBullet i w of (None, w1) \<Rightarrow> w1
                        | (Some b, w1) \<Rightarrow> broadcast (j b) w1)" for i j
    proof -
      obtain ob w1 where f: "fireBullet i w = (ob, w1)" by (cases "fireBullet i w")
      with board_view_fireBullet[of i w] have "board_view w1 = board_view w" by simp
      then show ?thesis by (cases ob) (simp_all add: f board_step_view)
    qed
    with Some Fire show ?thesis
      by (simp add: on_message_def split: option.splits)
  next
    case (AdminLogin pw)
    with Some show ?thesis by (simp add: on_message_def board_step_view)
  next
    case (AdminKick t)
    with Some show ?thesis by (simp add: on_message_def board_step_view board_view_adminKick)
  next
    case (AdminBan t)
    with Some show ?thesis by (simp add: on_message_def board_step_view board_view_adminBan)
  next
    case (AdminSpawnBot p s)
    with Some show ?thesis by (simp add: on_message_def board_step_adminSpawnBot)
  next
    case (AdminRemoveBot b)
    with Some show ?thesis by (simp add: on_message_def board_step_adminRemoveBot)
  next
    case AdminResetScoreboard
    with Some show ?thesis by (simp add: on_message_def board_step_adminResetScoreboard)
  next
    case AdminGetPlayers
    with Some show ?thesis by (simp add: on_message_def board_step_view)
  next
    case (SimulatorJoin d pw)
    with Some show ?thesis by (simp add: on_message_def board_step_simulatorJoin)
  next
    case (Esp32Join d)
    with Some show ?thesis by (simp add: on_message_def board_step_esp32Join)
  next
    case Ignored
    with Some show ?thesis by (simp add: on_message_def)
  qed
qed

lemma board_step_on_close: "board_step w (on_close c w)"
proof (cases "find (\<lambda>cl. conn cl = c) (clients w)")
  case None
  then show ?thesis by (simp add: on_close_def)
next
  case (Some cl)
  let ?w1 = "(case playerId cl of
                      None \<Rightarrow> w
                    | Some pid \<Rightarrow>
                        (case tanks_get pid w of
                           None \<Rightarrow> w
                         | Some tank \<Rightarrow>
                             if \<not> isBot tank \<and> ws tank = Some c
                             then updateScoreboard
                                    (broadcast (msg ''playerLeft'' [(''playerId'', JStr pid)])
                                       (tanks_delete pid w))
                             else w))"
  have a: "board_step w ?w1" by (simp split: option.splits)
  have "board_view (?w1\<lparr>clients := filter (\<lambda>cl. conn cl \<noteq> c) (clients ?w1)\<rparr>) = board_view ?w1"
    by (rule board_view_updates)
  then have b: "board_step ?w1 (?w1\<lparr>clients := filter (\<lambda>cl. conn cl \<noteq> c) (clients ?w1)\<rparr>)"
    by (rule board_step_view)
  have "on_close c w = ?w1\<lparr>clients := filter (\<lambda>cl. conn cl \<noteq> c) (clients ?w1)\<rparr>"
    using Some by (simp add: on_close_def Let_def)
  then show ?thesis using board_step_trans[OF a b] by (simp only:)
qed

lemma board_step_close_fold:
  "board_step s (fold (\<lambda>cl w'. if P cl then on_close (conn cl) w' else w') cs s)"
proof (induction cs arbitrary: s)
  case Nil
  show ?case by simp
next
  case (Cons cl cs)
  have a: "board_step s (if P cl then on_close (conn cl) s else s)"
    by (simp add: board_step_on_close)
  show ?case
    by (simp only: fold_simps) (rule board_step_trans[OF a], rule Cons.IH)
qed

lemma board_step_heartbeat: "board_step w (heartbeat w)"
proof -
  have a: "board_step w (snd (Date_now w))" by (rule board_step_view) simp
  have "heartbeat w =
      fold (\<lambda>cl w'. if fst (Date_now w) - lastPong cl > HEARTBEAT_TIMEOUT
                      then on_close (conn cl) w' else w')
        (clients (snd (Date_now w))) (snd (Date_now w))"
    by (simp add: heartbeat_def Let_def split_beta)
  then show ?thesis
    by (simp only:) (rule board_step_trans[OF a], rule board_step_close_fold)
qed

lemma board_view_on_connection: "board_view (on_connection a w) = board_view w"
  by (simp add: on_connection_def Let_def split_beta board_view_def sendTo_def Date_now_def)

lemma board_view_on_pong: "board_view (on_pong c w) = board_view w"
  by (simp add: on_pong_def Let_def split_beta)

lemma board_view_fire_timer: "board_view (fire_timer n w) = board_view w"
  by (simp add: fire_timer_def Let_def split_beta board_view_modify_tank split: option.splits)

lemma board_step_step: "board_step w (step e w)"
  by (cases e)
     (simp_all add: board_step_updateGame board_step_on_message board_step_on_close
        board_step_heartbeat board_step_view board_view_on_connection board_view_on_pong
        board_view_fire_timer)

lemma board_ok_run: "board_ok w \<Longrightarrow> board_ok (run events w)"
  unfolding run_def
  by (rule fold_preserves[where P = board_ok]) (rule board_step_keeps[OF board_step_step])

lemma board_ok_reachable: "board_ok (run events (initial_world rnd ids clk))"
  by (rule board_ok_run) (simp add: board_ok_def initial_world_def)

text \<open>
  Claim C10. \<^verbatim>\<open>updateScoreboard\<close> sets the scoreboard to the rows of the tanks of the map, one
  row per tank with the tank's id, name, score, kills, deaths and isBot, in the stable
  order of descending score; the result does not depend on the previous scoreboard, the
  tanks are not changed, and the new scoreboard is broadcast. Nothing else writes the
  scoreboard: an event either leaves the scoreboard and the id, name, score, kills and
  isBot of every tank as they are, or ends with the scoreboard recomputed from the
  tanks; so in every state that the server reaches the rows are those of the tanks of
  that state, in that order, the deaths being those at the last recomputation.
\<close>

theorem updateScoreboard_rows_sorted:
  "scoreboard (updateScoreboard w)
     = sort_key (\<lambda>r. - row_score r)
         (map (\<lambda>t. \<lparr>row_id = tankId t, row_name = name t, row_score = score t,
                      row_kills = kills t, row_deaths = deaths t, row_isBot = isBot t\<rparr>)
            (tanks w))
   \<and> mset (scoreboard (updateScoreboard w))
       = mset (map (\<lambda>t. \<lparr>row_id = tankId t, row_name = name t, row_score = score t,
                       row_kills = kills t, row_deaths = deaths t, row_isBot = isBot t\<rparr>)
                (tanks w))
   \<and> length (scoreboard (updateScoreboard w)) = length (tanks w)
   \<and> sorted_wrt (\<lambda>a b. row_score a \<ge> row_score b) (scoreboard (updateScoreboard w))
   \<and> scoreboard (updateScoreboard (w\<lparr>scoreboard := old\<rparr>)) = scoreboard (updateScoreboard w)
   \<and> tanks (updateScoreboard w) = tanks w
   \<and> sent (updateScoreboard w) =
       sent w @ [(Everyone, msg ''scoreboardUpdate''
                    [(''scoreboard'', JArr (map row_json (scoreboard (updateScoreboard w))))])]
   \<and> ((scoreboard (step e w) = scoreboard w
         \<and> map (\<lambda>t. (tankId t, name t, score t, kills t, isBot t)) (tanks (step e w))
             = map (\<lambda>t. (tankId t, name t, score t, kills t, isBot t)) (tanks w))
        \<or> map (\<lambda>r. (row_id r, row_name r, row_score r, row_kills r, row_isBot r))
             (scoreboard (step e w))
            = sort_key (\<lambda>(k, n, s, kl, b). - s)
                (map (\<lambda>t. (tankId t, name t, score t, kills t, isBot t)) (tanks (step e w))))
   \<and> map (\<lambda>r. (row_id r, row_name r, row_score r, row_kills r, row_isBot r))
         (scoreboard (run events (initial_world rnd ids clk)))
       = sort_key (\<lambda>(k, n, s, kl, b). - s)
           (map (\<lambda>t. (tankId t, name t, score t, kills t, isBot t))
              (tanks (run events (initial_world rnd ids clk))))"
proof -
  have rk: "row_key = (\<lambda>r. (row_id r, row_name r, row_score r, row_kills r, row_isBot r))"
    by (simp add: fun_eq_iff row_key_def)
  have bk: "board_key = (\<lambda>t. (tankId t, name t, score t, kills t, isBot t))"
    by (simp add: fun_eq_iff board_key_def)
  have ro: "scoreboard_row_of
              = (\<lambda>t. \<lparr>row_id = tankId t, row_name = name t, row_score = score t,
                       row_kills = kills t, row_deaths = deaths t, row_isBot = isBot t\<rparr>)"
    by (simp add: fun_eq_iff scoreboard_row_of_def)
  have a: "scoreboard (updateScoreboard w)
             = sort_key (\<lambda>r. - row_score r) (map scoreboard_row_of (tanks w))"
    by (simp add: updateScoreboard_def Let_def broadcast_def)
  have b: "mset (scoreboard (updateScoreboard w)) = mset (map scoreboard_row_of (tanks w))"
    by (simp add: a)
  have c: "length (scoreboard (updateScoreboard w)) = length (tanks w)" by (simp add: a)
  have d: "sorted_wrt (\<lambda>a b. row_score a \<ge> row_score b) (scoreboard (updateScoreboard w))"
    by (simp add: a sorted_wrt_sort_key_desc)
  have e: "scoreboard (updateScoreboard (w\<lparr>scoreboard := old\<rparr>)) = scoreboard (updateScoreboard w)"
    by (simp add: updateScoreboard_def Let_def broadcast_def)
  have f: "tanks (updateScoreboard w) = tanks w" by simp
  have g: "sent (updateScoreboard w) =
       sent w @ [(Everyone, msg ''scoreboardUpdate''
                    [(''scoreboard'', JArr (map row_json (scoreboard (updateScoreboard w))))])]"
    by (simp add: updateScoreboard_def Let_def broadcast_def)
  have "board_view (step e w) = board_view w \<or> board_ok (step e w)"
    using board_step_step[of w e] by (simp add: board_step_def)
  then have h: "(scoreboard (step e w) = scoreboard w
         \<and> map (\<lambda>t. (tankId t, name t, score t, kills t, isBot t)) (tanks (step e w))
             = map (\<lambda>t. (tankId t, name t, score t, kills t, isBot t)) (tanks w))
        \<or> map (\<lambda>r. (row_id r, row_name r, row_score r, row_kills r, row_isBot r))
             (scoreboard (step e w))
            = sort_key (\<lambda>(k, n, s, kl, b). - s)
                (map (\<lambda>t. (tankId t, name t, score t, kills t, isBot t)) (tanks (step e w)))"
    unfolding board_view_def board_ok_def rk bk by blast
  have i: "map (\<lambda>r. (row_id r, row_name r, row_score r, row_kills r, row_isBot r))
         (scoreboard (run events (initial_world rnd ids clk)))
       = sort_key (\<lambda>(k, n, s, kl, b). - s)
           (map (\<lambda>t. (tankId t, name t, score t, kills t, isBot t))
              (tanks (run events (initial_world rnd ids clk))))"
    using board_ok_reachable[of events rnd ids clk] unfolding board_ok_def rk bk .
  from a b c d e f g h i show ?thesis unfolding ro by (intro conjI)
qed

end
